(* ===== verification/Go_Base.thy ===== *)
theory Go_Base
  imports Main "HOL-Library.AList"
begin

section \<open>Prelude: the parts of Go and its standard library the proxy uses\<close>

text \<open>
  The RESP proxy (package \<^verbatim>\<open>internal/respproxy\<close>) works on byte strings, on decimal renderings
  of 64-bit integers and on Go maps.  This theory holds what every component shares:

  \<^item> Go's \<^verbatim>\<open>[]byte\<close> and \<^verbatim>\<open>string\<close> are \<^typ>\<open>string\<close> (a HOL \<^typ>\<open>char\<close> is exactly one byte);
  \<^item> \<^verbatim>\<open>uint64\<close> values that are only compared are \<^typ>\<open>nat\<close> with the bound \<open>max_u64\<close> written out;
    \<^verbatim>\<open>int64\<close> arithmetic that may overflow goes through \<open>wrap64\<close>;
  \<^item> \<^verbatim>\<open>strconv\<close>: \<open>FormatUint\<close>, \<open>FormatInt\<close>, \<open>ParseUint\<close> and \<open>ParseInt\<close>, with the values Go returns
    beside an error;
  \<^item> \<^verbatim>\<open>strings\<close> and \<^verbatim>\<open>bytes\<close>: prefixes, index of a byte, splitting and case mapping.

  The lemmas on decimal renderings (uniqueness of the canonical form, its length, the round trip
  with the parsers) carry the proofs of the wire format and of the key parser.
\<close>

named_theorems go_arith \<open>evaluation of the fixed-width constants\<close>
named_theorems go_dec \<open>facts on decimal renderings\<close>

type_synonym bytes = string

abbreviation CR :: char where "CR \<equiv> CHR 0x0D"
abbreviation LF :: char where "LF \<equiv> CHR 0x0A"
abbreviation CRLF :: string where "CRLF \<equiv> [CR, LF]"

subsection \<open>Fixed-width integers\<close>

definition max_u64 :: nat where "max_u64 = 18446744073709551615"

definition max_i64 :: int where "max_i64 = 9223372036854775807"

definition min_i64 :: int where "min_i64 = - 9223372036854775808"

definition wrap64 :: "int \<Rightarrow> int" where
  "wrap64 x = (x + 9223372036854775808) mod 18446744073709551616 - 9223372036854775808"

lemmas [go_arith] = max_u64_def max_i64_def min_i64_def wrap64_def

lemma wrap64_range: "min_i64 \<le> wrap64 x \<and> wrap64 x \<le> max_i64"
proof -
  have "0 \<le> (x + 9223372036854775808) mod 18446744073709551616"
    and "(x + 9223372036854775808) mod 18446744073709551616 < (18446744073709551616 :: int)"
    by simp_all
  then show ?thesis by (simp add: go_arith)
qed

lemma wrap64_id: "min_i64 \<le> x \<Longrightarrow> x \<le> max_i64 \<Longrightarrow> wrap64 x = x"
  by (simp add: go_arith)

subsection \<open>Bytes and decimal digits\<close>

definition is_digit :: "char \<Rightarrow> bool" where
  "is_digit c \<longleftrightarrow> 48 \<le> (of_char c :: nat) \<and> (of_char c :: nat) \<le> 57"

definition digit_val :: "char \<Rightarrow> nat" where
  "digit_val c = of_char c - 48"

definition digit_char :: "nat \<Rightarrow> char" where
  "digit_char d = char_of (48 + d)"

lemma of_char_digit_char: "d < 10 \<Longrightarrow> (of_char (digit_char d) :: nat) = 48 + d"
  by (simp add: digit_char_def)

lemma is_digit_digit_char [simp]: "d < 10 \<Longrightarrow> is_digit (digit_char d)"
  by (simp add: is_digit_def of_char_digit_char)

lemma digit_val_digit_char [simp]: "d < 10 \<Longrightarrow> digit_val (digit_char d) = d"
  by (simp add: digit_val_def of_char_digit_char)

lemma digit_char_digit_val [simp]: "is_digit c \<Longrightarrow> digit_char (digit_val c) = c"
  by (simp add: is_digit_def digit_val_def digit_char_def)

lemma digit_val_less [simp]: "is_digit c \<Longrightarrow> digit_val c < 10"
  unfolding is_digit_def digit_val_def by linarith

lemma digit_char_0 [simp]: "digit_char 0 = CHR ''0''"
  by (simp add: digit_char_def char_of_def bit_iff_odd)

lemma digit_char_numeral [simp]:
  "digit_char 1 = CHR ''1''" "digit_char (Suc 0) = CHR ''1''" "digit_char 2 = CHR ''2''"
  "digit_char 3 = CHR ''3''" "digit_char 4 = CHR ''4''" "digit_char 5 = CHR ''5''"
  "digit_char 6 = CHR ''6''" "digit_char 7 = CHR ''7''" "digit_char 8 = CHR ''8''"
  "digit_char 9 = CHR ''9''"
  by (simp_all add: digit_char_def char_of_def bit_iff_odd)

lemma digit_char_inj: "a < 10 \<Longrightarrow> b < 10 \<Longrightarrow> digit_char a = digit_char b \<longleftrightarrow> a = b"
  by (metis digit_val_digit_char)

lemma not_is_digit [simp]:
  "\<not> is_digit LF" "\<not> is_digit CR" "\<not> is_digit CHR ''-''" "\<not> is_digit CHR ''+''"
  "\<not> is_digit CHR ''_''" "\<not> is_digit CHR '':''" "\<not> is_digit CHR '' ''"
  by (simp_all add: is_digit_def)

text \<open>The value a digit string adds to an accumulator, most significant digit first.\<close>

fun dec_value :: "nat \<Rightarrow> string \<Rightarrow> nat" where
  "dec_value acc [] = acc"
| "dec_value acc (c # cs) = dec_value (10 * acc + digit_val c) cs"

lemma dec_value_append: "dec_value acc (s @ t) = dec_value (dec_value acc s) t"
  by (induction s arbitrary: acc) simp_all

lemma dec_value_mono: "acc \<le> dec_value acc s"
proof (induction s arbitrary: acc)
  case (Cons c s)
  have "acc \<le> 10 * acc + digit_val c" by simp
  also have "\<dots> \<le> dec_value (10 * acc + digit_val c) s" by (rule Cons.IH)
  finally show ?case by simp
qed simp

subsection \<open>strconv: rendering\<close>

fun FormatUint :: "nat \<Rightarrow> string" where
  "FormatUint n = (if n < 10 then [digit_char n] else FormatUint (n div 10) @ [digit_char (n mod 10)])"

declare FormatUint.simps [simp del]

definition FormatInt :: "int \<Rightarrow> string" where
  "FormatInt i = (if i < 0 then CHR ''-'' # FormatUint (nat (- i)) else FormatUint (nat i))"

lemma FormatUint_numeral [simp]:
  "FormatUint 0 = ''0''" "FormatUint 1 = ''1''" "FormatUint (Suc 0) = ''1''"
  "FormatUint (numeral k) = (if numeral k < (10 :: nat) then [digit_char (numeral k)]
     else FormatUint (numeral k div 10) @ [digit_char (numeral k mod 10)])"
  by (simp_all add: FormatUint.simps)

lemma FormatUint_small: "n < 10 \<Longrightarrow> FormatUint n = [digit_char n]"
  by (simp add: FormatUint.simps)

lemma FormatUint_big: "10 \<le> n \<Longrightarrow> FormatUint n = FormatUint (n div 10) @ [digit_char (n mod 10)]"
  by (simp add: FormatUint.simps [of n])

lemma FormatUint_nonempty [simp]: "FormatUint n \<noteq> []"
  by (simp add: FormatUint.simps [of n])

lemma FormatUint_digits: "list_all is_digit (FormatUint n)"
proof (induction n rule: FormatUint.induct)
  case (1 n)
  then show ?case by (cases "n < 10") (simp_all add: FormatUint.simps [of n])
qed

lemma FormatUint_value [simp]: "dec_value 0 (FormatUint n) = n"
proof (induction n rule: FormatUint.induct)
  case (1 n)
  then show ?case
    by (cases "n < 10") (simp_all add: FormatUint.simps [of n] dec_value_append)
qed

lemma FormatUint_inj: "FormatUint m = FormatUint n \<longleftrightarrow> m = n"
  by (metis FormatUint_value)

lemma FormatUint_hd: "0 < n \<Longrightarrow> hd (FormatUint n) \<noteq> CHR ''0''"
proof (induction n rule: FormatUint.induct)
  case (1 n)
  show ?case
  proof (cases "n < 10")
    case True
    with 1 digit_char_inj [of n 0] show ?thesis by (simp add: FormatUint_small)
  next
    case False
    then have "hd (FormatUint n) = hd (FormatUint (n div 10))"
      by (simp add: FormatUint_big)
    with 1 False show ?thesis by (simp add: div_greater_zero_iff)
  qed
qed

lemma FormatUint_length: "0 < k \<Longrightarrow> length (FormatUint n) \<le> k \<longleftrightarrow> n < 10 ^ k"
proof (induction k arbitrary: n)
  case (Suc k)
  show ?case
  proof (cases "n < 10")
    case True
    have "(10::nat) \<le> 10 ^ Suc k" by simp
    with True have "n < 10 ^ Suc k" by linarith
    with True show ?thesis by (simp add: FormatUint_small)
  next
    case False
    then have len: "length (FormatUint n) = Suc (length (FormatUint (n div 10)))"
      by (simp add: FormatUint_big)
    show ?thesis
    proof (cases k)
      case 0
      with False len show ?thesis by simp
    next
      case (Suc j)
      then have "length (FormatUint (n div 10)) \<le> k \<longleftrightarrow> n div 10 < 10 ^ k"
        using Suc.IH by simp
      moreover have "n div 10 < 10 ^ k \<longleftrightarrow> n < 10 ^ Suc k"
        by (simp add: div_less_iff_less_mult mult.commute)
      ultimately show ?thesis using len by simp
    qed
  qed
qed simp

text \<open>
  The canonical decimal form is unique: a non-empty digit string without a leading zero (or the
  single \<^verbatim>\<open>0\<close>) is the rendering of its own value.
\<close>

lemma FormatUint_canonical:
  assumes "s \<noteq> []" and "list_all is_digit s" and "1 < length s \<longrightarrow> hd s \<noteq> CHR ''0''"
  shows "FormatUint (dec_value 0 s) = s"
  using assms
proof (induction s rule: rev_induct)
  case (snoc c s)
  have c: "is_digit c" using snoc.prems by simp
  show ?case
  proof (cases "s = []")
    case True
    with c show ?thesis by (simp add: FormatUint_small)
  next
    case False
    have IH: "FormatUint (dec_value 0 s) = s"
      using snoc False by (cases s) auto
    have "dec_value 0 s \<noteq> 0"
    proof
      assume z: "dec_value 0 s = 0"
      then have "s = [digit_char 0]" using IH by (simp add: FormatUint_small)
      then have "hd s = CHR ''0''" by simp
      with snoc.prems(3) False show False by simp
    qed
    then have "10 \<le> dec_value 0 (s @ [c])" by (simp add: dec_value_append)
    then have "FormatUint (dec_value 0 (s @ [c]))
        = FormatUint (dec_value 0 (s @ [c]) div 10) @ [digit_char (dec_value 0 (s @ [c]) mod 10)]"
      by (rule FormatUint_big)
    with IH c show ?thesis by (simp add: dec_value_append)
  qed
qed simp

subsection \<open>strconv: parsing\<close>

datatype num_err = ErrSyntax | ErrRange

text \<open>
  \<^verbatim>\<open>strconv.ParseUint(s, 10, 64)\<close> returns a value beside its error: 0 on a syntax error, the largest
  value on overflow.  The loop stops at the first digit that overflows, before it looks at the
  rest of the string.
\<close>

fun ParseUint_loop :: "nat \<Rightarrow> string \<Rightarrow> nat \<times> num_err option" where
  "ParseUint_loop n [] = (n, None)"
| "ParseUint_loop n (c # cs) =
     (if \<not> is_digit c then (0, Some ErrSyntax)
      else if max_u64 < 10 * n + digit_val c then (max_u64, Some ErrRange)
      else ParseUint_loop (10 * n + digit_val c) cs)"

definition ParseUint :: "string \<Rightarrow> nat \<times> num_err option" where
  "ParseUint s = (if s = [] then (0, Some ErrSyntax) else ParseUint_loop 0 s)"

definition ParseInt :: "string \<Rightarrow> int \<times> num_err option" where
  "ParseInt s =
     (if s = [] then (0, Some ErrSyntax)
      else
        let neg = (hd s = CHR ''-'');
            d = (if hd s = CHR ''+'' \<or> hd s = CHR ''-'' then tl s else s);
            (un, e) = ParseUint d
        in if e = Some ErrSyntax then (0, Some ErrSyntax)
           else if \<not> neg \<and> 9223372036854775808 \<le> un then (max_i64, Some ErrRange)
           else if neg \<and> 9223372036854775808 < un then (min_i64, Some ErrRange)
           else (if neg then - int un else int un, None))"

lemma ParseUint_loop_ok:
  "n \<le> max_u64 \<Longrightarrow>
   ParseUint_loop n s = (m, None) \<longleftrightarrow> list_all is_digit s \<and> m = dec_value n s \<and> m \<le> max_u64"
proof (induction s arbitrary: n)
  case Nil
  then show ?case by auto
next
  case (Cons c s)
  have "10 * n + digit_val c \<le> dec_value (10 * n + digit_val c) s" by (rule dec_value_mono)
  with Cons.IH [of "10 * n + digit_val c"] show ?case by auto
qed

lemma ParseUint_ok:
  "ParseUint s = (m, None) \<longleftrightarrow> s \<noteq> [] \<and> list_all is_digit s \<and> m = dec_value 0 s \<and> m \<le> max_u64"
  by (auto simp: ParseUint_def ParseUint_loop_ok)

lemma ParseUint_FormatUint [go_dec]: "n \<le> max_u64 \<Longrightarrow> ParseUint (FormatUint n) = (n, None)"
  by (simp add: ParseUint_ok FormatUint_digits)

lemma hd_FormatUint_sign [simp]:
  "hd (FormatUint n) \<noteq> CHR ''-''" "hd (FormatUint n) \<noteq> CHR ''+''"
proof -
  have "is_digit (hd (FormatUint n))"
    using FormatUint_digits [of n] by (cases "FormatUint n") auto
  then show "hd (FormatUint n) \<noteq> CHR ''-''" "hd (FormatUint n) \<noteq> CHR ''+''" by auto
qed

lemma ParseInt_FormatUint [go_dec]:
  assumes "int n \<le> max_i64" shows "ParseInt (FormatUint n) = (int n, None)"
proof -
  have "ParseUint (FormatUint n) = (n, None)"
    using assms by (intro ParseUint_FormatUint) (simp add: go_arith)
  with assms show ?thesis by (simp add: ParseInt_def go_arith)
qed

lemma ParseInt_FormatInt [go_dec]:
  assumes "min_i64 \<le> i" "i \<le> max_i64" shows "ParseInt (FormatInt i) = (i, None)"
proof (cases "i < 0")
  case True
  have "ParseUint (FormatUint (nat (- i))) = (nat (- i), None)"
    using assms True by (intro ParseUint_FormatUint) (simp add: go_arith)
  with assms True show ?thesis by (simp add: ParseInt_def FormatInt_def go_arith)
next
  case False
  with assms show ?thesis by (simp add: FormatInt_def ParseInt_FormatUint)
qed

lemma ParseInt_range: "ParseInt s = (i, None) \<Longrightarrow> min_i64 \<le> i \<and> i \<le> max_i64"
  by (auto simp: ParseInt_def Let_def go_arith split: if_splits prod.splits)

subsection \<open>strings and bytes\<close>

definition HasPrefix :: "string \<Rightarrow> string \<Rightarrow> bool" where
  "HasPrefix s p \<longleftrightarrow> take (length p) s = p"

lemma HasPrefix_iff: "HasPrefix s p \<longleftrightarrow> (\<exists>r. s = p @ r)"
  unfolding HasPrefix_def by (metis append_eq_conv_conj append_take_drop_id)

lemma HasPrefix_append [simp]: "HasPrefix (p @ r) p"
  by (simp add: HasPrefix_def)

lemma HasPrefix_Nil [simp]: "HasPrefix s []" "HasPrefix [] p \<longleftrightarrow> p = []"
  by (auto simp: HasPrefix_def)

lemma HasPrefix_Cons [simp]: "HasPrefix (a # s) (b # p) \<longleftrightarrow> a = b \<and> HasPrefix s p"
  by (auto simp: HasPrefix_def)

text \<open>\<^verbatim>\<open>strings.IndexByte\<close> and \<^verbatim>\<open>bytes.IndexByte\<close>; \<^const>\<open>None\<close> is Go's \<open>-1\<close>.\<close>

fun IndexByte :: "string \<Rightarrow> char \<Rightarrow> nat option" where
  "IndexByte [] c = None"
| "IndexByte (x # xs) c = (if x = c then Some 0 else map_option Suc (IndexByte xs c))"

lemma IndexByte_None: "IndexByte s c = None \<longleftrightarrow> c \<notin> set s"
  by (induction s) auto

lemma IndexByte_Some:
  "IndexByte s c = Some i \<Longrightarrow> i < length s \<and> s ! i = c \<and> c \<notin> set (take i s)"
  by (induction s arbitrary: i) (auto split: if_splits)

lemma IndexByte_append: "c \<notin> set s \<Longrightarrow> IndexByte (s @ c # t) c = Some (length s)"
  by (induction s) auto

lemma IndexByte_split:
  assumes "IndexByte s c = Some i" shows "s = take i s @ c # drop (Suc i) s"
  using IndexByte_Some [OF assms] by (metis id_take_nth_drop)

text \<open>\<^verbatim>\<open>strings.Contains\<close>, by position.\<close>

fun Contains :: "string \<Rightarrow> string \<Rightarrow> bool" where
  "Contains s p = (HasPrefix s p \<or> (case s of [] \<Rightarrow> False | _ # t \<Rightarrow> Contains t p))"

declare Contains.simps [simp del]

lemma Contains_Nil: "Contains [] p \<longleftrightarrow> p = []"
  by (subst Contains.simps) (auto simp: HasPrefix_def)

lemma Contains_Cons: "Contains (x # s) p \<longleftrightarrow> HasPrefix (x # s) p \<or> Contains s p"
  by (subst Contains.simps) simp

lemma Contains_iff: "Contains s p \<longleftrightarrow> (\<exists>a b. s = a @ p @ b)"
proof (induction s)
  case Nil
  then show ?case by (simp add: Contains_Nil)
next
  case (Cons x s)
  show ?case
  proof
    assume "Contains (x # s) p"
    then consider "HasPrefix (x # s) p" | "Contains s p" by (auto simp: Contains_Cons)
    then show "\<exists>a b. x # s = a @ p @ b"
    proof cases
      case 1
      then show ?thesis by (metis HasPrefix_iff append_Nil)
    next
      case 2
      with Cons.IH obtain a b where "s = a @ p @ b" by blast
      then have "x # s = (x # a) @ p @ b" by simp
      then show ?thesis by blast
    qed
  next
    assume "\<exists>a b. x # s = a @ p @ b"
    then obtain a b where ab: "x # s = a @ p @ b" by blast
    show "Contains (x # s) p"
    proof (cases a)
      case Nil
      with ab have "HasPrefix (x # s) p" by simp
      then show ?thesis by (simp add: Contains_Cons)
    next
      case (Cons y a')
      with ab have "s = a' @ p @ b" by simp
      with Cons.IH have "Contains s p" by blast
      then show ?thesis by (simp add: Contains_Cons)
    qed
  qed
qed

text \<open>
  Case mapping.  The proxy compares the result only with ASCII constants, and the only runes
  outside ASCII that Go maps into ASCII are \<^verbatim>\<open>U+0131\<close> and \<^verbatim>\<open>U+017F\<close> (upper case) and \<^verbatim>\<open>U+0130\<close> and
  \<^verbatim>\<open>U+212A\<close> (lower case); they are mapped here, and every other byte outside ASCII stays outside.
\<close>

definition upper_byte :: "char \<Rightarrow> char" where
  "upper_byte c = (if 97 \<le> (of_char c :: nat) \<and> (of_char c :: nat) \<le> 122
                   then char_of ((of_char c :: nat) - 32) else c)"

definition lower_byte :: "char \<Rightarrow> char" where
  "lower_byte c = (if 65 \<le> (of_char c :: nat) \<and> (of_char c :: nat) \<le> 90
                   then char_of ((of_char c :: nat) + 32) else c)"

fun ToUpper :: "string \<Rightarrow> string" where
  "ToUpper [] = []"
| "ToUpper [a] = [upper_byte a]"
| "ToUpper (a # b # s) =
     (if a = CHR 0xC4 \<and> b = CHR 0xB1 then CHR ''I'' # ToUpper s
      else if a = CHR 0xC5 \<and> b = CHR 0xBF then CHR ''S'' # ToUpper s
      else upper_byte a # ToUpper (b # s))"

fun ToLower :: "string \<Rightarrow> string" where
  "ToLower [] = []"
| "ToLower (a # s) =
     (if a = CHR 0xC4 \<and> take 1 s = [CHR 0xB0] then CHR ''i'' # ToLower (drop 1 s)
      else if a = CHR 0xE2 \<and> take 2 s = [CHR 0x84, CHR 0xAA] then CHR ''k'' # ToLower (drop 2 s)
      else lower_byte a # ToLower s)"

text \<open>\<^verbatim>\<open>strings.SplitN(s, sep, n)\<close> for a one-byte separator: at most \<open>n\<close> parts.\<close>

fun SplitN :: "nat \<Rightarrow> char \<Rightarrow> string \<Rightarrow> string list" where
  "SplitN 0 c s = []"
| "SplitN (Suc 0) c s = [s]"
| "SplitN (Suc (Suc n)) c s =
     (case IndexByte s c of
        None \<Rightarrow> [s]
      | Some i \<Rightarrow> take i s # SplitN (Suc n) c (drop (Suc i) s))"

text \<open>Big-endian decoding of a byte string, as the shifts of the source compute it.\<close>

definition be_value :: "string \<Rightarrow> nat" where
  "be_value s = foldl (\<lambda>n c. 256 * n + of_char c) 0 s"

lemma of_char_le: "(of_char c :: nat) \<le> 255"
  using nat_of_char_less_256 [of c] by linarith

lemma be_value_append: "be_value (s @ [c]) = 256 * be_value s + of_char c"
  by (simp add: be_value_def)

lemma be_value_bound: "be_value s < 256 ^ length s"
proof (induction s rule: rev_induct)
  case (snoc c s)
  have "(of_char c :: nat) \<le> 255" by (rule of_char_le)
  with snoc show ?case by (simp add: be_value_append)
qed (simp add: be_value_def)

end
