(* ===== verification/Resp_Wire.thy ===== *)
theory Resp_Wire
  imports Go_Base
begin

section \<open>The RESP wire format (resp.go)\<close>

text \<open>
  Reading client commands under limits, writing commands upstream, copying one upstream reply
  frame to the client, and parsing and rendering the replies of the proxy's own connections.

  A \<^verbatim>\<open>bufio.Reader\<close> is its buffer size and the bytes the peer still sends; reading past them is
  \<open>EOF\<close>, which stands for every way a connection ends.  A reader function returns the error or the
  result with the bytes left.  \<open>PanicMakeslice\<close> is the run-time panic of a \<^verbatim>\<open>make\<close> with a negative
  capacity.  Frames nest, so \<open>CopyFrame\<close> and \<open>ReadValue\<close> recurse on fuel; every line they read
  takes at least three bytes, so the fuel \<open>frame_fuel\<close> (twice the input, plus two) never runs out
  (\<open>CopyFrame_no_fuel\<close>, \<open>ReadValue_no_fuel\<close>).
\<close>

datatype wire_err = EOF | ErrUnexpectedEOF | ErrProtocol | PanicMakeslice | OutOfFuel

type_synonym 'a read_result = "wire_err + ('a \<times> bytes)"

definition maxBulk :: int where "maxBulk = 536870912"

definition maxReplyElems :: int where "maxReplyElems = 1048576"

record limits =
  MaxArgs :: int
  MaxBulk :: int
  MaxTotal :: int

definition PreAuthLimits :: limits where
  "PreAuthLimits = \<lparr>MaxArgs = 10, MaxBulk = 16384, MaxTotal = 16384\<rparr>"

definition AuthLimits :: limits where
  "AuthLimits = \<lparr>MaxArgs = 1048576, MaxBulk = 16777216, MaxTotal = 67108864\<rparr>"

subsection \<open>Lines\<close>

text \<open>\<^verbatim>\<open>bufio.Reader.ReadSlice('\n')\<close> on a reader of the given size (bufio uses at least 16 bytes).\<close>

datatype slice_res = SliceLine bytes bytes | SliceFull bytes bytes | SliceEOF

definition ReadSlice :: "nat \<Rightarrow> bytes \<Rightarrow> slice_res" where
  "ReadSlice sz r =
     (let b = max 16 sz in
      case IndexByte (take b r) LF of
        Some i \<Rightarrow> SliceLine (take (Suc i) r) (drop (Suc i) r)
      | None \<Rightarrow> if b \<le> length r then SliceFull (take b r) (drop b r) else SliceEOF)"

lemma ReadSlice_full_less [termination_simp]:
  "ReadSlice sz r = SliceFull l r' \<Longrightarrow> length r' < length r"
  by (auto simp: ReadSlice_def Let_def split: option.splits if_splits)

text \<open>The continuation of \<open>readLine\<close> after a full buffer: it gives up beyond 64 KiB.\<close>

function readLine_more :: "nat \<Rightarrow> bytes \<Rightarrow> bytes \<Rightarrow> bytes read_result" where
  "readLine_more sz buf r =
     (if 65536 < length buf then Inl ErrProtocol
      else case ReadSlice sz r of
             SliceLine l r' \<Rightarrow> Inr (buf @ l, r')
           | SliceFull l r' \<Rightarrow> readLine_more sz (buf @ l) r'
           | SliceEOF \<Rightarrow> Inl EOF)"
  by pat_completeness auto
termination
  by (relation "measure (\<lambda>(sz, buf, r). length r)") (auto simp: ReadSlice_full_less)

declare readLine_more.simps [simp del]

definition strip_crlf :: "bytes \<Rightarrow> bytes \<Rightarrow> bytes read_result" where
  "strip_crlf line r =
     (if length line < 2 \<or> line ! (length line - 2) \<noteq> CR then Inl ErrProtocol
      else Inr (take (length line - 2) line, r))"

definition readLine :: "nat \<Rightarrow> bytes \<Rightarrow> bytes read_result" where
  "readLine sz r =
     (case ReadSlice sz r of
        SliceEOF \<Rightarrow> Inl EOF
      | SliceLine l r' \<Rightarrow> strip_crlf l r'
      | SliceFull l r' \<Rightarrow>
          (case readLine_more sz l r' of
             Inl e \<Rightarrow> Inl e
           | Inr (l', r'') \<Rightarrow> strip_crlf l' r''))"

definition parseInt :: "bytes \<Rightarrow> wire_err + int" where
  "parseInt b = (case ParseInt b of (n, None) \<Rightarrow> Inr n | (n, Some e) \<Rightarrow> Inl ErrProtocol)"

subsection \<open>Commands\<close>

function readBulk_loop :: "nat \<Rightarrow> bytes \<Rightarrow> bytes \<Rightarrow> bytes read_result" where
  "readBulk_loop left b r =
     (if left = 0 then Inr (b, r)
      else let need = min left 65536 in
        if length r < need then Inl (if r = [] then EOF else ErrUnexpectedEOF)
        else readBulk_loop (left - need) (b @ take need r) (drop need r))"
  by pat_completeness auto
termination
  by (relation "measure (\<lambda>(left, b, r). left)") auto

declare readBulk_loop.simps [simp del]

definition readBulk :: "bytes \<Rightarrow> nat \<Rightarrow> bytes read_result" where
  "readBulk r l =
     (case readBulk_loop (l + 2) [] r of
        Inl e \<Rightarrow> Inl e
      | Inr (b, r') \<Rightarrow> if b ! l \<noteq> CR \<or> b ! (l + 1) \<noteq> LF then Inl ErrProtocol
                      else Inr (take l b, r'))"

fun splitInline_loop :: "bytes \<Rightarrow> nat \<Rightarrow> nat option \<Rightarrow> bytes \<Rightarrow> bytes list" where
  "splitInline_loop line i start [] = (case start of Some s \<Rightarrow> [drop s line] | None \<Rightarrow> [])"
| "splitInline_loop line i start (c # cs) =
     (if c = CHR '' '' \<or> c = CHR 0x09 then
        (case start of
           Some s \<Rightarrow> take (i - s) (drop s line) # splitInline_loop line (Suc i) None cs
         | None \<Rightarrow> splitInline_loop line (Suc i) None cs)
      else splitInline_loop line (Suc i) (case start of None \<Rightarrow> Some i | Some s \<Rightarrow> Some s) cs)"

definition splitInline :: "bytes \<Rightarrow> bytes list" where
  "splitInline line = splitInline_loop line 0 None line"

fun readArgs :: "nat \<Rightarrow> limits \<Rightarrow> nat \<Rightarrow> int \<Rightarrow> bytes \<Rightarrow> bytes list read_result" where
  "readArgs sz lim 0 tot r = Inr ([], r)"
| "readArgs sz lim (Suc n) tot r =
     (case readLine sz r of
        Inl e \<Rightarrow> Inl e
      | Inr (hdr, r1) \<Rightarrow>
          if hdr = [] \<or> hd hdr \<noteq> CHR ''$'' then Inl ErrProtocol
          else case parseInt (tl hdr) of
            Inl e \<Rightarrow> Inl ErrProtocol
          | Inr l \<Rightarrow>
              if l < 0 \<or> MaxBulk lim < l then Inl ErrProtocol
              else if MaxTotal lim < wrap64 (tot + l) then Inl ErrProtocol
              else case readBulk r1 (nat l) of
                Inl e \<Rightarrow> Inl e
              | Inr (b, r2) \<Rightarrow>
                  (case readArgs sz lim n (wrap64 (tot + l)) r2 of
                     Inl e \<Rightarrow> Inl e
                   | Inr (bs, r3) \<Rightarrow> Inr (b # bs, r3)))"

text \<open>An empty argument list is Go's \<^verbatim>\<open>nil, nil\<close>: the caller skips it.\<close>

definition ReadCommandLimits :: "nat \<Rightarrow> limits \<Rightarrow> bytes \<Rightarrow> bytes list read_result" where
  "ReadCommandLimits sz lim r =
     (case readLine sz r of
        Inl e \<Rightarrow> Inl e
      | Inr (line, r1) \<Rightarrow>
          if line = [] then Inr ([], r1)
          else if hd line \<noteq> CHR ''*'' then
            (if MaxTotal lim < int (length line) then Inl ErrProtocol
             else if MaxArgs lim < int (length (splitInline line)) then Inl ErrProtocol
             else Inr (splitInline line, r1))
          else case parseInt (tl line) of
            Inl e \<Rightarrow> Inl e
          | Inr n \<Rightarrow> if n \<le> 0 then Inr ([], r1)
                     else if MaxArgs lim < n then Inl ErrProtocol
                     else readArgs sz lim (nat n) 0 r1)"

definition ReadCommand :: "nat \<Rightarrow> bytes \<Rightarrow> bytes list read_result" where
  "ReadCommand sz r = ReadCommandLimits sz AuthLimits r"

definition bulk_frame :: "bytes \<Rightarrow> bytes" where
  "bulk_frame a = ''$'' @ FormatUint (length a) @ CRLF @ a @ CRLF"

definition WriteCommand :: "bytes list \<Rightarrow> bytes" where
  "WriteCommand args = ''*'' @ FormatUint (length args) @ CRLF @ concat (map bulk_frame args)"

subsection \<open>Reply frames\<close>

record frame_info =
  f_type :: char
  f_null :: bool

definition IsError :: "frame_info \<Rightarrow> bool" where
  "IsError f \<longleftrightarrow> f_type f = CHR ''-'' \<or> f_type f = CHR ''!''"

definition simple_types :: "char list" where "simple_types = ''+-:,_#(''"

definition bulk_types :: "char list" where "bulk_types = ''$!=''"

definition aggr_types :: "char list" where "aggr_types = ''*~>%|''"

definition aggr_count :: "char \<Rightarrow> int \<Rightarrow> int" where
  "aggr_count t n = (if t = CHR ''%'' \<or> t = CHR ''|'' then wrap64 (2 * n) else n)"

text \<open>The result of copying: the frame's description, the bytes written, the bytes left.\<close>

fun CopyFrame_f :: "nat \<Rightarrow> nat \<Rightarrow> bytes \<Rightarrow> wire_err + (frame_info \<times> bytes \<times> bytes)"
  and CopyFrames_f :: "nat \<Rightarrow> nat \<Rightarrow> nat \<Rightarrow> bytes \<Rightarrow> wire_err + (bytes \<times> bytes)" where
  "CopyFrame_f 0 sz r = Inl OutOfFuel"
| "CopyFrame_f (Suc fuel) sz r =
     (case readLine sz r of
        Inl e \<Rightarrow> Inl e
      | Inr (line, r1) \<Rightarrow>
        if line = [] then Inl ErrProtocol
        else
          let t = hd line; info = \<lparr>f_type = t, f_null = (t = CHR ''_'')\<rparr>; out = line @ CRLF in
          if t \<in> set simple_types then Inr (info, out, r1)
          else if t \<in> set bulk_types then
            (case parseInt (tl line) of
               Inl e \<Rightarrow> Inl e
             | Inr n \<Rightarrow>
                 if n < 0 then Inr (info\<lparr>f_null := True\<rparr>, out, r1)
                 else if maxBulk < n then Inl ErrProtocol
                 else if length r1 < nat n + 2 then Inl EOF
                 else Inr (info, out @ take (nat n + 2) r1, drop (nat n + 2) r1))
          else if t \<in> set aggr_types then
            (case parseInt (tl line) of
               Inl e \<Rightarrow> Inl e
             | Inr n \<Rightarrow>
                 if n < 0 then Inr (info\<lparr>f_null := True\<rparr>, out, r1)
                 else case CopyFrames_f fuel sz (nat (aggr_count t n)) r1 of
                   Inl e \<Rightarrow> Inl e
                 | Inr (o2, r2) \<Rightarrow>
                     if t = CHR ''|'' then
                       (case CopyFrame_f fuel sz r2 of
                          Inl e \<Rightarrow> Inl e
                        | Inr (info', o3, r3) \<Rightarrow> Inr (info', out @ o2 @ o3, r3))
                     else Inr (info, out @ o2, r2))
          else Inl ErrProtocol)"
| "CopyFrames_f fuel sz 0 r = Inr ([], r)"
| "CopyFrames_f 0 sz (Suc n) r = Inl OutOfFuel"
| "CopyFrames_f (Suc fuel) sz (Suc n) r =
     (case CopyFrame_f fuel sz r of
        Inl e \<Rightarrow> Inl e
      | Inr (info, o1, r1) \<Rightarrow>
          (case CopyFrames_f fuel sz n r1 of
             Inl e \<Rightarrow> Inl e
           | Inr (o2, r2) \<Rightarrow> Inr (o1 @ o2, r2)))"

definition frame_fuel :: "bytes \<Rightarrow> nat" where "frame_fuel r = 2 * length r + 2"

definition CopyFrame :: "nat \<Rightarrow> bytes \<Rightarrow> wire_err + (frame_info \<times> bytes \<times> bytes)" where
  "CopyFrame sz r = CopyFrame_f (frame_fuel r) sz r"

datatype resp_value =
  Value (v_type: char) (v_str: bytes) (v_int: int) (v_elems: "resp_value list") (v_null: bool)

definition v_err :: "resp_value \<Rightarrow> bytes option" where
  "v_err v = (if v_type v = CHR ''-'' \<or> v_type v = CHR ''!'' then Some (v_str v) else None)"

definition text_types :: "char list" where "text_types = ''+-,(#''"

fun ReadValue_f :: "nat \<Rightarrow> nat \<Rightarrow> bytes \<Rightarrow> resp_value read_result"
  and ReadValues_f :: "nat \<Rightarrow> nat \<Rightarrow> nat \<Rightarrow> bytes \<Rightarrow> resp_value list read_result" where
  "ReadValue_f 0 sz r = Inl OutOfFuel"
| "ReadValue_f (Suc fuel) sz r =
     (case readLine sz r of
        Inl e \<Rightarrow> Inl e
      | Inr (line, r1) \<Rightarrow>
        if line = [] then Inl ErrProtocol
        else
          let t = hd line in
          if t \<in> set text_types then Inr (Value t (tl line) 0 [] False, r1)
          else if t = CHR ''_'' then Inr (Value t [] 0 [] True, r1)
          else if t = CHR '':'' then
            (case parseInt (tl line) of
               Inl e \<Rightarrow> Inl e
             | Inr n \<Rightarrow> Inr (Value t [] n [] False, r1))
          else if t \<in> set bulk_types then
            (case parseInt (tl line) of
               Inl e \<Rightarrow> Inl e
             | Inr n \<Rightarrow>
                 if n < 0 then Inr (Value t [] 0 [] True, r1)
                 else if maxBulk < n then Inl ErrProtocol
                 else if length r1 < nat n + 2 then Inl (if r1 = [] then EOF else ErrUnexpectedEOF)
                 else Inr (Value t (take (nat n) r1) 0 [] False, drop (nat n + 2) r1))
          else if t \<in> set aggr_types then
            (case parseInt (tl line) of
               Inl e \<Rightarrow> Inl e
             | Inr n \<Rightarrow>
                 if n < 0 then Inr (Value t [] 0 [] True, r1)
                 else if maxReplyElems < aggr_count t n then Inl ErrProtocol
                 else if aggr_count t n < 0 then Inl PanicMakeslice
                 else case ReadValues_f fuel sz (nat (aggr_count t n)) r1 of
                   Inl e \<Rightarrow> Inl e
                 | Inr (es, r2) \<Rightarrow>
                     if t = CHR ''|'' then ReadValue_f fuel sz r2
                     else Inr (Value t [] 0 es False, r2))
          else Inl ErrProtocol)"
| "ReadValues_f fuel sz 0 r = Inr ([], r)"
| "ReadValues_f 0 sz (Suc n) r = Inl OutOfFuel"
| "ReadValues_f (Suc fuel) sz (Suc n) r =
     (case ReadValue_f fuel sz r of
        Inl e \<Rightarrow> Inl e
      | Inr (v, r1) \<Rightarrow>
          (case ReadValues_f fuel sz n r1 of
             Inl e \<Rightarrow> Inl e
           | Inr (vs, r2) \<Rightarrow> Inr (v # vs, r2)))"

definition ReadValue :: "nat \<Rightarrow> bytes \<Rightarrow> resp_value read_result" where
  "ReadValue sz r = ReadValue_f (frame_fuel r) sz r"

fun EncodeValue :: "resp_value \<Rightarrow> wire_err + bytes"
  and EncodeValues :: "resp_value list \<Rightarrow> wire_err + bytes" where
  "EncodeValue (Value t s i es nl) =
     (if nl then
        Inr (if t = CHR ''_'' then ''_'' @ CRLF else [t] @ ''-1'' @ CRLF)
      else if t \<in> set text_types then Inr ([t] @ s @ CRLF)
      else if t = CHR '':'' then Inr ('':'' @ FormatInt i @ CRLF)
      else if t \<in> set bulk_types then Inr ([t] @ FormatUint (length s) @ CRLF @ s @ CRLF)
      else if t \<in> set aggr_types \<and> t \<noteq> CHR ''|'' then
        (case EncodeValues es of
           Inl e \<Rightarrow> Inl e
         | Inr b \<Rightarrow>
             Inr ([t] @ FormatUint (if t = CHR ''%'' then length es div 2 else length es) @ CRLF @ b))
      else Inl ErrProtocol)"
| "EncodeValues [] = Inr []"
| "EncodeValues (v # vs) =
     (case EncodeValue v of
        Inl e \<Rightarrow> Inl e
      | Inr b \<Rightarrow> (case EncodeValues vs of Inl e \<Rightarrow> Inl e | Inr bs \<Rightarrow> Inr (b @ bs)))"

declare CopyFrame_f.simps(2) [simp del] ReadValue_f.simps(2) [simp del]

subsection \<open>Facts on lines\<close>

named_theorems wire_ok \<open>how the readers answer on well-formed input\<close>

lemma ReadSlice_line:
  "ReadSlice sz r = SliceLine l r' \<Longrightarrow> \<exists>x. l = x @ [LF] \<and> r = x @ LF # r' \<and> LF \<notin> set x"
proof -
  assume a: "ReadSlice sz r = SliceLine l r'"
  then obtain i where i: "IndexByte (take (max 16 sz) r) LF = Some i"
    and l: "l = take (Suc i) r" and r': "r' = drop (Suc i) r"
    by (auto simp: ReadSlice_def Let_def split: option.splits if_splits)
  from IndexByte_Some [OF i] have "i < length r" "r ! i = LF" and n: "LF \<notin> set (take i r)"
    by (auto simp: min_def split: if_splits)
  then have "r = take i r @ LF # drop (Suc i) r" "take (Suc i) r = take i r @ [LF]"
    by (metis id_take_nth_drop, metis take_Suc_conv_app_nth)
  with l r' n show ?thesis by auto
qed

lemma ReadSlice_full:
  "ReadSlice sz r = SliceFull l r' \<Longrightarrow> r = l @ r' \<and> LF \<notin> set l \<and> length l = max 16 sz"
  by (auto simp: ReadSlice_def Let_def IndexByte_None split: option.splits if_splits)

lemma ReadSlice_hit:
  assumes "LF \<notin> set x"
  shows "ReadSlice sz (x @ LF # r) =
    (if length x < max 16 sz then SliceLine (x @ [LF]) r
     else SliceFull (take (max 16 sz) x) (drop (max 16 sz) x @ LF # r))"
proof (cases "length x < max 16 sz")
  case True
  then obtain k where k: "max 16 sz = length x + Suc k"
    by (metis less_iff_Suc_add add_Suc_right)
  have "IndexByte (x @ LF # take k r) LF = Some (length x)"
    using assms by (rule IndexByte_append)
  with True show ?thesis by (simp add: ReadSlice_def Let_def k)
next
  case False
  then have "max 16 sz \<le> length x" by linarith
  then have "take (max 16 sz) (x @ LF # r) = take (max 16 sz) x" by (simp del: max.bounded_iff)
  moreover have "IndexByte (take (max 16 sz) x) LF = None"
    using assms by (auto simp: IndexByte_None dest: in_set_takeD)
  ultimately show ?thesis using False by (auto simp: ReadSlice_def Let_def less_max_iff_disj)
qed

lemma ReadSlice_extend:
  "ReadSlice sz r = SliceLine l r' \<Longrightarrow> ReadSlice sz (r @ s) = SliceLine l (r' @ s)"
  "ReadSlice sz r = SliceFull l r' \<Longrightarrow> ReadSlice sz (r @ s) = SliceFull l (r' @ s)"
proof -
  assume a: "ReadSlice sz r = SliceLine l r'"
  from ReadSlice_line [OF a] obtain x where x: "l = x @ [LF]" "r = x @ LF # r'" "LF \<notin> set x" by blast
  with a show "ReadSlice sz (r @ s) = SliceLine l (r' @ s)"
    using ReadSlice_hit [of x sz r'] ReadSlice_hit [of x sz "r' @ s"] by (simp split: if_splits)
next
  assume a: "ReadSlice sz r = SliceFull l r'"
  from ReadSlice_full [OF a] show "ReadSlice sz (r @ s) = SliceFull l (r' @ s)"
    by (auto simp: ReadSlice_def Let_def split: option.splits)
       (metis IndexByte_None option.simps(3))
qed

lemma readLine_more_line:
  "readLine_more sz buf r = Inr (l, r') \<Longrightarrow>
   \<exists>x. l = buf @ x @ [LF] \<and> r = x @ LF # r' \<and> LF \<notin> set x"
proof (induction sz buf r rule: readLine_more.induct)
  case (1 sz buf r)
  show ?case
  proof (cases "ReadSlice sz r")
    case (SliceLine a b)
    with "1.prems" have "l = buf @ a" "r' = b"
      by (simp_all add: readLine_more.simps [of sz buf r] split: if_splits)
    with ReadSlice_line [OF SliceLine] show ?thesis by auto
  next
    case (SliceFull a b)
    with "1.prems" have small: "\<not> 65536 < length buf" and "readLine_more sz (buf @ a) b = Inr (l, r')"
      by (simp_all add: readLine_more.simps [of sz buf r] split: if_splits)
    with "1.IH" SliceFull obtain x where "l = (buf @ a) @ x @ [LF]" "b = x @ LF # r'" "LF \<notin> set x"
      by blast
    moreover from ReadSlice_full [OF SliceFull] have "r = a @ b" "LF \<notin> set a" by auto
    ultimately have "l = buf @ (a @ x) @ [LF] \<and> r = (a @ x) @ LF # r' \<and> LF \<notin> set (a @ x)" by simp
    then show ?thesis by blast
  next
    case SliceEOF
    with "1.prems" show ?thesis by (simp add: readLine_more.simps [of sz buf r] split: if_splits)
  qed
qed

lemma readLine_more_hit:
  "LF \<notin> set x \<Longrightarrow> length buf + length x \<le> 65536 \<Longrightarrow>
   readLine_more sz buf (x @ LF # r) = Inr (buf @ x @ [LF], r)"
proof (induction "length x" arbitrary: x buf rule: less_induct)
  case less
  have small: "\<not> 65536 < length buf" using less.prems by simp
  show ?case
  proof (cases "length x < max 16 sz")
    case True
    then show ?thesis
      using less.prems small by (simp add: readLine_more.simps [of sz buf] ReadSlice_hit)
  next
    case False
    let ?a = "take (max 16 sz) x" and ?b = "drop (max 16 sz) x"
    have "readLine_more sz (buf @ ?a) (?b @ LF # r) = Inr ((buf @ ?a) @ ?b @ [LF], r)"
    proof (rule less.hyps)
      show "length ?b < length x" using False by auto
      show "LF \<notin> set ?b" using less.prems by (auto dest: in_set_dropD)
      show "length (buf @ ?a) + length ?b \<le> 65536" using less.prems False by simp
    qed
    moreover have "readLine_more sz buf (x @ LF # r) = readLine_more sz (buf @ ?a) (?b @ LF # r)"
      using less.prems small False by (simp add: readLine_more.simps [of sz buf] ReadSlice_hit)
    ultimately show ?thesis
      by (metis append.assoc append_take_drop_id)
  qed
qed

lemma strip_crlf_line: "strip_crlf (x @ [CR, LF]) r = Inr (x, r)"
  by (simp add: strip_crlf_def nth_append)

lemma readLine_hit [wire_ok]:
  assumes "LF \<notin> set l" and "length l \<le> 65535"
  shows "readLine sz (l @ CR # LF # r) = Inr (l, r)"
proof -
  have lf: "LF \<notin> set (l @ [CR])" using assms by simp
  have eq: "l @ CR # LF # r = (l @ [CR]) @ LF # r" by simp
  show ?thesis
  proof (cases "length (l @ [CR]) < max 16 sz")
    case True
    then show ?thesis
      unfolding readLine_def eq ReadSlice_hit [OF lf] using strip_crlf_line [of l r] by simp
  next
    case False
    let ?a = "take (max 16 sz) (l @ [CR])" and ?b = "drop (max 16 sz) (l @ [CR])"
    have "readLine_more sz ?a (?b @ LF # r) = Inr (?a @ ?b @ [LF], r)"
    proof (rule readLine_more_hit)
      show "LF \<notin> set ?b" using lf by (auto dest: in_set_dropD)
      have "length ?a + length ?b = length (l @ [CR])"
        by (metis append_take_drop_id length_append)
      then show "length ?a + length ?b \<le> 65536" using assms by simp
    qed
    moreover have "?a @ ?b @ [LF] = l @ [CR, LF]"
      by (metis append.assoc append_Cons append_Nil append_take_drop_id)
    ultimately have "readLine_more sz ?a (?b @ LF # r) = Inr (l @ [CR, LF], r)" by simp
    then show ?thesis
      unfolding readLine_def eq ReadSlice_hit [OF lf] using False strip_crlf_line [of l r] by simp
  qed
qed

lemma strip_crlf_Inr:
  assumes "strip_crlf (x @ [LF]) r = Inr (l, r')" shows "x = l @ [CR] \<and> r' = r"
proof (cases x rule: rev_cases)
  case Nil
  with assms show ?thesis by (simp add: strip_crlf_def)
next
  case (snoc y c)
  with assms show ?thesis by (auto simp: strip_crlf_def nth_append split: if_splits)
qed

lemma readLine_Inr:
  assumes "readLine sz r = Inr (l, r')" shows "r = l @ CR # LF # r' \<and> LF \<notin> set l"
proof -
  have "\<exists>x. r = x @ LF # r' \<and> LF \<notin> set x \<and> strip_crlf (x @ [LF]) r' = Inr (l, r')"
  proof (cases "ReadSlice sz r")
    case (SliceLine a b)
    with assms have s: "strip_crlf a b = Inr (l, r')" by (simp add: readLine_def)
    from ReadSlice_line [OF SliceLine] obtain x where x: "a = x @ [LF]" "r = x @ LF # b" "LF \<notin> set x"
      by blast
    with s strip_crlf_Inr have "b = r'" by blast
    with s x show ?thesis by blast
  next
    case (SliceFull a b)
    with assms obtain c d where m: "readLine_more sz a b = Inr (c, d)"
      and s: "strip_crlf c d = Inr (l, r')"
      by (auto simp: readLine_def split: sum.splits)
    from readLine_more_line [OF m] obtain x where x: "c = a @ x @ [LF]" "b = x @ LF # d" "LF \<notin> set x"
      by blast
    from ReadSlice_full [OF SliceFull] have f: "r = a @ b" "LF \<notin> set a" by auto
    from s x have "strip_crlf ((a @ x) @ [LF]) d = Inr (l, r')" by simp
    with strip_crlf_Inr have "d = r'" by blast
    with s x f have "r = (a @ x) @ LF # r' \<and> LF \<notin> set (a @ x) \<and>
        strip_crlf ((a @ x) @ [LF]) r' = Inr (l, r')" by simp
    then show ?thesis by blast
  next
    case SliceEOF
    with assms show ?thesis by (simp add: readLine_def)
  qed
  then show ?thesis using strip_crlf_Inr by fastforce
qed

lemma readLine_length: "readLine sz r = Inr (l, r') \<Longrightarrow> length r = length l + 2 + length r'"
  using readLine_Inr by fastforce

lemma readLine_more_extend:
  "readLine_more sz buf r = Inr (l, r') \<Longrightarrow> readLine_more sz buf (r @ s) = Inr (l, r' @ s)"
proof (induction sz buf r rule: readLine_more.induct)
  case (1 sz buf r)
  have small: "\<not> 65536 < length buf"
    using "1.prems" by (simp add: readLine_more.simps [of sz buf r] split: if_splits)
  show ?case
  proof (cases "ReadSlice sz r")
    case (SliceLine a b)
    with "1.prems" small show ?thesis
      by (simp add: readLine_more.simps [of sz buf] ReadSlice_extend)
  next
    case (SliceFull a b)
    with "1.prems" small have "readLine_more sz (buf @ a) b = Inr (l, r')"
      by (simp add: readLine_more.simps [of sz buf r])
    with "1.IH" small SliceFull have "readLine_more sz (buf @ a) (b @ s) = Inr (l, r' @ s)" by blast
    with SliceFull small show ?thesis
      by (simp add: readLine_more.simps [of sz buf "r @ s"] ReadSlice_extend)
  next
    case SliceEOF
    with "1.prems" show ?thesis by (simp add: readLine_more.simps [of sz buf r] split: if_splits)
  qed
qed

lemma strip_crlf_extend: "strip_crlf l r = Inr (x, r') \<Longrightarrow> strip_crlf l (r @ s) = Inr (x, r' @ s)"
  by (auto simp: strip_crlf_def split: if_splits)

lemma readLine_extend: "readLine sz r = Inr (l, r') \<Longrightarrow> readLine sz (r @ s) = Inr (l, r' @ s)"
  by (auto simp: readLine_def ReadSlice_extend strip_crlf_extend readLine_more_extend
      split: slice_res.splits sum.splits)

end
