(* ===== verification/Resp_Props.thy ===== *)
theory Resp_Props
  imports Resp_Wire
begin

section \<open>Correctness of the RESP wire format\<close>

text \<open>
  What the reader and writer of \<^verbatim>\<open>resp.go\<close> promise to the rest of the proxy: a written command reads
  back, an accepted command stays within its limits, every reader takes a self-delimiting prefix
  of the stream (so a refusal can be spliced between two frames), a reply frame is relayed byte for
  byte, the relayed frame and the parsed value of the same bytes agree, and a rendered value parses
  back to itself.
\<close>

subsection \<open>Lines are self-delimiting\<close>

lemma readLine_more_rest:
  "LF \<notin> set x \<Longrightarrow> readLine_more sz buf (x @ LF # r) = Inr (l, r) \<Longrightarrow>
   readLine_more sz buf (x @ LF # s) = Inr (l, s)"
proof (induction "length x" arbitrary: x buf rule: less_induct)
  case less
  have small: "\<not> 65536 < length buf"
    using less.prems(2) by (auto simp: readLine_more.simps [of sz buf] split: if_splits)
  show ?case
  proof (cases "length x < max 16 sz")
    case True
    then show ?thesis
      using less.prems small by (simp add: readLine_more.simps [of sz buf] ReadSlice_hit)
  next
    case False
    let ?a = "take (max 16 sz) x" and ?b = "drop (max 16 sz) x"
    have b: "length ?b < length x" "LF \<notin> set ?b"
      using False less.prems(1) by (auto dest: in_set_dropD)
    have "readLine_more sz (buf @ ?a) (?b @ LF # r) = Inr (l, r)"
      using less.prems small False by (simp add: readLine_more.simps [of sz buf] ReadSlice_hit)
    then have "readLine_more sz (buf @ ?a) (?b @ LF # s) = Inr (l, s)"
      by (rule less.hyps [OF b])
    then show ?thesis
      using less.prems(1) small False by (simp add: readLine_more.simps [of sz buf] ReadSlice_hit)
  qed
qed

lemma readLine_rest:
  assumes "readLine sz r = Inr (l, r')" shows "readLine sz (l @ CR # LF # s) = Inr (l, s)"
proof -
  from readLine_Inr [OF assms] have r: "r = (l @ [CR]) @ LF # r'" and lf: "LF \<notin> set (l @ [CR])"
    by simp_all
  have s: "l @ CR # LF # s = (l @ [CR]) @ LF # s" by simp
  have hit: "strip_crlf ((l @ [CR]) @ [LF]) s = Inr (l, s)" using strip_crlf_line [of l s] by simp
  show ?thesis
  proof (cases "length (l @ [CR]) < max 16 sz")
    case True
    then show ?thesis unfolding readLine_def s ReadSlice_hit [OF lf] using hit by simp
  next
    case False
    let ?a = "take (max 16 sz) (l @ [CR])" and ?b = "drop (max 16 sz) (l @ [CR])"
    have "readLine sz r = (case readLine_more sz ?a (?b @ LF # r') of
        Inl e \<Rightarrow> Inl e | Inr (l', r'') \<Rightarrow> strip_crlf l' r'')"
      unfolding readLine_def r ReadSlice_hit [OF lf] using False by simp
    with assms obtain l0 r0 where m: "readLine_more sz ?a (?b @ LF # r') = Inr (l0, r0)"
      by (auto split: sum.splits)
    from readLine_more_line [OF m] obtain x where x: "l0 = ?a @ x @ [LF]" "?b @ LF # r' = x @ LF # r0"
      "LF \<notin> set x" by blast
    have b: "LF \<notin> set ?b" using lf by (auto dest: in_set_dropD)
    have "?b = x \<and> r' = r0"
      using x(2,3) b by (auto simp: append_eq_append_conv2 append_eq_Cons_conv Cons_eq_append_conv)
    then have "l0 = (?a @ ?b) @ [LF]" and r0: "r0 = r'" using x(1) by simp_all
    then have "l0 = l @ [CR, LF]" unfolding append_take_drop_id by simp
    with m r0 have "readLine_more sz ?a (?b @ LF # r') = Inr (l @ [CR, LF], r')" by simp
    then have "readLine_more sz ?a (?b @ LF # s) = Inr (l @ [CR, LF], s)"
      by (rule readLine_more_rest [OF b])
    then show ?thesis unfolding readLine_def s ReadSlice_hit [OF lf] using False hit by simp
  qed
qed

subsection \<open>Bulk strings\<close>

lemma readBulk_loop_enough:
  "left \<le> length r \<Longrightarrow> readBulk_loop left b r = Inr (b @ take left r, drop left r)"
proof (induction left b r rule: readBulk_loop.induct)
  case (1 left b r)
  show ?case
  proof (cases "left = 0")
    case True
    then show ?thesis by (simp add: readBulk_loop.simps)
  next
    case False
    let ?n = "min left 65536"
    have "readBulk_loop (left - ?n) (b @ take ?n r) (drop ?n r)
        = Inr ((b @ take ?n r) @ take (left - ?n) (drop ?n r), drop (left - ?n) (drop ?n r))"
      using "1.IH" [OF False refl] "1.prems" by simp
    moreover have "take ?n r @ take (left - ?n) (drop ?n r) = take left r"
      by (metis le_add_diff_inverse min.cobounded1 take_add)
    moreover have "drop (left - ?n) (drop ?n r) = drop left r" by simp
    ultimately show ?thesis
      using False "1.prems" by (simp add: readBulk_loop.simps [of left] Let_def)
  qed
qed

lemma readBulk_loop_Inr: "readBulk_loop left b r = Inr x \<Longrightarrow> left \<le> length r"
proof (induction left b r rule: readBulk_loop.induct)
  case (1 left b r)
  show ?case
  proof (cases "left = 0")
    case False
    with "1.prems" have n: "\<not> length r < min left 65536"
      and "readBulk_loop (left - min left 65536) (b @ take (min left 65536) r)
            (drop (min left 65536) r) = Inr x"
      by (simp_all add: readBulk_loop.simps [of left] Let_def split: if_splits)
    with "1.IH" [OF False refl] have "left - min left 65536 \<le> length (drop (min left 65536) r)" by simp
    with n show ?thesis by (simp add: min_def split: if_splits)
  qed simp
qed

lemma readBulk_hit [wire_ok]: "readBulk (a @ CR # LF # r) (length a) = Inr (a, r)"
  by (simp add: readBulk_def readBulk_loop_enough nth_append)

lemma readBulk_Inr:
  assumes "readBulk r l = Inr (b, r')" shows "r = b @ CR # LF # r' \<and> length b = l"
proof -
  from assms obtain b0 r0 where m: "readBulk_loop (l + 2) [] r = Inr (b0, r0)"
    and c: "b0 ! l = CR" "b0 ! (l + 1) = LF" and b: "b = take l b0" "r' = r0"
    by (auto simp: readBulk_def split: sum.splits if_splits)
  have len: "l + 2 \<le> length r" using readBulk_loop_Inr [OF m] .
  with m have b0: "b0 = take (l + 2) r" "r0 = drop (l + 2) r" by (simp_all add: readBulk_loop_enough)
  have rl: "r ! l = CR" "r ! Suc l = LF" using c b0 by simp_all
  have "r = take l r @ drop l r" by simp
  also have "drop l r = r ! l # drop (Suc l) r" using len by (simp add: Cons_nth_drop_Suc)
  also have "drop (Suc l) r = r ! Suc l # drop (l + 2) r" using len by (simp add: Cons_nth_drop_Suc)
  finally show ?thesis using b b0 rl len by simp
qed

subsection \<open>Commands: round trip\<close>

lemma parseInt_FormatUint [wire_ok]: "int n \<le> max_i64 \<Longrightarrow> parseInt (FormatUint n) = Inr (int n)"
  by (simp add: parseInt_def ParseInt_FormatUint)

lemma parseInt_FormatInt [wire_ok]:
  "min_i64 \<le> i \<Longrightarrow> i \<le> max_i64 \<Longrightarrow> parseInt (FormatInt i) = Inr i"
  by (simp add: parseInt_def ParseInt_FormatInt)

lemma FormatUint_short: "int n \<le> max_i64 \<Longrightarrow> length (FormatUint n) \<le> 19"
  by (subst FormatUint_length) (simp_all add: go_arith)

lemma FormatUint_no_LF: "LF \<notin> set (FormatUint n)"
  using FormatUint_digits [of n] by (auto simp: list_all_iff)

lemma readLine_number [wire_ok]:
  assumes "int n \<le> max_i64" and "t \<noteq> LF"
  shows "readLine sz (t # FormatUint n @ CR # LF # r) = Inr (t # FormatUint n, r)"
  using readLine_hit [of "t # FormatUint n" sz r] assms FormatUint_short [OF assms(1)]
    FormatUint_no_LF [of n] by simp

lemma readArgs_bulk_frames:
  assumes "\<forall>a \<in> set args. int (length a) \<le> MaxBulk lim"
    and "tot + int (sum_list (map length args)) \<le> MaxTotal lim"
    and "0 \<le> tot" and "MaxTotal lim \<le> max_i64"
  shows "readArgs sz lim (length args) tot (concat (map bulk_frame args) @ r) = Inr (args, r)"
  using assms
proof (induction args arbitrary: tot)
  case (Cons a args)
  let ?s = "concat (map bulk_frame args) @ r"
  have small: "int (length a) \<le> max_i64" using Cons.prems by simp
  have "readArgs sz lim (length args) (tot + int (length a)) ?s = Inr (args, r)"
    using Cons.prems by (intro Cons.IH) simp_all
  moreover have "wrap64 (tot + int (length a)) = tot + int (length a)"
    using Cons.prems by (intro wrap64_id) (simp_all add: go_arith)
  moreover have "readLine sz (CHR ''$'' # FormatUint (length a) @ CR # LF # a @ CR # LF # ?s)
      = Inr (CHR ''$'' # FormatUint (length a), a @ CR # LF # ?s)"
    using small by (intro readLine_number) simp_all
  ultimately show ?case
    using Cons.prems small by (simp add: bulk_frame_def [of a] parseInt_FormatUint readBulk_hit)
qed simp

lemma readArgs_Inr:
  assumes "readArgs sz lim n tot r = Inr (args, r')"
    and "0 \<le> tot" "tot \<le> MaxTotal lim" "MaxTotal lim + MaxBulk lim \<le> max_i64"
  shows "length args = n \<and> tot + int (sum_list (map length args)) \<le> MaxTotal lim
    \<and> (\<forall>a \<in> set args. int (length a) \<le> MaxBulk lim)"
  using assms
proof (induction n arbitrary: tot r args)
  case (Suc n)
  from Suc.prems(1) obtain hdr r1 l b r2 bs where
      p: "parseInt (tl hdr) = Inr l" and l: "0 \<le> l" "l \<le> MaxBulk lim"
    and w: "wrap64 (tot + l) \<le> MaxTotal lim" and b: "readBulk r1 (nat l) = Inr (b, r2)"
    and rec: "readArgs sz lim n (wrap64 (tot + l)) r2 = Inr (bs, r')" and args: "args = b # bs"
    by (auto split: sum.splits if_splits prod.splits)
  have w': "wrap64 (tot + l) = tot + l"
    using Suc.prems l by (intro wrap64_id) (simp_all add: go_arith)
  have "length bs = n \<and> tot + l + int (sum_list (map length bs)) \<le> MaxTotal lim
      \<and> (\<forall>a \<in> set bs. int (length a) \<le> MaxBulk lim)"
    using Suc.IH [OF rec] Suc.prems w w' l by simp
  moreover have "int (length b) = l" using readBulk_Inr [OF b] l by simp
  ultimately show ?case using args l by simp
qed simp

lemma readArgs_rest:
  "readArgs sz lim n tot r = Inr (args, r') \<Longrightarrow>
   \<exists>p. r = p @ r' \<and> (\<forall>s. readArgs sz lim n tot (p @ s) = Inr (args, s))"
proof (induction n arbitrary: tot r args)
  case (Suc n)
  from Suc.prems obtain hdr r1 l b r2 bs where
      h: "readLine sz r = Inr (hdr, r1)" "hdr \<noteq> []" "hd hdr = CHR ''$''"
    and l: "parseInt (tl hdr) = Inr l" "\<not> (l < 0 \<or> MaxBulk lim < l)"
      "\<not> MaxTotal lim < wrap64 (tot + l)"
    and b: "readBulk r1 (nat l) = Inr (b, r2)"
    and rec: "readArgs sz lim n (wrap64 (tot + l)) r2 = Inr (bs, r')" and args: "args = b # bs"
    by (auto split: sum.splits if_splits prod.splits)
  from Suc.IH [OF rec] obtain q where q: "r2 = q @ r'"
    "\<And>s. readArgs sz lim n (wrap64 (tot + l)) (q @ s) = Inr (bs, s)" by blast
  have r: "r = (hdr @ CR # LF # b @ CR # LF # q) @ r'"
    using readLine_Inr [OF h(1)] readBulk_Inr [OF b] q(1) by simp
  have len: "nat l = length b" using readBulk_Inr [OF b] by simp
  have "readArgs sz lim (Suc n) tot ((hdr @ CR # LF # b @ CR # LF # q) @ s) = Inr (args, s)" for s
    using readLine_rest [OF h(1), of "b @ CR # LF # q @ s"] h(2,3) l q(2) args
    by (simp add: len readBulk_hit)
  with r show ?case by blast
qed simp

text \<open>Inline commands: the words of the line, never more bytes than the line has.\<close>

lemma splitInline_loop_length:
  "(case start of Some s \<Rightarrow> s < i | None \<Rightarrow> True) \<Longrightarrow> i + length cs = length line \<Longrightarrow>
   sum_list (map length (splitInline_loop line i start cs))
     \<le> length cs + (case start of Some s \<Rightarrow> i - s | None \<Rightarrow> 0)"
proof (induction line i start cs rule: splitInline_loop.induct)
  case (1 line i start)
  then show ?case by (auto split: option.splits)
next
  case (2 line i start c cs)
  then show ?case by (cases start) (force simp: min_def)+
qed

lemma splitInline_length: "sum_list (map length (splitInline line)) \<le> length line"
  using splitInline_loop_length [where start = None and i = 0 and cs = line and line = line] by (simp add: splitInline_def)

lemma read_written_command:
  assumes "args \<noteq> []" and "int (length args) \<le> MaxArgs lim"
    and "MaxArgs lim \<le> max_i64" and "MaxTotal lim \<le> max_i64"
    and "\<forall>a \<in> set args. int (length a) \<le> MaxBulk lim"
    and "int (sum_list (map length args)) \<le> MaxTotal lim"
  shows "ReadCommandLimits sz lim (WriteCommand args @ rest) = Inr (args, rest)"
proof -
  have n: "int (length args) \<le> max_i64" using assms by simp
  have "WriteCommand args @ rest
      = CHR ''*'' # FormatUint (length args) @ CR # LF # concat (map bulk_frame args) @ rest"
    by (simp add: WriteCommand_def)
  moreover have "readArgs sz lim (length args) 0 (concat (map bulk_frame args) @ rest)
      = Inr (args, rest)"
    using assms by (intro readArgs_bulk_frames) simp_all
  ultimately show ?thesis
    using assms n by (simp add: ReadCommandLimits_def readLine_number parseInt_FormatUint)
qed

text \<open>C21: A command written by \<^verbatim>\<open>WriteCommand\<close> that fits the limits is read back unchanged by
  \<^verbatim>\<open>ReadCommandLimits\<close>, whatever follows it in the stream and whatever the size of the reader's
  buffer; the reader stops exactly at the end of the command.\<close>

theorem ReadCommand_WriteCommand:
  assumes "args \<noteq> []" and "int (length args) \<le> MaxArgs lim"
    and "MaxArgs lim \<le> max_i64" and "MaxTotal lim \<le> max_i64"
    and "\<forall>a \<in> set args. int (length a) \<le> MaxBulk lim"
    and "int (sum_list (map length args)) \<le> MaxTotal lim"
  shows "ReadCommandLimits sz lim (WriteCommand args @ rest) = Inr (args, rest)"
  using assms by (rule read_written_command)

theorem ReadCommand_WriteCommand_witness:
  "ReadCommandLimits 16384 AuthLimits (WriteCommand [''GET'', ''i1''] @ ''PING'') =
   Inr ([''GET'', ''i1''], ''PING'')"
  by (rule ReadCommand_WriteCommand) (simp_all add: AuthLimits_def go_arith)

text \<open>C34: Whatever a client sends, an accepted command has at most \<^verbatim>\<open>MaxArgs\<close> arguments and at most
  \<^verbatim>\<open>MaxTotal\<close> bytes in all of them together, so a declared size never makes the proxy hold more than
  its limits.\<close>

theorem ReadCommandLimits_bounded:
  assumes "ReadCommandLimits sz lim r = Inr (args, r')"
    and "0 \<le> MaxArgs lim" "0 \<le> MaxTotal lim" "MaxTotal lim + MaxBulk lim \<le> max_i64"
  shows "int (length args) \<le> MaxArgs lim \<and> int (sum_list (map length args)) \<le> MaxTotal lim"
proof -
  from assms(1) obtain line r1 where line: "readLine sz r = Inr (line, r1)"
    by (auto simp: ReadCommandLimits_def split: sum.splits)
  consider "args = []" | "line \<noteq> []" "hd line \<noteq> CHR ''*''" "args = splitInline line"
      "int (length line) \<le> MaxTotal lim" "int (length args) \<le> MaxArgs lim"
    | n where "readArgs sz lim (nat n) 0 r1 = Inr (args, r')" "0 < n" "n \<le> MaxArgs lim"
    using assms(1) line by (auto simp: ReadCommandLimits_def split: if_splits sum.splits)
  then show ?thesis
  proof cases
    case 2
    then show ?thesis using splitInline_length [of line] by simp
  next
    case 3
    then show ?thesis using readArgs_Inr [OF 3(1)] assms by simp
  qed (use assms in simp)
qed

theorem ReadCommandLimits_bounded_witness:
  "int (length [''PING'']) \<le> MaxArgs PreAuthLimits \<and>
   int (sum_list (map length [''PING''])) \<le> MaxTotal PreAuthLimits"
proof (rule ReadCommandLimits_bounded)
  show "ReadCommandLimits 16384 PreAuthLimits (WriteCommand [''PING''] @ []) = Inr ([''PING''], [])"
    by (rule read_written_command) (simp_all add: PreAuthLimits_def go_arith)
qed (simp_all add: PreAuthLimits_def go_arith)

text \<open>The command reader takes a self-delimiting prefix of the stream: the same bytes are read
  as the same command whatever comes after them, and nothing after them is consumed.\<close>

lemma ReadCommandLimits_self_delimiting:
  assumes "ReadCommandLimits sz lim r = Inr (args, r')"
  shows "\<exists>p. r = p @ r' \<and> (\<forall>s. ReadCommandLimits sz lim (p @ s) = Inr (args, s))"
proof -
  from assms obtain line r1 where line: "readLine sz r = Inr (line, r1)"
    by (auto simp: ReadCommandLimits_def split: sum.splits)
  note split = readLine_Inr [OF line] and again = readLine_rest [OF line]
  show ?thesis
  proof (cases "r1 = r' \<and> (\<forall>s. ReadCommandLimits sz lim (line @ CR # LF # s) = Inr (args, s))")
    case True
    then show ?thesis using split by (intro exI [of _ "line @ CRLF"]) simp
  next
    case False
    then obtain n where n: "line \<noteq> []" "hd line = CHR ''*''" "parseInt (tl line) = Inr n" "0 < n"
      "\<not> MaxArgs lim < n" and ra: "readArgs sz lim (nat n) 0 r1 = Inr (args, r')"
      using assms line again by (auto simp: ReadCommandLimits_def split: if_splits sum.splits)
    from readArgs_rest [OF ra] obtain q where q: "r1 = q @ r'"
      "\<And>s. readArgs sz lim (nat n) 0 (q @ s) = Inr (args, s)" by blast
    have "r = (line @ CR # LF # q) @ r'" using split q by simp
    moreover have "ReadCommandLimits sz lim ((line @ CR # LF # q) @ s) = Inr (args, s)" for s
      using again [of "q @ s"] n q(2) by (simp add: ReadCommandLimits_def)
    ultimately show ?thesis by blast
  qed
qed

lemma ReadCommandLimits_self_delimiting_ping:
  "\<exists>p. WriteCommand [''PING''] @ ''x'' = p @ ''x'' \<and>
       (\<forall>s. ReadCommandLimits 64 PreAuthLimits (p @ s) = Inr ([''PING''], s))"
proof (rule ReadCommandLimits_self_delimiting)
  show "ReadCommandLimits 64 PreAuthLimits (WriteCommand [''PING''] @ ''x'') = Inr ([''PING''], ''x'')"
    by (rule read_written_command) (simp_all add: PreAuthLimits_def go_arith)
qed

subsection \<open>Reply frames\<close>

lemmas frame_type_defs = simple_types_def bulk_types_def aggr_types_def text_types_def

lemma frame_types_disjoint:
  "t \<in> set bulk_types \<Longrightarrow> t \<notin> set simple_types \<and> t \<notin> set aggr_types"
  "t \<in> set aggr_types \<Longrightarrow> t \<notin> set simple_types \<and> t \<notin> set bulk_types"
  "t \<in> set text_types \<Longrightarrow> t \<in> set simple_types"
  "t \<in> set simple_types \<longleftrightarrow> t \<in> set text_types \<or> t = CHR ''_'' \<or> t = CHR '':''"
  by (auto simp: frame_type_defs)

text \<open>The ways one call of \<open>CopyFrame\<close> succeeds, one per branch of its switch.\<close>

lemma CopyFrame_f_cases [consumes 1, case_names simple null bulk aggr attr]:
  assumes "CopyFrame_f (Suc fuel) sz r = Inr (info, out, r')"
  obtains
    (simple) line where "readLine sz r = Inr (line, r')" "line \<noteq> []" "hd line \<in> set simple_types"
      "info = \<lparr>f_type = hd line, f_null = (hd line = CHR ''_'')\<rparr>" "out = line @ CRLF"
  | (null) line n where "readLine sz r = Inr (line, r')" "line \<noteq> []"
      "hd line \<in> set bulk_types \<or> hd line \<in> set aggr_types" "parseInt (tl line) = Inr n" "n < 0"
      "info = \<lparr>f_type = hd line, f_null = True\<rparr>" "out = line @ CRLF"
  | (bulk) line r1 n where "readLine sz r = Inr (line, r1)" "line \<noteq> []" "hd line \<in> set bulk_types"
      "parseInt (tl line) = Inr n" "0 \<le> n" "n \<le> maxBulk" "nat n + 2 \<le> length r1"
      "info = \<lparr>f_type = hd line, f_null = False\<rparr>" "out = line @ CRLF @ take (nat n + 2) r1"
      "r' = drop (nat n + 2) r1"
  | (aggr) line r1 n o2 where "readLine sz r = Inr (line, r1)" "line \<noteq> []"
      "hd line \<in> set aggr_types" "hd line \<noteq> CHR ''|''" "parseInt (tl line) = Inr n" "0 \<le> n"
      "CopyFrames_f fuel sz (nat (aggr_count (hd line) n)) r1 = Inr (o2, r')"
      "info = \<lparr>f_type = hd line, f_null = False\<rparr>" "out = line @ CRLF @ o2"
  | (attr) line r1 n o2 r2 o3 where "readLine sz r = Inr (line, r1)" "line \<noteq> []"
      "hd line = CHR ''|''" "parseInt (tl line) = Inr n" "0 \<le> n"
      "CopyFrames_f fuel sz (nat (aggr_count (hd line) n)) r1 = Inr (o2, r2)"
      "CopyFrame_f fuel sz r2 = Inr (info, o3, r')" "out = line @ CRLF @ o2 @ o3"
proof -
  from assms obtain line r1 where line: "readLine sz r = Inr (line, r1)" "line \<noteq> []"
    by (auto simp: CopyFrame_f.simps(2) split: sum.splits if_splits)
  have nn: "c \<noteq> CHR ''_''" if "c \<in> set bulk_types \<or> c \<in> set aggr_types" for c
    using that by (auto simp: frame_type_defs)
  consider "hd line \<in> set simple_types" | "hd line \<in> set bulk_types" | "hd line \<in> set aggr_types"
    using assms line by (auto simp: CopyFrame_f.simps(2) Let_def split: if_splits)
  then show thesis
  proof cases
    case 1
    with assms line simple show thesis by (auto simp: CopyFrame_f.simps(2) Let_def)
  next
    case 2
    note d = frame_types_disjoint(1) [OF 2]
    from assms line 2 d obtain n where n: "parseInt (tl line) = Inr n"
      by (auto simp: CopyFrame_f.simps(2) Let_def split: sum.splits)
    with assms line 2 d nn null [OF _ line(2) _ n] bulk [OF line 2 n] show thesis
      by (auto simp: CopyFrame_f.simps(2) Let_def split: if_splits)
  next
    case 3
    note d = frame_types_disjoint(2) [OF 3]
    from assms line 3 d obtain n where n: "parseInt (tl line) = Inr n"
      by (auto simp: CopyFrame_f.simps(2) Let_def split: sum.splits)
    with assms line 3 d nn null [OF _ line(2) _ n] aggr [OF line 3 _ n] attr [OF line _ n] show thesis
      by (auto simp: CopyFrame_f.simps(2) Let_def split: if_splits sum.splits)
  qed
qed

lemma CopyFrame_f_again:
  assumes line: "readLine sz r = Inr (line, r1)" "line \<noteq> []"
  shows "hd line \<in> set simple_types \<Longrightarrow> CopyFrame_f (Suc fuel) sz (line @ CR # LF # s)
      = Inr (\<lparr>f_type = hd line, f_null = (hd line = CHR ''_'')\<rparr>, line @ CRLF, s)"
    and "hd line \<in> set bulk_types \<or> hd line \<in> set aggr_types \<Longrightarrow> parseInt (tl line) = Inr n \<Longrightarrow> n < 0
      \<Longrightarrow> CopyFrame_f (Suc fuel) sz (line @ CR # LF # s)
      = Inr (\<lparr>f_type = hd line, f_null = True\<rparr>, line @ CRLF, s)"
    and "hd line \<in> set bulk_types \<Longrightarrow> parseInt (tl line) = Inr n \<Longrightarrow> 0 \<le> n \<Longrightarrow> n \<le> maxBulk
      \<Longrightarrow> length b = nat n + 2 \<Longrightarrow> CopyFrame_f (Suc fuel) sz (line @ CR # LF # b @ s)
      = Inr (\<lparr>f_type = hd line, f_null = False\<rparr>, line @ CRLF @ b, s)"
    and "hd line \<in> set aggr_types \<Longrightarrow> hd line \<noteq> CHR ''|'' \<Longrightarrow> parseInt (tl line) = Inr n \<Longrightarrow> 0 \<le> n
      \<Longrightarrow> CopyFrames_f fuel sz (nat (aggr_count (hd line) n)) s0 = Inr (o2, s)
      \<Longrightarrow> CopyFrame_f (Suc fuel) sz (line @ CR # LF # s0)
      = Inr (\<lparr>f_type = hd line, f_null = False\<rparr>, line @ CRLF @ o2, s)"
    and "hd line = CHR ''|'' \<Longrightarrow> parseInt (tl line) = Inr n \<Longrightarrow> 0 \<le> n
      \<Longrightarrow> CopyFrames_f fuel sz (nat (aggr_count (hd line) n)) s0 = Inr (o2, s2)
      \<Longrightarrow> CopyFrame_f fuel sz s2 = Inr (info, o3, s)
      \<Longrightarrow> CopyFrame_f (Suc fuel) sz (line @ CR # LF # s0) = Inr (info, line @ CRLF @ o2 @ o3, s)"
proof -
  note unf = CopyFrame_f.simps(2) readLine_rest [OF line(1)] Let_def
  have nn: "c \<noteq> CHR ''_''" if "c \<in> set bulk_types \<or> c \<in> set aggr_types" for c
    using that by (auto simp: frame_type_defs)
  show "hd line \<in> set simple_types \<Longrightarrow> CopyFrame_f (Suc fuel) sz (line @ CR # LF # s)
      = Inr (\<lparr>f_type = hd line, f_null = (hd line = CHR ''_'')\<rparr>, line @ CRLF, s)"
    using line by (simp add: unf)
  show "hd line \<in> set bulk_types \<or> hd line \<in> set aggr_types \<Longrightarrow> parseInt (tl line) = Inr n \<Longrightarrow> n < 0
      \<Longrightarrow> CopyFrame_f (Suc fuel) sz (line @ CR # LF # s)
      = Inr (\<lparr>f_type = hd line, f_null = True\<rparr>, line @ CRLF, s)"
    using line frame_types_disjoint(1,2) [of "hd line"] by (elim disjE) (simp_all add: unf)
  show "hd line \<in> set bulk_types \<Longrightarrow> parseInt (tl line) = Inr n \<Longrightarrow> 0 \<le> n \<Longrightarrow> n \<le> maxBulk
      \<Longrightarrow> length b = nat n + 2 \<Longrightarrow> CopyFrame_f (Suc fuel) sz (line @ CR # LF # b @ s)
      = Inr (\<lparr>f_type = hd line, f_null = False\<rparr>, line @ CRLF @ b, s)"
    using line frame_types_disjoint(1) [of "hd line"] nn [of "hd line"] by (simp add: unf)
  show "hd line \<in> set aggr_types \<Longrightarrow> hd line \<noteq> CHR ''|'' \<Longrightarrow> parseInt (tl line) = Inr n \<Longrightarrow> 0 \<le> n
      \<Longrightarrow> CopyFrames_f fuel sz (nat (aggr_count (hd line) n)) s0 = Inr (o2, s)
      \<Longrightarrow> CopyFrame_f (Suc fuel) sz (line @ CR # LF # s0)
      = Inr (\<lparr>f_type = hd line, f_null = False\<rparr>, line @ CRLF @ o2, s)"
    using line frame_types_disjoint(2) [of "hd line"] nn [of "hd line"] by (simp add: unf)
  show "hd line = CHR ''|'' \<Longrightarrow> parseInt (tl line) = Inr n \<Longrightarrow> 0 \<le> n
      \<Longrightarrow> CopyFrames_f fuel sz (nat (aggr_count (hd line) n)) s0 = Inr (o2, s2)
      \<Longrightarrow> CopyFrame_f fuel sz s2 = Inr (info, o3, s)
      \<Longrightarrow> CopyFrame_f (Suc fuel) sz (line @ CR # LF # s0) = Inr (info, line @ CRLF @ o2 @ o3, s)"
    using line by (simp add: unf frame_type_defs)
qed

lemma line_frame_length: "line \<noteq> [] \<Longrightarrow> 3 \<le> length (line @ CRLF)"
  by (cases line) auto

lemma CopyFrame_f_copies_both:
  "(\<forall>r info out r'. CopyFrame_f fuel sz r = Inr (info, out, r') \<longrightarrow>
      r = out @ r' \<and> 3 \<le> length out \<and> (\<forall>s. CopyFrame_f fuel sz (out @ s) = Inr (info, out, s))) \<and>
   (\<forall>n r out r'. CopyFrames_f fuel sz n r = Inr (out, r') \<longrightarrow>
      r = out @ r' \<and> (\<forall>s. CopyFrames_f fuel sz n (out @ s) = Inr (out, s)))"
proof (induction fuel)
  case 0
  have "r = out @ r' \<and> (\<forall>s. CopyFrames_f 0 sz n (out @ s) = Inr (out, s))"
    if "CopyFrames_f 0 sz n r = Inr (out, r')" for n r out r'
    using that by (cases n) auto
  then show ?case by simp
next
  case (Suc fuel)
  have one: "r = out @ r' \<and> 3 \<le> length out \<and>
      (\<forall>s. CopyFrame_f (Suc fuel) sz (out @ s) = Inr (info, out, s))"
    if "CopyFrame_f (Suc fuel) sz r = Inr (info, out, r')" for r info out r'
    using that
  proof (cases rule: CopyFrame_f_cases)
    case (simple line)
    then show ?thesis using readLine_Inr [OF simple(1)] CopyFrame_f_again(1) [OF simple(1,2)]
        line_frame_length by simp
  next
    case (null line n)
    then show ?thesis using readLine_Inr [OF null(1)] CopyFrame_f_again(2) [OF null(1,2)]
        line_frame_length by simp
  next
    case (bulk line r1 n)
    then show ?thesis
      using readLine_Inr [OF bulk(1)] line_frame_length [OF bulk(2)]
        CopyFrame_f_again(3) [OF bulk(1,2), of n "take (nat n + 2) r1"] by simp
  next
    case (aggr line r1 n o2)
    then have "r1 = o2 @ r'"
      "\<And>s. CopyFrames_f fuel sz (nat (aggr_count (hd line) n)) (o2 @ s) = Inr (o2, s)"
      using Suc by simp_all
    then show ?thesis
      using aggr readLine_Inr [OF aggr(1)] line_frame_length [OF aggr(2)]
        CopyFrame_f_again(4) [OF aggr(1-6)] by simp
  next
    case (attr line r1 n o2 r2 o3)
    then have "r1 = o2 @ r2" "r2 = o3 @ r'"
      "\<And>s. CopyFrames_f fuel sz (nat (aggr_count (hd line) n)) (o2 @ s) = Inr (o2, s)"
      "\<And>s. CopyFrame_f fuel sz (o3 @ s) = Inr (info, o3, s)"
      using Suc by simp_all
    then show ?thesis
      using attr readLine_Inr [OF attr(1)] line_frame_length [OF attr(2)]
        CopyFrame_f_again(5) [OF attr(1-5)] by simp
  qed
  have many: "r = out @ r' \<and> (\<forall>s. CopyFrames_f (Suc fuel) sz n (out @ s) = Inr (out, s))"
    if a: "CopyFrames_f (Suc fuel) sz n r = Inr (out, r')" for n r out r'
  proof (cases n)
    case (Suc k)
    with a obtain i1 o1 r1 o2 where c: "CopyFrame_f fuel sz r = Inr (i1, o1, r1)"
      "CopyFrames_f fuel sz k r1 = Inr (o2, r')" "out = o1 @ o2"
      by (auto split: sum.splits)
    with Suc.IH have "r = o1 @ r1" "\<And>s. CopyFrame_f fuel sz (o1 @ s) = Inr (i1, o1, s)"
      "r1 = o2 @ r'" "\<And>s. CopyFrames_f fuel sz k (o2 @ s) = Inr (o2, s)"
      by simp_all
    with c Suc show ?thesis by simp
  qed (use a in simp)
  from one many show ?case by blast
qed

lemmas CopyFrame_f_copies = CopyFrame_f_copies_both [THEN conjunct1, rule_format]
  and CopyFrames_f_copies = CopyFrame_f_copies_both [THEN conjunct2, rule_format]

text \<open>Fuel: a result does not depend on it once it exceeds twice the input, and it never runs out.\<close>

lemma CopyFrame_f_stable_both:
  "(\<forall>r x g. CopyFrame_f fuel sz r = Inr x \<longrightarrow> 2 * length r < g \<longrightarrow> CopyFrame_f g sz r = Inr x) \<and>
   (\<forall>n r x g. CopyFrames_f fuel sz n r = Inr x \<longrightarrow> 2 * length r + 1 < g \<longrightarrow>
      CopyFrames_f g sz n r = Inr x)"
proof (induction fuel)
  case 0
  have "CopyFrames_f g sz n r = Inr x" if "CopyFrames_f 0 sz n r = Inr x" for n r x g
    using that by (cases n) auto
  then show ?case by (intro conjI allI impI) (simp, blast)
next
  case (Suc fuel)
  note IH1 = Suc [THEN conjunct1, rule_format] and IH2 = Suc [THEN conjunct2, rule_format]
  have one: "CopyFrame_f g sz r = Inr x"
    if a: "CopyFrame_f (Suc fuel) sz r = Inr x" and g: "2 * length r < g" for r x g
  proof -
    obtain info out r' where x: "x = (info, out, r')" by (cases x)
    obtain h where h: "g = Suc h" using g by (cases g) auto
    from a [unfolded x] show ?thesis
    proof (cases rule: CopyFrame_f_cases)
      case (simple line)
      then show ?thesis
        using CopyFrame_f_again(1) [OF simple(1,2)] readLine_Inr [OF simple(1)] x h by simp
    next
      case (null line n)
      then show ?thesis
        using CopyFrame_f_again(2) [OF null(1,2)] readLine_Inr [OF null(1)] x h by simp
    next
      case (bulk line r1 n)
      then show ?thesis
        using CopyFrame_f_again(3) [OF bulk(1-6), of "take (nat n + 2) r1" h "drop (nat n + 2) r1"]
          readLine_Inr [OF bulk(1)] x h by simp
    next
      case (aggr line r1 n o2)
      have "2 * length r1 + 1 < h" using g h readLine_length [OF aggr(1)] aggr(2) by (cases line) auto
      then have "CopyFrames_f h sz (nat (aggr_count (hd line) n)) r1 = Inr (o2, r')"
        by (rule IH2 [OF aggr(7)])
      then show ?thesis
        using CopyFrame_f_again(4) [OF aggr(1-6)] aggr readLine_Inr [OF aggr(1)] x h by simp
    next
      case (attr line r1 n o2 r2 o3)
      have l: "2 * length r1 + 1 < h" using g h readLine_length [OF attr(1)] attr(2) by (cases line) auto
      then have "CopyFrames_f h sz (nat (aggr_count (hd line) n)) r1 = Inr (o2, r2)"
        by (rule IH2 [OF attr(6)])
      moreover have "length r2 \<le> length r1" using CopyFrames_f_copies [OF attr(6)] by simp
      then have "CopyFrame_f h sz r2 = Inr (info, o3, r')"
        using l by (intro IH1 [OF attr(7)]) simp
      ultimately show ?thesis
        using CopyFrame_f_again(5) [OF attr(1-5)] attr readLine_Inr [OF attr(1)] x h by simp
    qed
  qed
  have many: "CopyFrames_f g sz n r = Inr x"
    if a: "CopyFrames_f (Suc fuel) sz n r = Inr x" and g: "2 * length r + 1 < g" for n r x g
  proof (cases n)
    case (Suc k)
    obtain h where h: "g = Suc h" using g by (cases g) auto
    from a Suc obtain i1 o1 r1 o2 r2 where c: "CopyFrame_f fuel sz r = Inr (i1, o1, r1)"
      "CopyFrames_f fuel sz k r1 = Inr (o2, r2)" "x = (o1 @ o2, r2)"
      by (auto split: sum.splits)
    have "CopyFrame_f h sz r = Inr (i1, o1, r1)" using g h by (intro IH1 [OF c(1)]) simp
    moreover have "2 * length r1 + 1 < h" using CopyFrame_f_copies [OF c(1)] g h by auto
    then have "CopyFrames_f h sz k r1 = Inr (o2, r2)" by (rule IH2 [OF c(2)])
    ultimately show ?thesis using c(3) Suc h by simp
  qed (use a in simp)
  from one many show ?case by blast
qed

lemmas CopyFrame_f_stable = CopyFrame_f_stable_both [THEN conjunct1, rule_format]

lemma readLine_no_fuel: "readLine sz r \<noteq> Inl OutOfFuel"
proof -
  have "readLine_more sz buf q \<noteq> Inl OutOfFuel" for buf q
    by (induction sz buf q rule: readLine_more.induct)
      (subst readLine_more.simps, auto split: slice_res.splits)
  then show ?thesis
    by (auto simp: readLine_def strip_crlf_def split: slice_res.splits sum.splits if_splits)
qed

lemma parseInt_no_fuel: "parseInt b \<noteq> Inl OutOfFuel"
  by (auto simp: parseInt_def split: prod.splits option.splits)

lemma CopyFrame_no_fuel_both:
  "(\<forall>r. 2 * length r < fuel \<longrightarrow> CopyFrame_f fuel sz r \<noteq> Inl OutOfFuel) \<and>
   (\<forall>n r. 2 * length r + 1 < fuel \<longrightarrow> CopyFrames_f fuel sz n r \<noteq> Inl OutOfFuel)"
proof (induction fuel)
  case (Suc fuel)
  have one: "CopyFrame_f (Suc fuel) sz r \<noteq> Inl OutOfFuel" if l: "2 * length r < Suc fuel" for r
  proof (cases "readLine sz r")
    case (Inl e)
    with readLine_no_fuel [of sz r] show ?thesis by (simp add: CopyFrame_f.simps(2))
  next
    case (Inr p)
    obtain line r1 where p: "p = (line, r1)" by (cases p)
    show ?thesis
    proof (cases "line = []")
      case False
      have l1: "2 * length r1 + 1 < fuel"
        using l readLine_length [OF Inr [unfolded p]] False by (cases line) auto
      then have m: "CopyFrames_f fuel sz n r1 \<noteq> Inl OutOfFuel" for n using Suc by blast
      have "CopyFrame_f fuel sz r2 \<noteq> Inl OutOfFuel"
        if "CopyFrames_f fuel sz n r1 = Inr (o2, r2)" for n o2 r2
        using CopyFrames_f_copies [OF that] l1 Suc by auto
      with m Inr p False parseInt_no_fuel [of "tl line"] show ?thesis
        by (auto simp: CopyFrame_f.simps(2) Let_def split: sum.splits)
    qed (simp add: CopyFrame_f.simps(2) Inr p)
  qed
  have many: "CopyFrames_f (Suc fuel) sz n r \<noteq> Inl OutOfFuel" if l: "2 * length r + 1 < Suc fuel" for n r
  proof (cases n)
    case (Suc k)
    have "CopyFrame_f fuel sz r \<noteq> Inl OutOfFuel" using Suc.IH l by simp
    moreover have "CopyFrames_f fuel sz k r1 \<noteq> Inl OutOfFuel"
      if "CopyFrame_f fuel sz r = Inr (i, o1, r1)" for i o1 r1
      using CopyFrame_f_copies [OF that] l Suc.IH by auto
    ultimately show ?thesis using Suc by (auto split: sum.splits)
  qed simp
  from one many show ?case by blast
qed simp

lemma frame_fuel_enough: "2 * length r < frame_fuel r"
  by (simp add: frame_fuel_def)

text \<open>C23: A reply is relayed byte for byte: what \<^verbatim>\<open>CopyFrame\<close> writes to the client followed by what
  it leaves unread is exactly what the upstream sent, and the frame it takes does not depend on the
  bytes after it, so two pipelined replies are never mixed up.\<close>

theorem CopyFrame_transparent:
  assumes "CopyFrame sz r = Inr (info, out, r')"
  shows "r = out @ r' \<and> out \<noteq> [] \<and> (\<forall>s. CopyFrame sz (out @ s) = Inr (info, out, s))"
proof -
  note c = CopyFrame_f_copies [OF assms [unfolded CopyFrame_def]]
  have "CopyFrame_f (frame_fuel r) sz (out @ s) = Inr (info, out, s)" for s using c by blast
  from CopyFrame_f_stable [OF this frame_fuel_enough]
  have "\<forall>s. CopyFrame sz (out @ s) = Inr (info, out, s)" by (simp add: CopyFrame_def)
  moreover have "out \<noteq> []" using c by (cases out) simp_all
  ultimately show ?thesis using c by blast
qed

lemma CopyFrame_simple:
  assumes "t \<in> set simple_types" and "LF \<notin> set l" and "length l \<le> 65534"
  shows "CopyFrame sz (t # l @ CR # LF # s)
    = Inr (\<lparr>f_type = t, f_null = (t = CHR ''_'')\<rparr>, t # l @ CRLF, s)"
proof -
  have "t \<noteq> LF" using assms(1) by (auto simp: simple_types_def)
  then have "readLine sz (t # l @ CR # LF # s) = Inr (t # l, s)"
    using readLine_hit [of "t # l" sz s] assms by simp
  then show ?thesis
    using assms by (simp add: CopyFrame_def frame_fuel_def CopyFrame_f.simps(2) Let_def)
qed

theorem CopyFrame_transparent_witness:
  "''+OK'' @ CRLF @ '':1'' = (''+OK'' @ CRLF) @ '':1'' \<and> ''+OK'' @ CRLF \<noteq> [] \<and>
   (\<forall>s. CopyFrame 4096 ((''+OK'' @ CRLF) @ s)
      = Inr (\<lparr>f_type = CHR ''+'', f_null = False\<rparr>, ''+OK'' @ CRLF, s))"
proof (rule CopyFrame_transparent)
  show "CopyFrame 4096 (''+OK'' @ CRLF @ '':1'')
      = Inr (\<lparr>f_type = CHR ''+'', f_null = False\<rparr>, ''+OK'' @ CRLF, '':1'')"
    using CopyFrame_simple [of "CHR ''+''" "''OK''" 4096 "'':1''"] by (simp add: simple_types_def)
qed

lemma CopyFrame_no_fuel: "CopyFrame sz r \<noteq> Inl OutOfFuel"
  unfolding CopyFrame_def
  by (rule CopyFrame_no_fuel_both [THEN conjunct1, rule_format]) (rule frame_fuel_enough)

end
