(* ===== verification/Resp_Values.thy ===== *)
theory Resp_Values
  imports Resp_Props
begin

section \<open>Parsed and rendered reply values\<close>

text \<open>
  The proxy reads the replies of its own connections with \<^verbatim>\<open>ReadValue\<close>, relays those of the
  client's with \<^verbatim>\<open>CopyFrame\<close>, and renders rewritten ones with \<^verbatim>\<open>EncodeValue\<close>.  The two readers frame
  the stream identically, and a rendered value parses back.
\<close>

subsection \<open>ReadValue and CopyFrame frame the stream identically\<close>

lemma ReadValue_f_copy_both:
  "(\<forall>r v r'. ReadValue_f fuel sz r = Inr (v, r') \<longrightarrow>
      (\<exists>out. CopyFrame_f fuel sz r = Inr (\<lparr>f_type = v_type v, f_null = v_null v\<rparr>, out, r'))) \<and>
   (\<forall>n r vs r'. ReadValues_f fuel sz n r = Inr (vs, r') \<longrightarrow>
      length vs = n \<and> (\<exists>out. CopyFrames_f fuel sz n r = Inr (out, r')))"
proof (induction fuel)
  case 0
  have "length vs = n \<and> (\<exists>out. CopyFrames_f 0 sz n r = Inr (out, r'))"
    if "ReadValues_f 0 sz n r = Inr (vs, r')" for n r vs r'
    using that by (cases n) auto
  then show ?case by (intro conjI allI impI) (simp, blast+)
next
  case (Suc fuel)
  note IH1 = Suc [THEN conjunct1, rule_format] and IH2 = Suc [THEN conjunct2, rule_format]
  have one: "\<exists>out. CopyFrame_f (Suc fuel) sz r = Inr (\<lparr>f_type = v_type v, f_null = v_null v\<rparr>, out, r')"
    if a: "ReadValue_f (Suc fuel) sz r = Inr (v, r')" for r v r'
  proof -
    from a obtain line r1 where line: "readLine sz r = Inr (line, r1)" "line \<noteq> []"
      by (auto simp: ReadValue_f.simps(2) split: sum.splits if_splits)
    note unf = ReadValue_f.simps(2) CopyFrame_f.simps(2) Let_def line
    consider (s) "hd line \<in> set simple_types" | (b) "hd line \<in> set bulk_types" | (g) "hd line \<in> set aggr_types"
      using a line frame_types_disjoint(4) [of "hd line"]
      by (auto simp: ReadValue_f.simps(2) Let_def split: if_splits)
    then show ?thesis
    proof cases
      case s
      then consider "hd line \<in> set text_types" "hd line \<noteq> CHR ''_''" | "hd line = CHR ''_''" | "hd line = CHR '':''"
        using frame_types_disjoint(4) [of "hd line"] by blast
      then show ?thesis using a s
        by cases (auto simp: unf text_types_def split: sum.splits)
    next
      case b
      then have "hd line \<notin> set text_types" "hd line \<notin> {CHR ''_'', CHR '':''}"
        by (auto simp: frame_type_defs)
      then show ?thesis using a b frame_types_disjoint(1) [OF b]
        by (auto simp: unf split: sum.splits if_splits)
    next
      case g
      then have ng: "hd line \<notin> set text_types" "hd line \<notin> {CHR ''_'', CHR '':''}"
        by (auto simp: frame_type_defs)
      note d = frame_types_disjoint(2) [OF g]
      from a ng g d obtain n where n: "parseInt (tl line) = Inr n" by (auto simp: unf split: sum.splits)
      show ?thesis
      proof (cases "n < 0")
        case True
        then show ?thesis using a ng g d n by (auto simp: unf)
      next
        case False
        then obtain es r2 where es: "ReadValues_f fuel sz (nat (aggr_count (hd line) n)) r1 = Inr (es, r2)"
          and v: "if hd line = CHR ''|'' then ReadValue_f fuel sz r2 = Inr (v, r')
            else v = Value (hd line) [] 0 es False \<and> r' = r2"
          using a ng g d n by (auto simp: unf split: sum.splits if_splits)
        from IH2 [OF es] obtain o2 where o2: "CopyFrames_f fuel sz (nat (aggr_count (hd line) n)) r1 = Inr (o2, r2)"
          by blast
        show ?thesis
        proof (cases "hd line = CHR ''|''")
          case True
          with v have "ReadValue_f fuel sz r2 = Inr (v, r')" by simp
          from IH1 [OF this] obtain o3
            where "CopyFrame_f fuel sz r2 = Inr (\<lparr>f_type = v_type v, f_null = v_null v\<rparr>, o3, r')" by blast
          then show ?thesis using g d n o2 False True by (simp add: unf)
        next
          case nbar: False
          with v show ?thesis using g d n o2 False ng by (simp add: unf)
        qed
      qed
    qed
  qed
  have many: "length vs = n \<and> (\<exists>out. CopyFrames_f (Suc fuel) sz n r = Inr (out, r'))"
    if a: "ReadValues_f (Suc fuel) sz n r = Inr (vs, r')" for n r vs r'
  proof (cases n)
    case (Suc k)
    with a obtain v r1 ws where c: "ReadValue_f fuel sz r = Inr (v, r1)"
      "ReadValues_f fuel sz k r1 = Inr (ws, r')" "vs = v # ws"
      by (auto split: sum.splits)
    from IH1 [OF c(1)] IH2 [OF c(2)] c(3) Suc show ?thesis by auto
  qed (use a in simp)
  from one many show ?case by blast
qed

lemmas ReadValue_f_copy = ReadValue_f_copy_both [THEN conjunct1, rule_format]
  and ReadValues_f_copy = ReadValue_f_copy_both [THEN conjunct2, rule_format]

text \<open>C20: The proxy's two reply readers agree on where a frame ends: when \<^verbatim>\<open>ReadValue\<close> parses a reply,
  \<^verbatim>\<open>CopyFrame\<close> on the same bytes copies a frame of the same type and nullness and leaves the same
  bytes unread.\<close>

theorem ReadValue_CopyFrame_agree:
  assumes "ReadValue sz r = Inr (v, r')"
  shows "\<exists>out. CopyFrame sz r = Inr (\<lparr>f_type = v_type v, f_null = v_null v\<rparr>, out, r') \<and> r = out @ r'"
  using ReadValue_f_copy [OF assms [unfolded ReadValue_def]] CopyFrame_f_copies
  by (fastforce simp: CopyFrame_def)

lemma ReadValue_integer:
  "readLine sz r = Inr (CHR '':'' # l, r1) \<Longrightarrow> parseInt l = Inr n \<Longrightarrow>
   ReadValue sz r = Inr (Value CHR '':'' [] n [] False, r1)"
  by (simp add: ReadValue_def frame_fuel_def ReadValue_f.simps(2) frame_type_defs)

theorem ReadValue_CopyFrame_agree_witness:
  "\<exists>out. CopyFrame 64 ('':7'' @ CRLF @ ''+OK'') = Inr (\<lparr>f_type = v_type (Value CHR '':'' [] 7 [] False),
      f_null = v_null (Value CHR '':'' [] 7 [] False)\<rparr>, out, ''+OK'') \<and> '':7'' @ CRLF @ ''+OK'' = out @ ''+OK''"
proof (rule ReadValue_CopyFrame_agree)
  have "readLine 64 ('':7'' @ CR # LF # ''+OK'') = Inr ('':7'', ''+OK'')" by (rule readLine_hit) simp_all
  moreover have "parseInt ''7'' = Inr 7"
    using parseInt_FormatUint [of 7] by (simp add: go_arith)
  ultimately show "ReadValue 64 ('':7'' @ CRLF @ ''+OK'') = Inr (Value CHR '':'' [] 7 [] False, ''+OK'')"
    using ReadValue_integer by simp
qed

lemma ReadValue_no_fuel_both:
  "(\<forall>r. 2 * length r < fuel \<longrightarrow> ReadValue_f fuel sz r \<noteq> Inl OutOfFuel) \<and>
   (\<forall>n r. 2 * length r + 1 < fuel \<longrightarrow> ReadValues_f fuel sz n r \<noteq> Inl OutOfFuel)"
proof (induction fuel)
  case (Suc fuel)
  note IH1 = Suc [THEN conjunct1, rule_format] and IH2 = Suc [THEN conjunct2, rule_format]
  have one: "ReadValue_f (Suc fuel) sz r \<noteq> Inl OutOfFuel" if l: "2 * length r < Suc fuel" for r
  proof (cases "readLine sz r")
    case (Inl e)
    with readLine_no_fuel [of sz r] show ?thesis by (simp add: ReadValue_f.simps(2))
  next
    case (Inr p)
    obtain line r1 where p: "p = (line, r1)" by (cases p)
    show ?thesis
    proof (cases "line = []")
      case False
      have l1: "2 * length r1 + 1 < fuel"
        using l readLine_length [OF Inr [unfolded p]] False by (cases line) auto
      then have m: "ReadValues_f fuel sz n r1 \<noteq> Inl OutOfFuel" for n by (rule IH2)
      have "ReadValue_f fuel sz r2 \<noteq> Inl OutOfFuel"
        if "ReadValues_f fuel sz n r1 = Inr (es, r2)" for n es r2
      proof (rule IH1)
        from ReadValues_f_copy [OF that] CopyFrames_f_copies have "length r2 \<le> length r1" by fastforce
        with l1 show "2 * length r2 < fuel" by simp
      qed
      with m Inr p False parseInt_no_fuel [of "tl line"] show ?thesis
        by (auto simp: ReadValue_f.simps(2) Let_def split: sum.splits)
    qed (simp add: ReadValue_f.simps(2) Inr p)
  qed
  have many: "ReadValues_f (Suc fuel) sz n r \<noteq> Inl OutOfFuel" if l: "2 * length r + 1 < Suc fuel" for n r
  proof (cases n)
    case (Suc k)
    have "ReadValue_f fuel sz r \<noteq> Inl OutOfFuel" using l by (intro IH1) simp
    moreover have "ReadValues_f fuel sz k r1 \<noteq> Inl OutOfFuel" if "ReadValue_f fuel sz r = Inr (v, r1)" for v r1
    proof (rule IH2)
      from ReadValue_f_copy [OF that] CopyFrame_f_copies have "3 + length r1 \<le> length r" by fastforce
      with l show "2 * length r1 + 1 < fuel" by simp
    qed
    ultimately show ?thesis using Suc by (auto split: sum.splits)
  qed simp
  from one many show ?case by blast
qed simp

lemma ReadValue_no_fuel: "ReadValue sz r \<noteq> Inl OutOfFuel"
  unfolding ReadValue_def
  by (rule ReadValue_no_fuel_both [THEN conjunct1, rule_format]) (rule frame_fuel_enough)

text \<open>C35: Both reply readers terminate: the recursion over nested frames ends within a number of
  steps linear in the bytes received, so a reader either delivers a frame or reports an error of
  the protocol or of the connection, however deeply the upstream nests its replies.\<close>

theorem reply_readers_terminate:
  "CopyFrame sz r \<noteq> Inl OutOfFuel \<and> ReadValue sz r \<noteq> Inl OutOfFuel"
  using CopyFrame_no_fuel ReadValue_no_fuel by blast

subsection \<open>Rendered values parse back\<close>

text \<open>The values \<open>EncodeValue\<close> can render without loss: exactly the ones \<open>ReadValue\<close> delivers.\<close>

fun wf_value :: "nat \<Rightarrow> resp_value \<Rightarrow> bool" where
  "wf_value sz (Value t s i es nl) \<longleftrightarrow>
     (if nl then s = [] \<and> i = 0 \<and> es = [] \<and> (t = CHR ''_'' \<or> t \<in> set bulk_types \<or> t \<in> set aggr_types)
      else if t \<in> set text_types then readLine sz (t # s @ CRLF) = Inr (t # s, []) \<and> i = 0 \<and> es = []
      else if t = CHR '':'' then s = [] \<and> min_i64 \<le> i \<and> i \<le> max_i64 \<and> es = []
      else if t \<in> set bulk_types then int (length s) \<le> maxBulk \<and> i = 0 \<and> es = []
      else t \<in> set aggr_types \<and> t \<noteq> CHR ''|'' \<and> s = [] \<and> i = 0 \<and> int (length es) \<le> maxReplyElems
        \<and> (t = CHR ''%'' \<longrightarrow> even (length es)) \<and> (\<forall>e \<in> set es. wf_value sz e))"

declare wf_value.simps [simp del]

lemma aggr_count_half: "t = CHR ''%'' \<Longrightarrow> even n \<Longrightarrow> int n \<le> maxReplyElems \<Longrightarrow>
    aggr_count t (int (n div 2)) = int n"
  "t \<noteq> CHR ''%'' \<Longrightarrow> t \<noteq> CHR ''|'' \<Longrightarrow> aggr_count t (int n) = int n"
  by (auto simp: aggr_count_def maxReplyElems_def wrap64_id go_arith elim!: evenE)

lemma readLine_minus_one: "t \<noteq> LF \<Longrightarrow> readLine sz (t # CHR ''-'' # CHR ''1'' # CR # LF # r) = Inr ([t] @ ''-1'', r)"
  using readLine_hit [of "t # ''-1''" sz r] by simp

lemma parseInt_minus_one: "parseInt ''-1'' = Inr (-1)"
  using parseInt_FormatInt [of "-1"] by (simp add: FormatInt_def go_arith)

lemma readLine_FormatInt:
  assumes "min_i64 \<le> i" "i \<le> max_i64"
  shows "readLine sz (CHR '':'' # FormatInt i @ CR # LF # r) = Inr (CHR '':'' # FormatInt i, r)"
proof -
  have "length (FormatUint (nat (- i))) \<le> 19" if "i < 0"
    using assms that by (subst FormatUint_length) (simp_all add: go_arith)
  moreover have "length (FormatUint (nat i)) \<le> 19" if "0 \<le> i"
    using assms that by (intro FormatUint_short) simp
  ultimately have "length (FormatInt i) \<le> 20 \<and> LF \<notin> set (FormatInt i)"
    using FormatUint_no_LF by (auto simp: FormatInt_def)
  then show ?thesis using readLine_hit [of "CHR '':'' # FormatInt i" sz r] by simp
qed

lemma ReadValue_EncodeValue_both:
  "wf_value sz v \<Longrightarrow> EncodeValue v = Inr b \<Longrightarrow> 2 * length b < fuel \<Longrightarrow>
     3 \<le> length b \<and> ReadValue_f fuel sz (b @ s) = Inr (v, s)"
  "\<forall>e \<in> set vs. wf_value sz e \<Longrightarrow> EncodeValues vs = Inr b \<Longrightarrow> 2 * length b + 1 < fuel \<Longrightarrow>
     ReadValues_f fuel sz (length vs) (b @ s) = Inr (vs, s)"
proof (induction v and vs arbitrary: b fuel s and b fuel s rule: EncodeValue_EncodeValues.induct)
  case (1 t st i es nl)
  obtain f where f: "fuel = Suc f" using "1.prems"(3) by (cases fuel) auto
  note wf = "1.prems"(1) [unfolded wf_value.simps [of sz t]] and enc = "1.prems"(2)
  note unf = ReadValue_f.simps(2) Let_def f
  have nt: "t \<noteq> LF" using wf by (auto simp: frame_type_defs split: if_splits)
  show ?case
  proof (cases nl)
    case True
    then show ?thesis
      using wf enc nt readLine_hit [of "''_''" sz s]
      by (auto simp: unf readLine_minus_one parseInt_minus_one frame_type_defs)
  next
    case nn: False
    consider (str) "t \<in> set text_types" | (num) "t = CHR '':''" | (bulk) "t \<in> set bulk_types"
      | (aggr) "t \<in> set aggr_types" "t \<noteq> CHR ''|''"
      using wf nn by (auto split: if_splits)
    then show ?thesis
    proof cases
      case str
      then have "readLine sz (t # st @ CRLF) = Inr (t # st, [])" using wf nn by simp
      from readLine_rest [OF this] str wf nn enc show ?thesis by (auto simp: unf)
    next
      case num
      then show ?thesis using wf nn enc
        by (auto simp: unf readLine_FormatInt parseInt_FormatInt text_types_def)
    next
      case bulk
      then have t: "t \<notin> set text_types" "t \<noteq> CHR '':''" "t \<noteq> CHR ''_''"
        by (auto simp: frame_type_defs)
      then have n: "int (length st) \<le> maxBulk" and z: "i = 0" "es = []" using wf nn bulk by simp_all
      have m: "int (length st) \<le> max_i64" using n by (simp add: go_arith maxBulk_def)
      have b: "b = t # FormatUint (length st) @ CR # LF # st @ CR # LF # []"
        using enc nn t bulk by simp
      show ?thesis using nn t bulk n z readLine_number [OF m nt] parseInt_FormatUint [OF m]
        by (simp add: unf b)
    next
      case aggr
      have t: "t \<notin> set text_types" "t \<noteq> CHR '':''" "t \<noteq> CHR ''_''" "t \<notin> set bulk_types"
        using aggr by (auto simp: frame_type_defs)
      let ?k = "if t = CHR ''%'' then length es div 2 else length es"
      obtain c where c: "EncodeValues es = Inr c" and b: "b = t # FormatUint ?k @ CR # LF # c"
        using enc nn t aggr by (auto split: sum.splits)
      have z: "st = []" "i = 0" and n: "int (length es) \<le> maxReplyElems"
        "t = CHR ''%'' \<Longrightarrow> even (length es)" "\<forall>e \<in> set es. wf_value sz e" using wf nn t by simp_all
      have "?k \<le> length es" by simp
      then have k: "int ?k \<le> max_i64" using n(1) by (simp only: go_arith maxReplyElems_def)
      have cnt: "aggr_count t (int ?k) = int (length es)"
        using n aggr aggr_count_half [of t "length es"] by (cases "t = CHR ''%''") simp_all
      have "2 * length c + 1 < f" using "1.prems"(3) b f by simp
      with "1.IH" [OF nn t(1,2,4)] aggr n(3) c have es: "ReadValues_f f sz (length es) (c @ s) = Inr (es, s)"
        by simp
      have len: "1 \<le> length (FormatUint ?k)" using FormatUint_nonempty [of ?k] by (cases "FormatUint ?k") auto
      show ?thesis
        using nn t aggr z n(1) es readLine_number [OF k nt] parseInt_FormatUint [OF k] cnt len
        by (simp add: unf b)
    qed
  qed
next
  case 2
  then show ?case by simp
next
  case (3 v vs)
  from "3.prems"(2) obtain b1 b2 where e: "EncodeValue v = Inr b1" "EncodeValues vs = Inr b2"
    and b: "b = b1 @ b2" by (auto split: sum.splits)
  obtain f where f: "fuel = Suc f" using "3.prems"(3) by (cases fuel) auto
  have v: "3 \<le> length b1 \<and> ReadValue_f f sz (b1 @ b2 @ s) = Inr (v, b2 @ s)"
    using "3.prems" e b f by (intro "3.IH"(1)) simp_all
  have "ReadValues_f f sz (length vs) (b2 @ s) = Inr (vs, s)"
    using "3.prems" e b f v by (intro "3.IH"(2)) simp_all
  with v f b show ?case by simp
qed

lemma parseInt_bounds: "parseInt b = Inr n \<Longrightarrow> min_i64 \<le> n \<and> n \<le> max_i64"
  using ParseInt_range [of b] by (auto simp: parseInt_def split: prod.splits option.splits)

lemma wrap64_even: "even x \<Longrightarrow> even (wrap64 x)"
  by (auto simp: wrap64_def dvd_mod_iff)

lemma ReadValue_wf_both:
  "(\<forall>r v r'. ReadValue_f fuel sz r = Inr (v, r') \<longrightarrow> wf_value sz v) \<and>
   (\<forall>n r vs r'. ReadValues_f fuel sz n r = Inr (vs, r') \<longrightarrow> (\<forall>e \<in> set vs. wf_value sz e))"
proof (induction fuel)
  case 0
  have "\<forall>e \<in> set vs. wf_value sz e" if "ReadValues_f 0 sz n r = Inr (vs, r')" for n r vs r'
    using that by (cases n) auto
  then show ?case by (intro conjI allI impI) (simp, blast)
next
  case (Suc fuel)
  note IH1 = Suc [THEN conjunct1, rule_format] and IH2 = Suc [THEN conjunct2, rule_format]
  have one: "wf_value sz v" if a: "ReadValue_f (Suc fuel) sz r = Inr (v, r')" for r v r'
  proof -
    from a obtain line r1 where line: "readLine sz r = Inr (line, r1)" "line \<noteq> []"
      by (auto simp: ReadValue_f.simps(2) split: sum.splits if_splits)
    note unf = ReadValue_f.simps(2) Let_def line wf_value.simps
    consider (s) "hd line \<in> set simple_types" | (b) "hd line \<in> set bulk_types" | (g) "hd line \<in> set aggr_types"
      using a line frame_types_disjoint(4) [of "hd line"]
      by (auto simp: ReadValue_f.simps(2) Let_def split: if_splits)
    then show ?thesis
    proof cases
      case s
      obtain t l where tl: "line = t # l" using line(2) by (cases line) auto
      have again: "readLine sz (t # l @ CRLF) = Inr (t # l, [])"
        using readLine_rest [OF line(1), of "[]"] tl by simp
      consider "t \<in> set text_types" "t \<noteq> CHR ''_''" "t \<noteq> CHR '':''" | "t = CHR ''_''" | "t = CHR '':''"
        using s tl frame_types_disjoint(4) [of t] by auto
      then show ?thesis
      proof cases
        case 1
        then show ?thesis using a line tl again by (auto simp: ReadValue_f.simps(2) wf_value.simps)
      next
        case 2
        then show ?thesis using a line tl
          by (auto simp: ReadValue_f.simps(2) wf_value.simps text_types_def)
      next
        case 3
        then show ?thesis using a line tl parseInt_bounds
          by (auto simp: ReadValue_f.simps(2) wf_value.simps text_types_def split: sum.splits)
      qed
    next
      case b
      then have "hd line \<notin> set text_types" "hd line \<notin> {CHR ''_'', CHR '':''}"
        by (auto simp: frame_type_defs)
      then show ?thesis using a b by (auto simp: unf split: sum.splits if_splits)
    next
      case g
      then have ng: "hd line \<notin> set text_types" "hd line \<notin> {CHR ''_'', CHR '':''}"
        by (auto simp: frame_type_defs)
      note d = frame_types_disjoint(2) [OF g]
      from a ng g d obtain n where n: "parseInt (tl line) = Inr n" by (auto simp: unf split: sum.splits)
      show ?thesis
      proof (cases "n < 0")
        case True
        then show ?thesis using a ng g d n by (auto simp: unf)
      next
        case False
        then obtain es r2 where es: "ReadValues_f fuel sz (nat (aggr_count (hd line) n)) r1 = Inr (es, r2)"
          and c: "0 \<le> aggr_count (hd line) n" "aggr_count (hd line) n \<le> maxReplyElems"
          and v: "if hd line = CHR ''|'' then ReadValue_f fuel sz r2 = Inr (v, r')
            else v = Value (hd line) [] 0 es False \<and> r' = r2"
          using a ng g d n by (auto simp: unf split: sum.splits if_splits)
        have len: "length es = nat (aggr_count (hd line) n)" using ReadValues_f_copy [OF es] by simp
        have ev: "even (nat (aggr_count t n))" if "t = CHR ''%''" for t
          using that c wrap64_even [of "2 * n"] by (cases "0 \<le> wrap64 (2 * n)") (simp_all add: aggr_count_def even_nat_iff)
        show ?thesis
        proof (cases "hd line = CHR ''|''")
          case True
          with v IH1 show ?thesis by auto
        next
          case nbar: False
          with v g ng d len c ev [of "hd line"] IH2 [OF es] show ?thesis by (simp add: unf)
        qed
      qed
    qed
  qed
  have many: "\<forall>e \<in> set vs. wf_value sz e" if a: "ReadValues_f (Suc fuel) sz n r = Inr (vs, r')" for n r vs r'
  proof (cases n)
    case (Suc k)
    with a obtain v r1 ws where c: "ReadValue_f fuel sz r = Inr (v, r1)"
      "ReadValues_f fuel sz k r1 = Inr (ws, r')" "vs = v # ws"
      by (auto split: sum.splits)
    from IH1 [OF c(1)] IH2 [OF c(2)] c(3) show ?thesis by auto
  qed (use a in simp)
  from one many show ?case by blast
qed

lemma EncodeValue_wf: "wf_value sz v \<Longrightarrow> \<exists>b. EncodeValue v = Inr b"
  "\<forall>e \<in> set vs. wf_value sz e \<Longrightarrow> \<exists>b. EncodeValues vs = Inr b"
proof (induction v and vs rule: EncodeValue_EncodeValues.induct)
  case (1 t s i es nl)
  then show ?case by (auto simp: wf_value.simps split: if_splits sum.splits)
qed fastforce+

text \<open>C22: Every reply the proxy parses can be re-rendered without loss: \<^verbatim>\<open>EncodeValue\<close> succeeds on any
  value \<^verbatim>\<open>ReadValue\<close> delivered, and the rendering parses back to the same value at any place in a
  stream.  A reply that is rewritten value by value therefore keeps its framing.\<close>

theorem ReadValue_EncodeValue:
  assumes "ReadValue sz r = Inr (v, r')"
  shows "\<exists>b. EncodeValue v = Inr b \<and> (\<forall>s. ReadValue sz (b @ s) = Inr (v, s))"
proof -
  have wf: "wf_value sz v"
    using ReadValue_wf_both [THEN conjunct1, rule_format] assms by (simp add: ReadValue_def)
  from EncodeValue_wf(1) [OF wf] obtain b where b: "EncodeValue v = Inr b" by blast
  have "ReadValue sz (b @ s) = Inr (v, s)" for s
    unfolding ReadValue_def
    by (rule ReadValue_EncodeValue_both(1) [OF wf b, THEN conjunct2]) (simp add: frame_fuel_def)
  with b show ?thesis by blast
qed

theorem ReadValue_EncodeValue_witness:
  "\<exists>b. EncodeValue (Value CHR '':'' [] 7 [] False) = Inr b \<and>
       (\<forall>s. ReadValue 64 (b @ s) = Inr (Value CHR '':'' [] 7 [] False, s))"
proof (rule ReadValue_EncodeValue)
  have "readLine 64 ('':7'' @ CR # LF # []) = Inr ('':7'', [])" by (rule readLine_hit) simp_all
  moreover have "parseInt ''7'' = Inr 7"
    using parseInt_FormatUint [of 7] by (simp add: go_arith)
  ultimately show "ReadValue 64 ('':7'' @ CRLF) = Inr (Value CHR '':'' [] 7 [] False, [])"
    using ReadValue_integer by simp
qed

text \<open>C40: The reply parser does not survive every upstream: a map header announcing \<open>2 ^ 62\<close> pairs
  doubles to a negative \<^verbatim>\<open>int64\<close>, passes the element limit and reaches \<^verbatim>\<open>make\<close> with a negative
  capacity, which panics.\<close>

theorem ReadValue_map_header_panics:
  "ReadValue sz (''%'' @ FormatUint (2 ^ 62) @ CRLF @ rest) = Inl PanicMakeslice"
proof -
  have m: "int (2 ^ 62) \<le> max_i64" by (simp add: go_arith)
  have "aggr_count CHR ''%'' (2 ^ 62) < 0" by (simp add: aggr_count_def go_arith)
  then show ?thesis
    using readLine_number [OF m, of "CHR ''%''" sz rest] parseInt_FormatUint [OF m]
    by (simp add: ReadValue_def frame_fuel_def ReadValue_f.simps(2) frame_type_defs maxReplyElems_def
        del: FormatUint_numeral)
qed

end
