(* ===== verification/Sha1.thy ===== *)
theory Sha1
  imports Go_Base "HOL-Library.Word"
begin

section \<open>SHA-1 in hexadecimal (crypto/sha1, encoding/hex)\<close>

text \<open>
  The identifier Redis gives a script is the SHA-1 of its body in lower-case hexadecimal; the proxy
  recomputes it to recognise the pinned scripts.  The digest is defined here by its standard
  algorithm on 32-bit words, so \<open>ScriptSHA\<close> computes and nothing about it is assumed.
\<close>

unbundle bit_operations_syntax

type_synonym word32 = "32 word"

definition sha1_pad :: "bytes \<Rightarrow> bytes" where
  "sha1_pad m = m @ CHR 0x80 # replicate (nat ((55 - int (length m)) mod 64)) (CHR 0x00)
     @ map (\<lambda>i. char_of ((8 * length m) div 256 ^ (7 - i))) [0 ..< 8]"

definition be_word :: "bytes \<Rightarrow> word32" where
  "be_word s = of_nat (be_value s)"

definition block_words :: "bytes \<Rightarrow> word32 list" where
  "block_words b = map (\<lambda>i. be_word (take 4 (drop (4 * i) b))) [0 ..< 16]"

text \<open>The schedule is kept in reverse: the newest word first.\<close>

primrec schedule :: "nat \<Rightarrow> word32 list \<Rightarrow> word32 list" where
  "schedule 0 ws = ws"
| "schedule (Suc n) ws =
     schedule n (word_rotl 1 ((ws ! 2) XOR (ws ! 7) XOR (ws ! 13) XOR (ws ! 15)) # ws)"

definition round_f :: "nat \<Rightarrow> word32 \<Rightarrow> word32 \<Rightarrow> word32 \<Rightarrow> word32" where
  "round_f t b c d =
     (if t < 20 then (b AND c) OR (NOT b AND d)
      else if t < 40 then b XOR c XOR d
      else if t < 60 then (b AND c) OR (b AND d) OR (c AND d)
      else b XOR c XOR d)"

definition round_k :: "nat \<Rightarrow> word32" where
  "round_k t = (if t < 20 then 0x5A827999 else if t < 40 then 0x6ED9EBA1
                else if t < 60 then 0x8F1BBCDC else 0xCA62C1D6)"

type_synonym digest = "word32 \<times> word32 \<times> word32 \<times> word32 \<times> word32"

fun rounds :: "nat \<Rightarrow> word32 list \<Rightarrow> digest \<Rightarrow> digest" where
  "rounds t [] h = h"
| "rounds t (w # ws) (a, b, c, d, e) =
     rounds (Suc t) ws (word_rotl 5 a + round_f t b c d + e + round_k t + w, a, word_rotl 30 b, c, d)"

definition sha1_block :: "digest \<Rightarrow> bytes \<Rightarrow> digest" where
  "sha1_block h b =
     (case (h, rounds 0 (rev (schedule 64 (rev (block_words b)))) h) of
        ((a, b, c, d, e), (a', b', c', d', e')) \<Rightarrow> (a + a', b + b', c + c', d + d', e + e'))"

primrec sha1_blocks :: "nat \<Rightarrow> digest \<Rightarrow> bytes \<Rightarrow> digest" where
  "sha1_blocks 0 h m = h"
| "sha1_blocks (Suc n) h m = sha1_blocks n (sha1_block h (take 64 m)) (drop 64 m)"

definition sha1_init :: digest where
  "sha1_init = (0x67452301, 0xEFCDAB89, 0x98BADCFE, 0x10325476, 0xC3D2E1F0)"

definition sha1_sum :: "bytes \<Rightarrow> digest" where
  "sha1_sum m = sha1_blocks (length (sha1_pad m) div 64) sha1_init (sha1_pad m)"

definition hex_digit :: "nat \<Rightarrow> char" where
  "hex_digit d = (if d < 10 then char_of (48 + d) else char_of (87 + d))"

definition word_hex :: "word32 \<Rightarrow> string" where
  "word_hex w = map (\<lambda>i. hex_digit (unat w div 16 ^ (7 - i) mod 16)) [0 ..< 8]"

definition ScriptSHA :: "bytes \<Rightarrow> string" where
  "ScriptSHA body = (case sha1_sum body of (a, b, c, d, e) \<Rightarrow> concat (map word_hex [a, b, c, d, e]))"

lemma ScriptSHA_length: "length (ScriptSHA body) = 40"
  by (simp add: ScriptSHA_def word_hex_def split: prod.splits)

end
