(* ===== verification/Classify.thy ===== *)
theory Classify
  imports Sha1
begin

section \<open>Command and key classification (classify.go)\<close>

text \<open>
  Every command becomes a \<open>command\<close>: its upper-cased name, its class, and the keys it names with
  their JuiceFS or JuiceMount shape.  Shapes, groups and classes are datatypes where the source has
  string constants; a global key's shape is its own name (\<open>ShapeGlobal\<close>).  The tables keep the
  source's entries in its order.
\<close>

datatype cmd_class =
  ClassRead | ClassWrite | ClassTxn | ClassConn | ClassPubSub | ClassPublish | ClassScript
| ClassAdmin | ClassAdminW | ClassForbidden | ClassLocal | ClassUnknown

record key_spec =
  ks_first :: nat
  ks_last :: int
  ks_step :: nat

definition k1 :: key_spec where "k1 = \<lparr>ks_first = 1, ks_last = 1, ks_step = 1\<rparr>"
definition kAll :: key_spec where "kAll = \<lparr>ks_first = 1, ks_last = -1, ks_step = 1\<rparr>"
definition kPair :: key_spec where "kPair = \<lparr>ks_first = 1, ks_last = -1, ks_step = 2\<rparr>"
definition k12 :: key_spec where "k12 = \<lparr>ks_first = 1, ks_last = 2, ks_step = 1\<rparr>"
definition kBlock :: key_spec where "kBlock = \<lparr>ks_first = 1, ks_last = -2, ks_step = 1\<rparr>"
definition kNone :: key_spec where "kNone = \<lparr>ks_first = 0, ks_last = 0, ks_step = 0\<rparr>"

definition commands :: "(string \<times> cmd_class \<times> key_spec) list" where
  "commands = [
    (''GET'', ClassRead, k1), (''MGET'', ClassRead, kAll), (''EXISTS'', ClassRead, kAll),
    (''TYPE'', ClassRead, k1), (''TTL'', ClassRead, k1), (''PTTL'', ClassRead, k1),
    (''EXPIRETIME'', ClassRead, k1), (''PEXPIRETIME'', ClassRead, k1), (''STRLEN'', ClassRead, k1),
    (''GETRANGE'', ClassRead, k1), (''SUBSTR'', ClassRead, k1), (''HGET'', ClassRead, k1),
    (''HMGET'', ClassRead, k1), (''HGETALL'', ClassRead, k1), (''HEXISTS'', ClassRead, k1),
    (''HKEYS'', ClassRead, k1), (''HVALS'', ClassRead, k1), (''HLEN'', ClassRead, k1),
    (''HSCAN'', ClassRead, k1), (''HSTRLEN'', ClassRead, k1), (''HRANDFIELD'', ClassRead, k1),
    (''HTTL'', ClassRead, k1), (''HPTTL'', ClassRead, k1), (''LRANGE'', ClassRead, k1),
    (''LLEN'', ClassRead, k1), (''LINDEX'', ClassRead, k1), (''LPOS'', ClassRead, k1),
    (''SMEMBERS'', ClassRead, k1), (''SISMEMBER'', ClassRead, k1), (''SMISMEMBER'', ClassRead, k1),
    (''SCARD'', ClassRead, k1), (''SSCAN'', ClassRead, k1), (''SRANDMEMBER'', ClassRead, k1),
    (''SINTER'', ClassRead, kAll), (''SUNION'', ClassRead, kAll), (''SDIFF'', ClassRead, kAll),
    (''ZRANGE'', ClassRead, k1), (''ZRANGEBYSCORE'', ClassRead, k1),
    (''ZREVRANGE'', ClassRead, k1), (''ZREVRANGEBYSCORE'', ClassRead, k1),
    (''ZSCORE'', ClassRead, k1), (''ZMSCORE'', ClassRead, k1), (''ZCARD'', ClassRead, k1),
    (''ZCOUNT'', ClassRead, k1), (''ZSCAN'', ClassRead, k1), (''ZRANK'', ClassRead, k1),
    (''ZREVRANK'', ClassRead, k1), (''ZRANGEBYLEX'', ClassRead, k1),
    (''ZLEXCOUNT'', ClassRead, k1), (''SCAN'', ClassRead, kNone), (''KEYS'', ClassRead, kNone),
    (''RANDOMKEY'', ClassRead, kNone), (''DUMP'', ClassRead, k1), (''OBJECT'', ClassRead, kNone),
    (''MEMORY'', ClassRead, kNone), (''DBSIZE'', ClassAdmin, kNone),
    (''LASTSAVE'', ClassAdmin, kNone), (''ROLE'', ClassAdmin, kNone),
    (''WAIT'', ClassAdmin, kNone), (''WAITAOF'', ClassAdmin, kNone),
    (''LOLWUT'', ClassAdmin, kNone), (''SET'', ClassWrite, k1), (''SETNX'', ClassWrite, k1),
    (''SETEX'', ClassWrite, k1), (''PSETEX'', ClassWrite, k1), (''MSET'', ClassWrite, kPair),
    (''MSETNX'', ClassWrite, kPair), (''GETSET'', ClassWrite, k1), (''GETDEL'', ClassWrite, k1),
    (''GETEX'', ClassWrite, k1), (''APPEND'', ClassWrite, k1), (''SETRANGE'', ClassWrite, k1),
    (''INCR'', ClassWrite, k1), (''INCRBY'', ClassWrite, k1), (''DECR'', ClassWrite, k1),
    (''DECRBY'', ClassWrite, k1), (''INCRBYFLOAT'', ClassWrite, k1), (''DEL'', ClassWrite, kAll),
    (''UNLINK'', ClassWrite, kAll), (''EXPIRE'', ClassWrite, k1), (''PEXPIRE'', ClassWrite, k1),
    (''EXPIREAT'', ClassWrite, k1), (''PEXPIREAT'', ClassWrite, k1), (''PERSIST'', ClassWrite, k1),
    (''RENAME'', ClassWrite, k12), (''RENAMENX'', ClassWrite, k12), (''COPY'', ClassWrite, k12),
    (''HSET'', ClassWrite, k1), (''HSETNX'', ClassWrite, k1), (''HMSET'', ClassWrite, k1),
    (''HDEL'', ClassWrite, k1), (''HINCRBY'', ClassWrite, k1), (''HINCRBYFLOAT'', ClassWrite, k1),
    (''HEXPIRE'', ClassWrite, k1), (''HPEXPIRE'', ClassWrite, k1), (''HPERSIST'', ClassWrite, k1),
    (''RPUSH'', ClassWrite, k1), (''LPUSH'', ClassWrite, k1), (''RPUSHX'', ClassWrite, k1),
    (''LPUSHX'', ClassWrite, k1), (''LTRIM'', ClassWrite, k1), (''LPOP'', ClassWrite, k1),
    (''RPOP'', ClassWrite, k1), (''LSET'', ClassWrite, k1), (''LREM'', ClassWrite, k1),
    (''LINSERT'', ClassWrite, k1), (''LMOVE'', ClassWrite, k12), (''RPOPLPUSH'', ClassWrite, k12),
    (''BLMOVE'', ClassWrite, k12), (''BRPOPLPUSH'', ClassWrite, k12),
    (''BLPOP'', ClassWrite, kBlock), (''BRPOP'', ClassWrite, kBlock), (''SADD'', ClassWrite, k1),
    (''SREM'', ClassWrite, k1), (''SPOP'', ClassWrite, k1), (''SMOVE'', ClassWrite, k12),
    (''ZADD'', ClassWrite, k1), (''ZREM'', ClassWrite, k1), (''ZINCRBY'', ClassWrite, k1),
    (''ZREMRANGEBYSCORE'', ClassWrite, k1), (''ZREMRANGEBYRANK'', ClassWrite, k1),
    (''ZREMRANGEBYLEX'', ClassWrite, k1), (''ZPOPMIN'', ClassWrite, k1),
    (''ZPOPMAX'', ClassWrite, k1), (''BZPOPMIN'', ClassWrite, kBlock),
    (''BZPOPMAX'', ClassWrite, kBlock), (''FLUSHDB'', ClassAdminW, kNone),
    (''FLUSHALL'', ClassAdminW, kNone), (''RESTORE'', ClassAdminW, kNone),
    (''MIGRATE'', ClassAdminW, kNone), (''MOVE'', ClassAdminW, kNone),
    (''SWAPDB'', ClassAdminW, kNone), (''DEBUG'', ClassAdminW, kNone),
    (''SHUTDOWN'', ClassAdminW, kNone), (''ACL'', ClassAdminW, kNone),
    (''SAVE'', ClassAdminW, kNone), (''BGSAVE'', ClassAdminW, kNone),
    (''BGREWRITEAOF'', ClassAdminW, kNone), (''REPLICAOF'', ClassAdminW, kNone),
    (''SLAVEOF'', ClassAdminW, kNone), (''MODULE'', ClassAdminW, kNone),
    (''FUNCTION'', ClassAdminW, kNone), (''FCALL'', ClassAdminW, kNone),
    (''FCALL_RO'', ClassAdminW, kNone), (''SORT'', ClassAdminW, kNone),
    (''SORT_RO'', ClassRead, k1), (''SLOWLOG'', ClassAdminW, kNone),
    (''LATENCY'', ClassAdminW, kNone), (''FAILOVER'', ClassAdminW, kNone),
    (''SUNIONSTORE'', ClassAdminW, kNone), (''SINTERSTORE'', ClassAdminW, kNone),
    (''SDIFFSTORE'', ClassAdminW, kNone), (''ZUNIONSTORE'', ClassAdminW, kNone),
    (''ZINTERSTORE'', ClassAdminW, kNone), (''ZDIFFSTORE'', ClassAdminW, kNone),
    (''ZRANGESTORE'', ClassAdminW, kNone), (''GEOADD'', ClassAdminW, kNone),
    (''PFADD'', ClassAdminW, kNone), (''XADD'', ClassAdminW, kNone),
    (''BITOP'', ClassAdminW, kNone), (''SETBIT'', ClassAdminW, kNone),
    (''MULTI'', ClassTxn, kNone), (''EXEC'', ClassTxn, kNone), (''DISCARD'', ClassTxn, kNone),
    (''WATCH'', ClassTxn, kAll), (''UNWATCH'', ClassTxn, kNone), (''HELLO'', ClassConn, kNone),
    (''AUTH'', ClassConn, kNone), (''SELECT'', ClassConn, kNone), (''CLIENT'', ClassConn, kNone),
    (''PING'', ClassConn, kNone), (''ECHO'', ClassConn, kNone), (''QUIT'', ClassConn, kNone),
    (''COMMAND'', ClassConn, kNone), (''READONLY'', ClassConn, kNone),
    (''READWRITE'', ClassConn, kNone), (''TIME'', ClassConn, kNone),
    (''RESET'', ClassForbidden, kNone), (''MONITOR'', ClassForbidden, kNone),
    (''SYNC'', ClassForbidden, kNone), (''PSYNC'', ClassForbidden, kNone),
    (''REPLCONF'', ClassForbidden, kNone), (''SUBSCRIBE'', ClassPubSub, kNone),
    (''PSUBSCRIBE'', ClassPubSub, kNone), (''UNSUBSCRIBE'', ClassPubSub, kNone),
    (''PUNSUBSCRIBE'', ClassPubSub, kNone), (''SSUBSCRIBE'', ClassPubSub, kNone),
    (''SUNSUBSCRIBE'', ClassPubSub, kNone), (''PUBSUB'', ClassRead, kNone),
    (''PUBLISH'', ClassPublish, kNone), (''SPUBLISH'', ClassPublish, kNone),
    (''EVALSHA'', ClassScript, kNone), (''EVAL'', ClassScript, kNone),
    (''EVALSHA_RO'', ClassScript, kNone), (''EVAL_RO'', ClassScript, kNone),
    (''INFO'', ClassAdmin, kNone), (''CLUSTER'', ClassAdmin, kNone)]"

subsection \<open>Keys\<close>

datatype shape =
  ShapeInode | ShapeDentry | ShapeParent | ShapeXattr | ShapeSymlink | ShapeChunk | ShapeFlock
| ShapePlock | ShapeLocked | ShapeSession | ShapeUnknown | ShapePresence | ShapeLinkBench
| ShapeFarm | ShapeJMFarm | ShapeJMCtl | ShapeLease | ShapeChannel | ShapeScriptArg
| ShapeGlobal string

datatype key_group =
  GInode | GDentry | GCounter | GDirstat | GQuota | GGc | GBgmark | GSession | GAdmin | GPresence
| GLinkbench | GFarm | GLease | GChannel | GUnknown | GScriptArg

definition TrashInode :: nat where "TrashInode = 0x7FFFFFFF10000000"

definition globalKeys :: "(string \<times> key_group) list" where
  "globalKeys = [
    (''setting'', GAdmin), (''acl'', GAdmin), (''nextinode'', GCounter), (''nextchunk'', GCounter),
    (''nextsession'', GCounter), (''nextTrash'', GCounter), (''usedSpace'', GCounter),
    (''totalInodes'', GCounter), (''lastCleanupSessions'', GCounter),
    (''lastCleanupFiles'', GBgmark), (''lastCleanupTrash'', GBgmark),
    (''nextCleanupSlices'', GBgmark), (''dirDataLength'', GDirstat), (''dirUsedSpace'', GDirstat),
    (''dirUsedInodes'', GDirstat), (''dirQuotaUsedSpace'', GDirstat),
    (''dirQuotaUsedInodes'', GDirstat), (''dirQuota'', GQuota), (''delfiles'', GGc),
    (''sliceRef'', GGc), (''delSlices'', GGc), (''detachedNodes'', GGc),
    (''allSessions'', GSession), (''sessionInfos'', GSession), (''sessions'', GSession)]"

record key_ref =
  k_shape :: shape
  k_group :: key_group
  k_ino :: nat
  k_hasIno :: bool
  k_trash :: bool
  k_sid :: nat
  k_suffix :: string

definition plain_ref :: "shape \<Rightarrow> key_group \<Rightarrow> key_ref" where
  "plain_ref sh g = \<lparr>k_shape = sh, k_group = g, k_ino = 0, k_hasIno = False, k_trash = False,
     k_sid = 0, k_suffix = []\<rparr>"

text \<open>\<^verbatim>\<open>digits\<close> and \<^verbatim>\<open>RedisInt\<close>: a value where the source returns \<^verbatim>\<open>ok = true\<close>.\<close>

definition digits :: "string \<Rightarrow> nat option" where
  "digits b =
     (if b = [] \<or> 20 < length b \<or> (1 < length b \<and> hd b = CHR ''0'') then None
      else if \<not> list_all is_digit b then None
      else case ParseUint b of (n, None) \<Rightarrow> Some n | (n, Some e) \<Rightarrow> None)"

definition RedisInt :: "bytes \<Rightarrow> int option" where
  "RedisInt b =
     (if b = [] \<or> 20 < length b then None
      else if b = ''0'' then Some 0
      else
        let neg = (hd b = CHR ''-''); d = (if neg then tl b else b) in
        if d = [] \<or> (of_char (hd d) :: nat) < 49 \<or> 57 < (of_char (hd d) :: nat) then None
        else if \<not> list_all is_digit d then None
        else case ParseUint d of
          (v, Some e) \<Rightarrow> None
        | (v, None) \<Rightarrow>
            if neg then (if 2 ^ 63 < v then None else Some (- int v))
            else if 2 ^ 63 - 1 < v then None
            else Some (int v))"

definition ino_ref :: "shape \<Rightarrow> key_group \<Rightarrow> string \<Rightarrow> key_ref option" where
  "ino_ref sh g rest =
     map_option (\<lambda>n. (plain_ref sh g)\<lparr>k_ino := n, k_hasIno := True, k_trash := (TrashInode \<le> n)\<rparr>)
       (digits rest)"

definition suffix_ref :: "shape \<Rightarrow> key_group \<Rightarrow> string \<Rightarrow> string \<Rightarrow> key_ref" where
  "suffix_ref sh g p k = (plain_ref sh g)\<lparr>k_suffix := drop (length p) k\<rparr>"

definition namespace_ref :: "string \<Rightarrow> key_ref option" where
  "namespace_ref k =
     (if HasPrefix k ''jum:presence:'' \<and> length ''jum:presence:'' < length k
      then Some (suffix_ref ShapePresence GPresence ''jum:presence:'' k)
      else if HasPrefix k ''jm:link-bench:'' \<and> length ''jm:link-bench:'' < length k
      then Some (suffix_ref ShapeLinkBench GLinkbench ''jm:link-bench:'' k)
      else if HasPrefix k ''juicefarm:'' then Some (suffix_ref ShapeFarm GFarm ''juicefarm:'' k)
      else if HasPrefix k ''jmfarm:'' then Some (suffix_ref ShapeJMFarm GFarm ''jmfarm:'' k)
      else if HasPrefix k ''jmctl:'' then Some (suffix_ref ShapeJMCtl GFarm ''jmctl:'' k)
      else if HasPrefix k ''jmlease:'' then Some (suffix_ref ShapeLease GLease ''jmlease:'' k)
      else if k = ''juicemount:metadata'' then Some (plain_ref ShapeChannel GChannel)
      else None)"

definition lock_session_ref :: "string \<Rightarrow> key_ref option" where
  "lock_session_ref k =
     (if HasPrefix k ''lockf'' then ino_ref ShapeFlock GInode (drop 5 k)
      else if HasPrefix k ''lockp'' then ino_ref ShapePlock GInode (drop 5 k)
      else if HasPrefix k ''locked'' then
        map_option (\<lambda>n. (plain_ref ShapeLocked GSession)\<lparr>k_sid := n\<rparr>) (digits (drop 6 k))
      else if HasPrefix k ''session'' then
        map_option (\<lambda>n. (plain_ref ShapeSession GSession)\<lparr>k_sid := n\<rparr>) (digits (drop 7 k))
      else None)"

definition letter_ref :: "string \<Rightarrow> key_ref option" where
  "letter_ref k =
     (if length k < 2 then None
      else
        let rest = tl k; c = hd k in
        if c = CHR ''i'' then ino_ref ShapeInode GInode rest
        else if c = CHR ''d'' then ino_ref ShapeDentry GDentry rest
        else if c = CHR ''p'' then ino_ref ShapeParent GInode rest
        else if c = CHR ''x'' then ino_ref ShapeXattr GInode rest
        else if c = CHR ''s'' then ino_ref ShapeSymlink GInode rest
        else if c = CHR ''c'' then
          (case IndexByte rest CHR ''_'' of
             Some u \<Rightarrow> if 0 < u \<and> digits (drop (u + 1) rest) \<noteq> None
                       then ino_ref ShapeChunk GInode (take u rest) else None
           | None \<Rightarrow> None)
        else None)"

definition ParseKey :: "string \<Rightarrow> key_ref" where
  "ParseKey k =
     (case map_of globalKeys k of
        Some g \<Rightarrow> plain_ref (ShapeGlobal k) g
      | None \<Rightarrow>
          (case namespace_ref k of
             Some r \<Rightarrow> r
           | None \<Rightarrow>
               (case lock_session_ref k of
                  Some r \<Rightarrow> r
                | None \<Rightarrow>
                    (case letter_ref k of
                       Some r \<Rightarrow> r
                     | None \<Rightarrow> plain_ref ShapeUnknown GUnknown))))"

subsection \<open>Commands\<close>

record command =
  c_name :: string
  c_class :: cmd_class
  c_keys :: "key_ref list"
  c_raw :: "string list"
  c_script :: string

definition AllowedScripts :: "(string \<times> string) list" where
  "AllowedScripts = [
    (''8526c64984678fc27f67f44755c8ba7dcdf7ea60'',
     ''juicefs scriptLookup (third_party/juicefs/pkg/meta/lua_scripts.go)''),
    (''0547fa97c6a6bebfe522a4137b43f2d50eb9216a'',
     ''juicefs scriptResolve (third_party/juicefs/pkg/meta/lua_scripts.go)''),
    (''92d41a73b32a68ac03c1f7ce2910ed9a4ea2813c'',
     ''metadata luaScanBatch (metadata/redis.go)''),
    (''1767fecff3ce885cc018ce3379c55a434f577aa1'',
     ''metadata parentReadProofLua (metadata/parent_read_proof.lua)''),
    (''79760dcca4c279536b7667347e86d589d2903917'',
     ''cache boundMappingLua (cache/volume.go)''),
    (''70871faf1a8e776fa9dd0d48552178f9aa5c5384'',
     ''cache boundMappingAttrLua (cache/volume.go)''),
    (''116ebec64bd055ba335345057adcf93bdfe298b9'',
     ''cache boundedPrepareMappingAttrLua (cache/volume.go)''),
    (''251df9c21a32cbd8e343158f9a65c863357fac06'',
     ''cache ReadVolumeBinding inline script (cache/volume.go)'')]"

definition allowed_script :: "string \<Rightarrow> bool" where
  "allowed_script sha \<longleftrightarrow> (case map_of AllowedScripts sha of Some d \<Rightarrow> d \<noteq> [] | None \<Rightarrow> False)"

definition classifySub :: "string \<Rightarrow> bytes list \<Rightarrow> cmd_class option" where
  "classifySub name args =
     (if name \<notin> {''CONFIG'', ''SCRIPT'', ''CLIENT''} then None
      else if length args < 2 then Some ClassUnknown
      else
        let sub = ToUpper (args ! 1) in
        if name = ''CONFIG'' then Some (if sub = ''GET'' then ClassAdmin else ClassAdminW)
        else if name = ''SCRIPT'' then
          Some (if sub = ''EXISTS'' then ClassAdmin
                else if sub = ''LOAD'' then
                  (if length args = 3 \<and> allowed_script (ScriptSHA (args ! 2)) then ClassAdmin
                   else ClassScript)
                else ClassAdminW)
        else
          Some (if sub \<in> {''SETINFO'', ''SETNAME'', ''GETNAME'', ''ID'', ''INFO'', ''LIST'', ''GETREDIR'',
                   ''TRACKINGINFO'', ''MAINT_NOTIFICATIONS''} then ClassConn
                else if sub \<in> {''REPLY'', ''TRACKING'', ''CACHING''} then ClassForbidden
                else ClassAdminW))"

definition script_ref :: "string \<Rightarrow> key_ref" where
  "script_ref k =
     (let ref = ParseKey k in
      if k_shape ref = ShapeUnknown then plain_ref ShapeScriptArg GScriptArg else ref)"

text \<open>
  \<^verbatim>\<open>strconv.Atoi\<close> is \<^verbatim>\<open>ParseInt\<close> to 64 bits, and the sum with the key count wraps; the slice of the
  keys panics when its upper bound is below its lower one.  \<^const>\<open>None\<close> is that panic.
\<close>

definition classifyScript ::
    "string \<Rightarrow> bytes list \<Rightarrow> (cmd_class \<times> key_ref list \<times> string list \<times> string) option" where
  "classifyScript name args =
     (if length args < 3 then Some (ClassScript, [], [], [])
      else
        let sha = (if HasPrefix name ''EVALSHA'' then ToLower (args ! 1) else ScriptSHA (args ! 1)) in
        if \<not> allowed_script sha then Some (ClassScript, [], [], [])
        else case ParseInt (args ! 2) of
          (nk, Some e) \<Rightarrow> Some (ClassScript, [], [], [])
        | (nk, None) \<Rightarrow>
            if nk < 0 \<or> int (length args) < wrap64 (3 + nk) then Some (ClassScript, [], [], [])
            else if wrap64 (3 + nk) < 3 then None
            else let ks = take (nat nk) (drop 3 args) in Some (ClassRead, map script_ref ks, ks, sha))"

function key_args :: "bytes list \<Rightarrow> nat \<Rightarrow> int \<Rightarrow> nat \<Rightarrow> bytes list" where
  "key_args args i lst step =
     (if int i \<le> lst \<and> i < length args \<and> 0 < step
      then args ! i # key_args args (i + step) lst step else [])"
  by pat_completeness auto
termination
  by (relation "measure (\<lambda>(args, i, lst, step). length args - i)") auto

declare key_args.simps [simp del]

definition mk_command :: "string \<Rightarrow> cmd_class \<Rightarrow> command" where
  "mk_command name cl = \<lparr>c_name = name, c_class = cl, c_keys = [], c_raw = [], c_script = []\<rparr>"

text \<open>\<^const>\<open>None\<close> is a run-time panic, which ends the process.\<close>

definition Classify :: "bytes list \<Rightarrow> command option" where
  "Classify args =
     (if args = [] then Some (mk_command [] ClassUnknown)
      else
        let name = ToUpper (hd args) in
        if HasPrefix name ''JM.'' then Some (mk_command name ClassLocal)
        else case classifySub name args of
          Some cl \<Rightarrow> Some (mk_command name cl)
        | None \<Rightarrow>
            (case map_of commands name of
               None \<Rightarrow> Some (mk_command name ClassUnknown)
             | Some (cl, ks) \<Rightarrow>
                 if cl = ClassScript then
                   (case classifyScript name args of
                      None \<Rightarrow> None
                    | Some (cl', keys, raw, sha) \<Rightarrow>
                        Some \<lparr>c_name = name, c_class = cl', c_keys = keys, c_raw = raw, c_script = sha\<rparr>)
                 else if ks_step ks = 0 then Some (mk_command name cl)
                 else
                   let lst = (if ks_last ks < 0 then int (length args) + ks_last ks else ks_last ks);
                       raw = key_args args (ks_first ks) lst (ks_step ks) in
                   Some ((mk_command name cl)\<lparr>c_keys := map ParseKey raw, c_raw := raw\<rparr>)))"

subsection \<open>Values\<close>

fun every_other :: "'a list \<Rightarrow> 'a list" where
  "every_other [] = []"
| "every_other [a] = [a]"
| "every_other (a # b # r) = a # every_other r"

fun zadd_members :: "'a list \<Rightarrow> 'a list" where
  "zadd_members (s # m # r) = m # zadd_members r"
| "zadd_members r = []"

definition zadd_opts :: "string set" where
  "zadd_opts = {''NX'', ''XX'', ''GT'', ''LT'', ''CH'', ''INCR''}"

definition sessionIDs :: "string \<Rightarrow> key_ref \<Rightarrow> bytes list \<Rightarrow> nat list" where
  "sessionIDs name key args =
     (if k_shape key = ShapeSession \<or> k_shape key = ShapeLocked then [k_sid key]
      else List.map_filter digits
        (if name = ''ZADD'' then zadd_members (dropWhile (\<lambda>a. ToUpper a \<in> zadd_opts) (drop 2 args))
         else if name \<in> {''ZREM'', ''HDEL'', ''SREM''} then drop 2 args
         else if name \<in> {''HSET'', ''HMSET''} then every_other (drop 2 args)
         else if name \<in> {''HSETNX'', ''HINCRBY''} then take 1 (drop 2 args)
         else []))"

definition attrParent :: "bytes \<Rightarrow> nat option" where
  "attrParent v = (if length v \<noteq> 72 \<and> length v \<noteq> 80 then None else Some (be_value (take 8 (drop 63 v))))"

definition entryInode :: "bytes \<Rightarrow> nat option" where
  "entryInode v = (if length v \<noteq> 9 then None else Some (be_value (drop 1 v)))"

definition entryType :: "bytes \<Rightarrow> nat option" where
  "entryType v = (if length v \<noteq> 9 then None else Some (of_char (hd v)))"

end
