(* ===== verification/Proxy_Policy.thy ===== *)
theory Proxy_Policy
  imports Resp_Props
begin

section \<open>Principals, modes and refusals (policy.go)\<close>

text \<open>
  The vocabulary the gates share: who is on a connection, why a unit is refused, how the refusal is
  rendered, and in which modes it is enforced.  The kinds form a closed type because the loader
  (\<^verbatim>\<open>principals.go\<close>) refuses any other kind.  The rendering loop of \<^verbatim>\<open>Denial.Error\<close> is a recursion
  whose termination rests on \<open>ReplaceAll_EXECABORT\<close>: one pass leaves no occurrence behind.
\<close>

datatype kind = KindMac | KindFarm | KindManager | KindBG | KindWebDAV | KindAdmin

record principal =
  p_name :: string
  p_kind :: kind
  p_host :: string

definition host :: "principal \<Rightarrow> string" where
  "host p = (if p_host p \<noteq> [] then p_host p else p_name p)"

datatype unit_kind = UnitBare | UnitTxn

datatype reason =
  ReasonLeaseHeld | ReasonAdminOnly | ReasonBGOnly | ReasonFarmOnly | ReasonUnknownKey
| ReasonPrincipalReadonly | ReasonXProject | ReasonAuthRequired | ReasonProxyFenced
| ReasonNotGranted | ReasonAuditUnavailable

fun reason_str :: "reason \<Rightarrow> string" where
  "reason_str ReasonLeaseHeld = ''LEASE_HELD''"
| "reason_str ReasonAdminOnly = ''ADMIN_ONLY''"
| "reason_str ReasonBGOnly = ''BG_ONLY''"
| "reason_str ReasonFarmOnly = ''FARM_ONLY''"
| "reason_str ReasonUnknownKey = ''UNKNOWN_KEY''"
| "reason_str ReasonPrincipalReadonly = ''PRINCIPAL_READONLY''"
| "reason_str ReasonXProject = ''XPROJECT''"
| "reason_str ReasonAuthRequired = ''AUTH_REQUIRED''"
| "reason_str ReasonProxyFenced = ''PROXY_FENCED''"
| "reason_str ReasonNotGranted = ''NOT_GRANTED''"
| "reason_str ReasonAuditUnavailable = ''AUDIT_UNAVAILABLE''"

definition AllReasons :: "reason list" where
  "AllReasons = [ReasonLeaseHeld, ReasonAdminOnly, ReasonBGOnly, ReasonFarmOnly,
     ReasonUnknownKey, ReasonPrincipalReadonly, ReasonXProject, ReasonAuthRequired,
     ReasonProxyFenced, ReasonNotGranted, ReasonAuditUnavailable]"

definition enforcedInEveryMode :: "reason \<Rightarrow> bool" where
  "enforcedInEveryMode r \<longleftrightarrow> r = ReasonNotGranted \<or> r = ReasonAuditUnavailable"

record denial =
  d_reason :: reason
  d_proj :: nat
  d_holder :: string
  d_host :: string
  d_epoch :: nat
  d_detail :: string

text \<open>A refusal with only a reason and a log detail, as the guard builds them.\<close>

definition refuse :: "reason \<Rightarrow> string \<Rightarrow> denial" where
  "refuse r detail = \<lparr>d_reason = r, d_proj = 0, d_holder = [], d_host = [], d_epoch = 0,
     d_detail = detail\<rparr>"

record outcome =
  Forwarded :: bool
  Committed :: bool
  Lost :: bool
  o_conn :: nat

datatype mode = ModePassthrough | ModeObserve | ModeEnforce

fun mode_str :: "mode \<Rightarrow> string" where
  "mode_str ModePassthrough = ''passthrough''"
| "mode_str ModeObserve = ''observe''"
| "mode_str ModeEnforce = ''enforce''"

text \<open>\<^verbatim>\<open>strings.TrimSpace\<close>: the white space of Unicode, as the UTF-8 bytes that encode it.\<close>

definition space_runes :: "string list" where
  "space_runes = [[CHR 0x09], [CHR 0x0A], [CHR 0x0B], [CHR 0x0C], [CHR 0x0D], '' '',
     [CHR 0xC2, CHR 0x85], [CHR 0xC2, CHR 0xA0], [CHR 0xE1, CHR 0x9A, CHR 0x80]]
     @ map (\<lambda>i. [CHR 0xE2, CHR 0x80, char_of (128 + i)]) [0 ..< 11]
     @ [[CHR 0xE2, CHR 0x80, CHR 0xA8], [CHR 0xE2, CHR 0x80, CHR 0xA9], [CHR 0xE2, CHR 0x80, CHR 0xAF],
        [CHR 0xE2, CHR 0x81, CHR 0x9F], [CHR 0xE3, CHR 0x80, CHR 0x80]]"

function trim_front :: "string list \<Rightarrow> string \<Rightarrow> string" where
  "trim_front ps s =
     (case find (\<lambda>p. p \<noteq> [] \<and> HasPrefix s p) ps of
        None \<Rightarrow> s
      | Some p \<Rightarrow> trim_front ps (drop (length p) s))"
  by pat_completeness auto
termination
  by (relation "measure (\<lambda>(ps, s). length s)")
    (auto simp: find_Some_iff HasPrefix_def intro!: diff_less dest: take_eq_Nil [THEN iffD2])

declare trim_front.simps [simp del]

definition TrimSpace :: "string \<Rightarrow> string" where
  "TrimSpace s = rev (trim_front (map rev space_runes) (rev (trim_front space_runes s)))"

definition ParseMode :: "string \<Rightarrow> mode option" where
  "ParseMode s =
     (let m = ToLower (TrimSpace s) in
      if m = ''passthrough'' then Some ModePassthrough
      else if m = ''observe'' then Some ModeObserve
      else if m = ''enforce'' then Some ModeEnforce
      else None)"

subsection \<open>Rendering a refusal\<close>

definition denyToken :: string where "denyToken = ''JMDENY''"

definition sanitize_byte :: "char \<Rightarrow> char" where
  "sanitize_byte c = (if (of_char c :: nat) \<le> 32 \<or> 127 \<le> (of_char c :: nat) then CHR ''_'' else c)"

definition sanitizeToken :: "string \<Rightarrow> string" where
  "sanitizeToken s = (if s = [] then ''-'' else take 128 (map sanitize_byte s))"

text \<open>\<^verbatim>\<open>strings.ReplaceAll\<close> for a non-empty pattern.\<close>

function ReplaceAll :: "string \<Rightarrow> string \<Rightarrow> string \<Rightarrow> string" where
  "ReplaceAll old new s =
     (if s = [] then []
      else if old \<noteq> [] \<and> HasPrefix s old then new @ ReplaceAll old new (drop (length old) s)
      else hd s # ReplaceAll old new (tl s))"
  by pat_completeness auto
termination
  by (relation "measure (\<lambda>(old, new, s). length s)") auto

declare ReplaceAll.simps [simp del]

abbreviation EXECABORT :: string where "EXECABORT \<equiv> ''EXECABORT''"
abbreviation EXEC_ABORT :: string where "EXEC_ABORT \<equiv> ''EXEC_ABORT''"

lemma ReplaceAll_Nil [simp]: "ReplaceAll p q [] = []"
  by (simp add: ReplaceAll.simps)

lemma ReplaceAll_skip: "\<not> HasPrefix (c # s) p \<Longrightarrow> ReplaceAll p q (c # s) = c # ReplaceAll p q s"
  by (simp add: ReplaceAll.simps [of p q "c # s"])

lemma ReplaceAll_hit:
  "HasPrefix s p \<Longrightarrow> p \<noteq> [] \<Longrightarrow> s \<noteq> [] \<Longrightarrow> ReplaceAll p q s = q @ ReplaceAll p q (drop (length p) s)"
  by (simp add: ReplaceAll.simps [of p q s])

text \<open>What a pass produces starts like its input, seen through any tail of the pattern.\<close>

lemma ReplaceAll_prefix:
  "k < 9 \<Longrightarrow> HasPrefix (ReplaceAll EXECABORT EXEC_ABORT s) (drop k EXECABORT) \<Longrightarrow>
   HasPrefix s (drop k EXECABORT)"
proof (induction "length s" arbitrary: s k rule: less_induct)
  case less
  show ?case
  proof (cases s)
    case Nil
    with less.prems show ?thesis by simp
  next
    case (Cons c t)
    show ?thesis
    proof (cases "HasPrefix s EXECABORT")
      case True
      from less.prems(1) have "k \<in> {0, 1, 2, 3, 4, 5, 6, 7, 8}" by auto
      with less.prems(2) Cons True show ?thesis by (auto simp: ReplaceAll_hit)
    next
      case False
      from less.prems(1) have k: "k = 8 \<or> Suc k < 9" by auto
      have e: "drop k EXECABORT = EXECABORT ! k # drop (Suc k) EXECABORT"
        using less.prems(1) by (intro Cons_nth_drop_Suc [symmetric]) simp
      have r: "ReplaceAll EXECABORT EXEC_ABORT s = c # ReplaceAll EXECABORT EXEC_ABORT t"
        unfolding Cons by (rule ReplaceAll_skip) (use Cons False in blast)
      have h: "EXECABORT ! k = c" "HasPrefix (ReplaceAll EXECABORT EXEC_ABORT t) (drop (Suc k) EXECABORT)"
        using less.prems(2) unfolding r e by (simp_all only: HasPrefix_Cons)
      have "HasPrefix t (drop (Suc k) EXECABORT)"
        using k less.hyps [of t "Suc k"] Cons h(2) by auto
      with h(1) show ?thesis unfolding Cons e by (simp only: HasPrefix_Cons)
    qed
  qed
qed

lemma ReplaceAll_EXECABORT: "\<not> Contains (ReplaceAll EXECABORT EXEC_ABORT s) EXECABORT"
proof (induction "length s" arbitrary: s rule: less_induct)
  case less
  show ?case
  proof (cases s)
    case Nil
    then show ?thesis by (simp add: Contains_Nil)
  next
    case (Cons c t)
    show ?thesis
    proof (cases "HasPrefix s EXECABORT")
      case True
      then have "ReplaceAll EXECABORT EXEC_ABORT s
          = EXEC_ABORT @ ReplaceAll EXECABORT EXEC_ABORT (drop (length EXECABORT) s)"
        by (rule ReplaceAll_hit) (simp_all add: Cons)
      moreover have "\<not> Contains (ReplaceAll EXECABORT EXEC_ABORT (drop (length EXECABORT) s)) EXECABORT"
        using Cons by (intro less.hyps) simp
      ultimately show ?thesis by (simp add: Contains_Cons)
    next
      case False
      then have r: "ReplaceAll EXECABORT EXEC_ABORT s = c # ReplaceAll EXECABORT EXEC_ABORT t"
        unfolding Cons by (rule ReplaceAll_skip)
      have "\<not> Contains (ReplaceAll EXECABORT EXEC_ABORT t) EXECABORT"
        using Cons by (intro less.hyps) simp
      moreover have "\<not> HasPrefix (c # ReplaceAll EXECABORT EXEC_ABORT t) EXECABORT"
        using ReplaceAll_prefix [of 0 s] False unfolding r by auto
      ultimately show ?thesis by (simp add: r Contains_Cons)
    qed
  qed
qed

text \<open>The loop of \<^verbatim>\<open>Denial.Error\<close>.\<close>

function mask_execabort :: "string \<Rightarrow> string" where
  "mask_execabort msg =
     (if Contains msg EXECABORT then mask_execabort (ReplaceAll EXECABORT EXEC_ABORT msg) else msg)"
  by pat_completeness auto
termination
  by (relation "measure (\<lambda>m. if Contains m EXECABORT then 1 else 0)") (auto simp: ReplaceAll_EXECABORT)

declare mask_execabort.simps [simp del]

definition Error :: "denial \<Rightarrow> string" where
  "Error d = mask_execabort
     (denyToken @ '' '' @ sanitizeToken (reason_str (d_reason d)) @ '' proj='' @ FormatUint (d_proj d)
      @ '' holder='' @ sanitizeToken (d_holder d) @ ''@'' @ sanitizeToken (d_host d)
      @ '' epoch='' @ FormatUint (d_epoch d))"

definition Reply :: "denial \<Rightarrow> bytes" where
  "Reply d = ''-'' @ Error d @ CRLF"

lemma mask_execabort_eq:
  "mask_execabort m = (if Contains m EXECABORT then ReplaceAll EXECABORT EXEC_ABORT m else m)"
  by (subst mask_execabort.simps, subst mask_execabort.simps) (simp add: ReplaceAll_EXECABORT)

lemma ReplaceAll_set: "set (ReplaceAll p q s) \<subseteq> set s \<union> set q"
proof (induction p q s rule: ReplaceAll.induct)
  case (1 p q s)
  then show ?case
    by (subst ReplaceAll.simps) (auto dest: in_set_dropD list.set_sel(2))
qed

lemma ReplaceAll_length: "length q \<le> 2 * length p \<Longrightarrow> length (ReplaceAll p q s) \<le> 2 * length s"
proof (induction p q s rule: ReplaceAll.induct)
  case (1 p q s)
  have "length p \<le> length s" if "HasPrefix s p" using that by (auto simp: HasPrefix_iff)
  note le = this
  show ?case
  proof (cases "s \<noteq> [] \<and> p \<noteq> [] \<and> HasPrefix s p")
    case True
    with 1 le show ?thesis by (simp add: ReplaceAll.simps [of p q s])
  next
    case False
    with 1 show ?thesis by (cases s) (auto simp: ReplaceAll.simps [of p q "_ # _"])
  qed
qed

lemma sanitizeToken_safe:
  "length (sanitizeToken s) \<le> 128" "LF \<notin> set (sanitizeToken s)" "CR \<notin> set (sanitizeToken s)"
  "CHR '' '' \<notin> set (sanitizeToken s)" "sanitizeToken s \<noteq> []"
  by (auto simp: sanitizeToken_def sanitize_byte_def dest!: in_set_takeD split: if_splits)

lemma Error_shape:
  assumes "d_proj d \<le> max_u64" "d_epoch d \<le> max_u64"
  shows "length (Error d) \<le> 65533" "LF \<notin> set (Error d)" "CR \<notin> set (Error d)"
    "HasPrefix (Error d) ''JMDENY ''" "\<not> Contains (Error d) EXECABORT"
proof -
  define tail where "tail = sanitizeToken (reason_str (d_reason d)) @ '' proj='' @ FormatUint (d_proj d)
      @ '' holder='' @ sanitizeToken (d_holder d) @ ''@'' @ sanitizeToken (d_host d)
      @ '' epoch='' @ FormatUint (d_epoch d)"
  have e: "Error d = mask_execabort (''JMDENY '' @ tail)" by (simp add: Error_def denyToken_def tail_def)
  have j: "ReplaceAll EXECABORT EXEC_ABORT (''JMDENY '' @ tail)
      = ''JMDENY '' @ ReplaceAll EXECABORT EXEC_ABORT tail"
    by (simp add: ReplaceAll_skip)
  have "length (FormatUint n) \<le> 20" if "n \<le> max_u64" for n
    using that by (subst FormatUint_length) (simp_all add: go_arith)
  with assms have "length (FormatUint (d_proj d)) \<le> 20" "length (FormatUint (d_epoch d)) \<le> 20" by simp_all
  then have l: "length (''JMDENY '' @ tail) \<le> 460"
    using sanitizeToken_safe(1) [of "reason_str (d_reason d)"] sanitizeToken_safe(1) [of "d_holder d"]
      sanitizeToken_safe(1) [of "d_host d"] by (simp add: tail_def)
  have c: "LF \<notin> set (''JMDENY '' @ tail)" "CR \<notin> set (''JMDENY '' @ tail)"
    using sanitizeToken_safe FormatUint_no_LF FormatUint_digits [of "d_proj d"] FormatUint_digits [of "d_epoch d"]
    by (auto simp: tail_def list_all_iff)
  show "\<not> Contains (Error d) EXECABORT" unfolding e mask_execabort_eq by (simp only: ReplaceAll_EXECABORT split: if_split) simp
  show "length (Error d) \<le> 65533"
    using l ReplaceAll_length [of EXEC_ABORT EXECABORT "''JMDENY '' @ tail"]
    unfolding e mask_execabort_eq by (simp only: split: if_split) simp
  show "LF \<notin> set (Error d)" "CR \<notin> set (Error d)"
    using c ReplaceAll_set [of EXECABORT EXEC_ABORT "''JMDENY '' @ tail"]
    unfolding e mask_execabort_eq by (auto split: if_splits)
  show "HasPrefix (Error d) ''JMDENY ''" unfolding e mask_execabort_eq j by simp
qed

text \<open>C33: A refusal is rendered as exactly one RESP error frame that starts with \<^verbatim>\<open>-JMDENY\<close>, whatever
  the holder and host names are: no name can inject a second frame, and the text never contains
  \<^verbatim>\<open>EXECABORT\<close>, which would make a juicefs client retry instead of fail.\<close>

theorem Reply_one_frame:
  assumes "d_proj d \<le> max_u64" and "d_epoch d \<le> max_u64"
  shows "CopyFrame sz (Reply d @ s) = Inr (\<lparr>f_type = CHR ''-'', f_null = False\<rparr>, Reply d, s)
    \<and> HasPrefix (Reply d) ''-JMDENY '' \<and> \<not> Contains (Reply d) EXECABORT"
proof (intro conjI)
  note sh = Error_shape [OF assms]
  show "CopyFrame sz (Reply d @ s) = Inr (\<lparr>f_type = CHR ''-'', f_null = False\<rparr>, Reply d, s)"
    using CopyFrame_simple [of "CHR ''-''" "Error d" sz s] sh(1,2) by (simp add: Reply_def simple_types_def)
  show "HasPrefix (Reply d) ''-JMDENY ''" using sh(4) by (auto simp: Reply_def HasPrefix_iff)
  have "Contains (Error d) EXECABORT" if ab: "CHR ''-'' # Error d @ [CR, LF] = a @ EXECABORT @ b" for a b
  proof -
    obtain a' where a: "a = CHR ''-'' # a'" "Error d @ [CR, LF] = a' @ EXECABORT @ b"
      using ab by (cases a) auto
    have "\<exists>b'. b = b' @ [CR, LF]"
      using a(2) by (cases b rule: rev_cases; simp) (case_tac ys rule: rev_cases; simp)
    with a(2) have "\<exists>b'. Error d = a' @ EXECABORT @ b'" by auto
    then show ?thesis by (auto simp: Contains_iff)
  qed
  then show "\<not> Contains (Reply d) EXECABORT" using sh(5) by (auto simp: Reply_def Contains_iff [of "_ # _"])
qed

theorem Reply_one_frame_witness:
  "CopyFrame 64 (Reply (refuse ReasonAdminOnly []) @ ''+OK'')
     = Inr (\<lparr>f_type = CHR ''-'', f_null = False\<rparr>, Reply (refuse ReasonAdminOnly []), ''+OK'')
   \<and> HasPrefix (Reply (refuse ReasonAdminOnly [])) ''-JMDENY ''
   \<and> \<not> Contains (Reply (refuse ReasonAdminOnly [])) EXECABORT"
  using Reply_one_frame [of "refuse ReasonAdminOnly []"] by (simp add: refuse_def go_arith)

end
