(* ===== verification/Guard_Base.thy ===== *)
theory Guard_Base
  imports Classify Proxy_Policy "HOL-Library.AList"
begin

section \<open>The guard: units, state and counters (guard.go)\<close>

text \<open>
  The data the guard works on.  A unit is the record \<open>punit\<close>; the guard's own state is \<open>guard\<close>.
  What a decision reads from elsewhere (the clock, the owner stores, the side connection) is the
  record \<open>reads\<close> of functions, an argument of every gate; an error of such a read is its text in
  \<^const>\<open>Inl\<close>.  Go maps that are measured or iterated are association lists, the others functions.
  One decision runs at a time: \<open>counterCeiling\<close> is the sequential composition of the source's
  locked sections.

  \<open>gate\<close> is the result of a check: the run-time panic of an index out of range, a refusal, or the
  value of a check that passed; \<open>gbind\<close> chains checks.
\<close>

datatype 'a gate = Panicked | Refused denial | Passed 'a

fun gbind :: "'a gate \<Rightarrow> ('a \<Rightarrow> 'b gate) \<Rightarrow> 'b gate" where
  "gbind Panicked f = Panicked"
| "gbind (Refused d) f = Refused d"
| "gbind (Passed x) f = f x"

lemma gbind_Passed: "gbind m f = Passed y \<longleftrightarrow> (\<exists>x. m = Passed x \<and> f x = Passed y)"
  by (cases m) auto

lemma gbind_Panicked: "gbind m f = Panicked \<longleftrightarrow> m = Panicked \<or> (\<exists>x. m = Passed x \<and> f x = Panicked)"
  by (cases m) auto

datatype key_class =
  KCCounter | KCSession | KCPresence | KCLinkBench | KCTrashCreate | KCOwnRecord | KCBG | KCFarm
| KCAdmin | KCProject | KCChannel | KCUnknown

definition baseClass :: "key_ref \<Rightarrow> string \<Rightarrow> key_class" where
  "baseClass k cmd =
     (case k_group k of
        GCounter \<Rightarrow> KCCounter
      | GSession \<Rightarrow> KCSession
      | GPresence \<Rightarrow> KCPresence
      | GLinkbench \<Rightarrow> KCLinkBench
      | GFarm \<Rightarrow> KCFarm
      | GLease \<Rightarrow> KCAdmin
      | GAdmin \<Rightarrow> KCAdmin
      | GBgmark \<Rightarrow> KCBG
      | GGc \<Rightarrow> KCBG
      | GQuota \<Rightarrow> if cmd = ''HDEL'' then KCProject else KCAdmin
      | GDirstat \<Rightarrow>
          if cmd \<in> {''HINCRBY'', ''HINCRBYFLOAT'', ''HSET'', ''HSETNX'', ''HMSET'', ''HDEL''} then KCProject
          else KCAdmin
      | GInode \<Rightarrow> KCProject
      | GDentry \<Rightarrow> KCProject
      | GChannel \<Rightarrow> KCChannel
      | GUnknown \<Rightarrow> KCUnknown
      | GScriptArg \<Rightarrow> KCUnknown)"

definition KeyClassOf :: "string \<Rightarrow> key_class" where
  "KeyClassOf key = baseClass (ParseKey key) ''SET''"

subsection \<open>Units\<close>

record cmd =
  cmd_args :: "bytes list"
  cmd_info :: command

abbreviation cmd_name :: "cmd \<Rightarrow> string" where "cmd_name c \<equiv> c_name (cmd_info c)"

record key_write =
  w_cmd :: nat
  w_key :: key_ref
  w_raw :: string
  w_class :: key_class

record punit =
  u_kind :: unit_kind
  u_db :: int
  u_cmds :: "cmd list"
  u_watched :: "string list"
  u_writes :: "key_write list"
  u_project :: "key_write list"
  u_refInodes :: "nat list"
  u_trashAlloc :: nat
  u_rewrite :: "bytes list option"
  u_mode :: mode

definition cmd_of :: "punit \<Rightarrow> key_write \<Rightarrow> cmd" where
  "cmd_of u w = u_cmds u ! w_cmd w"

subsection \<open>Owner stores held in memory\<close>

record slice_range =
  sr_lo :: nat
  sr_hi :: nat
  sr_owner :: string

record mem_slices =
  ms_ranges :: "slice_range list"
  ms_used :: "nat \<Rightarrow> bool"

fun ranges_Owner :: "slice_range list \<Rightarrow> nat \<Rightarrow> string option" where
  "ranges_Owner [] i = None"
| "ranges_Owner (r # rs) i = (if sr_lo r \<le> i \<and> i \<le> sr_hi r then Some (sr_owner r) else ranges_Owner rs i)"

definition slices_Owner :: "mem_slices \<Rightarrow> nat \<Rightarrow> string option" where
  "slices_Owner s i = ranges_Owner (ms_ranges s) i"

definition slices_Record :: "nat \<Rightarrow> nat \<Rightarrow> string \<Rightarrow> mem_slices \<Rightarrow> mem_slices" where
  "slices_Record lo hi owner s =
     s\<lparr>ms_ranges := ms_ranges s @ [\<lparr>sr_lo = lo, sr_hi = hi, sr_owner = owner\<rparr>]\<rparr>"

definition slices_Used :: "mem_slices \<Rightarrow> nat \<Rightarrow> bool" where
  "slices_Used s i = ms_used s i"

definition slices_MarkUsed :: "nat list \<Rightarrow> mem_slices \<Rightarrow> mem_slices" where
  "slices_MarkUsed ids s = s\<lparr>ms_used := (\<lambda>i. i \<in> set ids \<or> ms_used s i)\<rparr>"

definition UsedBitKey :: "nat \<Rightarrow> string" where
  "UsedBitKey i = ''jmlease:v1:sused:'' @ FormatUint (i div 2 ^ 20)"

definition UsedBitOffset :: "nat \<Rightarrow> nat" where
  "UsedBitOffset i = i mod 2 ^ 20"

type_synonym mem_sessions = "nat \<rightharpoonup> string"

definition sessions_Owner :: "mem_sessions \<Rightarrow> nat \<Rightarrow> string option" where
  "sessions_Owner s sid = s sid"

definition sessions_Claim :: "nat \<Rightarrow> string \<Rightarrow> mem_sessions \<Rightarrow> string \<times> mem_sessions" where
  "sessions_Claim sid owner s =
     (case s sid of Some o' \<Rightarrow> (o', s) | None \<Rightarrow> (owner, s(sid \<mapsto> owner)))"

definition sessions_Release :: "nat list \<Rightarrow> mem_sessions \<Rightarrow> mem_sessions" where
  "sessions_Release sids s = (\<lambda>sid. if sid \<in> set sids then None else s sid)"

subsection \<open>Guard state\<close>

record zero_ref =
  z_owner :: string
  z_ino :: nat

record counter_cache =
  cc_at :: int
  cc_val :: int
  cc_pending :: int

record rate_window =
  rw_start :: int
  rw_net :: int

record guard =
  g_sessions :: mem_sessions
  g_slices :: mem_slices
  g_inodes :: mem_slices
  g_zeroRefs :: "(string \<times> zero_ref) list"
  g_pendingDel :: "(string \<times> string) list"
  g_ctrCache :: "string \<rightharpoonup> counter_cache"
  g_rate :: "(string \<times> rate_window) list"
  g_dropped :: "(string \<times> string) list"

definition NewGuard :: guard where
  "NewGuard = \<lparr>g_sessions = Map.empty, g_slices = \<lparr>ms_ranges = [], ms_used = (\<lambda>_. False)\<rparr>,
     g_inodes = \<lparr>ms_ranges = [], ms_used = (\<lambda>_. False)\<rparr>, g_zeroRefs = [], g_pendingDel = [],
     g_ctrCache = Map.empty, g_rate = [], g_dropped = []\<rparr>"

record guard_effect =
  ge_zeroKey :: string
  ge_zeroAdd :: bool
  ge_zero :: zero_ref
  ge_release :: "nat list"
  ge_sliceUsed :: "nat list"
  ge_usedPersist :: bool
  ge_dropDone :: "string list"
  ge_delKey :: string
  ge_delAdd :: bool
  ge_delOwn :: string

definition no_effect :: guard_effect where
  "no_effect = \<lparr>ge_zeroKey = [], ge_zeroAdd = False, ge_zero = \<lparr>z_owner = [], z_ino = 0\<rparr>,
     ge_release = [], ge_sliceUsed = [], ge_usedPersist = False, ge_dropDone = [], ge_delKey = [],
     ge_delAdd = False, ge_delOwn = []\<rparr>"

definition commit_zero :: "guard_effect \<Rightarrow> guard \<Rightarrow> guard" where
  "commit_zero e g =
     (if ge_zeroKey e \<noteq> [] \<and> ge_zeroAdd e
      then g\<lparr>g_zeroRefs := AList.update (ge_zeroKey e) (ge_zero e) (g_zeroRefs g)\<rparr>
      else if ge_zeroKey e \<noteq> [] then g\<lparr>g_zeroRefs := AList.delete (ge_zeroKey e) (g_zeroRefs g)\<rparr>
      else g)"

definition commit_del :: "guard_effect \<Rightarrow> guard \<Rightarrow> guard" where
  "commit_del e g =
     (if ge_delKey e \<noteq> [] \<and> ge_delAdd e
      then g\<lparr>g_pendingDel := AList.update (ge_delKey e) (ge_delOwn e)
               (if 1000000 < length (g_pendingDel g) then [] else g_pendingDel g)\<rparr>
      else if ge_delKey e \<noteq> [] then g\<lparr>g_pendingDel := AList.delete (ge_delKey e) (g_pendingDel g)\<rparr>
      else g)"

definition commit_dropped :: "guard_effect \<Rightarrow> guard \<Rightarrow> guard" where
  "commit_dropped e g = g\<lparr>g_dropped := fold AList.delete (ge_dropDone e) (g_dropped g)\<rparr>"

text \<open>The stores are written after the loop over the effects, outside the guard's lock.\<close>

definition Commit :: "guard_effect list \<Rightarrow> guard \<Rightarrow> guard" where
  "Commit effects g =
     (if effects = [] then g
      else
        let g1 = (if 100000 < length (g_zeroRefs g) then g\<lparr>g_zeroRefs := []\<rparr> else g);
            g2 = fold (\<lambda>e. commit_dropped e \<circ> commit_del e \<circ> commit_zero e) effects g1;
            g3 = g2\<lparr>g_slices := fold (\<lambda>e. if ge_sliceUsed e \<noteq> [] then slices_MarkUsed (ge_sliceUsed e) else id)
                   effects (g_slices g2)\<rparr>;
            rel = concat (map ge_release effects)
        in if rel \<noteq> [] then g3\<lparr>g_sessions := sessions_Release rel (g_sessions g3)\<rparr> else g3)"

definition NoteDropped :: "principal \<Rightarrow> string \<Rightarrow> guard \<Rightarrow> guard" where
  "NoteDropped p f g =
     g\<lparr>g_dropped := AList.update f (p_name p) (if 1000000 < length (g_dropped g) then [] else g_dropped g)\<rparr>"

definition needsGate :: "command \<Rightarrow> bool" where
  "needsGate c =
     (if c_class c \<in> {ClassRead, ClassTxn, ClassPubSub, ClassConn} then False
      else if c_class c = ClassAdmin then c_name c = ''CONFIG''
      else True)"

definition serverPrincipal :: "principal \<Rightarrow> bool" where
  "serverPrincipal p \<longleftrightarrow> p_kind p = KindFarm \<or> p_kind p = KindManager \<or> p_kind p = KindAdmin"

subsection \<open>What a decision reads\<close>

record trim_op =
  t_del :: bool
  t_start :: int
  t_stop :: int

text \<open>
  \<open>r_beforeSide\<close>: \<^const>\<open>None\<close> is no function, \<open>Some None\<close> a confirmed WATCH.  \<open>r_order\<close> is the order in
  which Go iterates over a map: any rearrangement of its entries.
\<close>

record reads =
  r_now :: int
  r_sessOwner :: "nat \<Rightarrow> string + string option"
  r_sliceOwner :: "nat \<Rightarrow> string + string option"
  r_sliceUsed :: "nat \<Rightarrow> string + bool"
  r_chunks :: "(int \<Rightarrow> string \<Rightarrow> string + bytes list) option"
  r_counter :: "(int \<Rightarrow> string \<Rightarrow> string + int) option"
  r_side :: "(int \<Rightarrow> bytes list \<Rightarrow> string + resp_value) option"
  r_beforeSide :: "string option option"
  r_upstreamID :: nat
  r_order :: "(string \<times> trim_op) list \<Rightarrow> (string \<times> trim_op) list"

text \<open>A side command whose error reply counts as an error.\<close>

definition side_do :: "(int \<Rightarrow> bytes list \<Rightarrow> string + resp_value) \<Rightarrow> int \<Rightarrow> bytes list \<Rightarrow> string + resp_value" where
  "side_do Do db args =
     (case Do db args of
        Inl e \<Rightarrow> Inl e
      | Inr v \<Rightarrow> (case v_err v of Some e \<Rightarrow> Inl e | None \<Rightarrow> Inr v))"

subsection \<open>Counters and allocators\<close>

definition maxAlloc :: "string \<Rightarrow> int option" where
  "maxAlloc name = map_of [(''nextinode'', 1024), (''nextchunk'', 4096), (''nextsession'', 16), (''nextTrash'', 1)] name"

definition maxUsedSpaceDelta :: int where "maxUsedSpaceDelta = 2 ^ 40"

definition maxTotalInodesDelta :: int where "maxTotalInodesDelta = 1"

definition counterLimit :: int where "counterLimit = 2 ^ 60"

definition rateWindowLen :: int where "rateWindowLen = 60 * 10 ^ 9"

definition counterRefresh :: int where "counterRefresh = 10 ^ 9"

definition rateBounds :: "string \<Rightarrow> (int \<times> int) option" where
  "rateBounds key = map_of [(''usedSpace'', - (64 * 2 ^ 40), 2 ^ 40), (''totalInodes'', - 10000000, 1000000)] key"

definition counterDelta :: "cmd \<Rightarrow> int option" where
  "counterDelta c =
     (if cmd_name c = ''INCR'' then Some 1
      else if cmd_name c = ''DECR'' then Some (-1)
      else if cmd_name c = ''INCRBY'' \<or> cmd_name c = ''DECRBY'' then
        (if length (cmd_args c) \<noteq> 3 then None
         else case RedisInt (cmd_args c ! 2) of
           None \<Rightarrow> None
         | Some n \<Rightarrow> if cmd_name c = ''DECRBY'' \<and> n = min_i64 then None
                     else Some (if cmd_name c = ''DECRBY'' then - n else n))
      else None)"

definition global_shape :: "key_ref \<Rightarrow> string" where
  "global_shape k = (case k_shape k of ShapeGlobal s \<Rightarrow> s | _ \<Rightarrow> [])"

definition Allocation :: "punit \<Rightarrow> string \<times> int" where
  "Allocation u =
     (case (u_kind u, u_cmds u) of
        (UnitBare, [c]) \<Rightarrow>
          (case c_keys (cmd_info c) of
             [k] \<Rightarrow>
               let s = global_shape k in
               if s \<in> {''nextsession'', ''nextchunk'', ''nextTrash''} then
                 (case counterDelta c of
                    Some d \<Rightarrow> if 0 < d \<and> d \<le> the (maxAlloc s) then (s, d) else ([], 0)
                  | None \<Rightarrow> ([], 0))
               else if s = ''nextinode'' then
                 (case counterDelta c of
                    Some d \<Rightarrow> if d = the (maxAlloc s) then (s, d) else ([], 0)
                  | None \<Rightarrow> ([], 0))
               else ([], 0)
           | _ \<Rightarrow> ([], 0))
      | _ \<Rightarrow> ([], 0))"

text \<open>The refresh of a stale cache entry, then the check and charge under one lock.\<close>

definition ctr_refresh :: "reads \<Rightarrow> int \<Rightarrow> string \<Rightarrow> guard \<Rightarrow> string + guard" where
  "ctr_refresh R db key g =
     (case r_counter R of
        None \<Rightarrow> Inr g
      | Some rd \<Rightarrow>
          if (case g_ctrCache g key of None \<Rightarrow> True | Some cc \<Rightarrow> counterRefresh < r_now R - cc_at cc)
          then (case rd db key of
                  Inl e \<Rightarrow> Inl e
                | Inr v \<Rightarrow> Inr (g\<lparr>g_ctrCache := (g_ctrCache g)(key \<mapsto> \<lparr>cc_at = r_now R, cc_val = v, cc_pending = 0\<rparr>)\<rparr>))
          else Inr g)"

definition rate_key :: "principal \<Rightarrow> string \<Rightarrow> string" where
  "rate_key p key = p_name p @ ''|'' @ key"

definition rate_open :: "reads \<Rightarrow> string \<Rightarrow> guard \<Rightarrow> rate_window \<times> guard" where
  "rate_open R rk g =
     (let old = map_of (g_rate g) rk in
      if old = None \<or> rateWindowLen \<le> r_now R - rw_start (the old) then
        let rw = \<lparr>rw_start = r_now R, rw_net = 0\<rparr> in
        (rw, g\<lparr>g_rate := AList.update rk rw (if 100000 < length (g_rate g) then [] else g_rate g)\<rparr>)
      else (the old, g))"

definition rate_exceeded :: "principal \<Rightarrow> string \<Rightarrow> rate_window \<Rightarrow> int \<Rightarrow> bool" where
  "rate_exceeded p key rw n =
     (case rateBounds key of
        None \<Rightarrow> False
      | Some (lo, hi) \<Rightarrow>
          p_kind p \<noteq> KindBG \<and> (wrap64 (rw_net rw + n) < lo \<or> hi < wrap64 (rw_net rw + n)))"

definition limit_exceeded :: "counter_cache \<Rightarrow> int \<Rightarrow> bool" where
  "limit_exceeded cc n =
     (let proj = wrap64 (cc_val cc + cc_pending cc) in
      (0 < n \<and> wrap64 (counterLimit - n) < proj) \<or> (n < 0 \<and> proj < wrap64 (- counterLimit - n)))"

definition counterCeiling ::
    "reads \<Rightarrow> int \<Rightarrow> principal \<Rightarrow> string \<Rightarrow> int \<Rightarrow> guard \<Rightarrow> denial option \<times> guard" where
  "counterCeiling R db p key n g0 =
     (case ctr_refresh R db key g0 of
        Inl e \<Rightarrow> (Some (refuse ReasonBGOnly (''counter read: '' @ e)), g0)
      | Inr g1 \<Rightarrow>
          let rk = rate_key p key; (rw, g) = rate_open R rk g1 in
          if rate_exceeded p key rw n then
            (Some (refuse ReasonAdminOnly (key @ '': '' @ p_name p @
               '' would change it by more than its per-minute bound'')), g)
          else if (case g_ctrCache g key of None \<Rightarrow> False | Some cc \<Rightarrow> limit_exceeded cc n) then
            (Some (refuse ReasonAdminOnly (key @ '' would pass the volume counter limit'')), g)
          else
            (None, g\<lparr>g_ctrCache := (case g_ctrCache g key of
                        None \<Rightarrow> g_ctrCache g
                      | Some cc \<Rightarrow> (g_ctrCache g)(key \<mapsto> cc\<lparr>cc_pending := wrap64 (cc_pending cc + n)\<rparr>)),
                     g_rate := AList.update rk (rw\<lparr>rw_net := wrap64 (rw_net rw + n)\<rparr>) (g_rate g)\<rparr>))"

definition allocator_denial :: "principal \<Rightarrow> punit \<Rightarrow> cmd \<Rightarrow> key_write \<Rightarrow> string \<Rightarrow> denial option" where
  "allocator_denial p u c w name =
     (case counterDelta c of
        None \<Rightarrow> Some (refuse ReasonAdminOnly (cmd_name c @ '' '' @ w_raw w @ '': allocators only increase''))
      | Some n \<Rightarrow>
          if n \<le> 0 then
            Some (refuse ReasonAdminOnly (cmd_name c @ '' '' @ w_raw w @ '': allocators only increase''))
          else if (case maxAlloc name of Some m \<Rightarrow> m < n | None \<Rightarrow> False) then
            Some (refuse ReasonAdminOnly (cmd_name c @ '' '' @ w_raw w @ '' '' @ FormatInt n @
              '': over the juicefs batch size''))
          else if (name = ''nextsession'' \<or> name = ''nextchunk'') \<and> u_kind u \<noteq> UnitBare then
            Some (refuse ReasonAdminOnly (name @
              '' is allocated by a bare INCRBY so the proxy can record who received the ids''))
          else if name = ''nextinode'' \<and> p_kind p \<noteq> KindBG \<and>
              (u_kind u \<noteq> UnitBare \<or> n \<noteq> the (maxAlloc ''nextinode'')) then
            Some (refuse ReasonAdminOnly ''nextinode is allocated by a bare INCRBY of exactly 1024'')
          else if name = ''nextchunk'' \<and> n \<noteq> the (maxAlloc ''nextchunk'') then
            Some (refuse ReasonAdminOnly ''nextchunk is allocated in batches of exactly 4096'')
          else None)"

definition counterGate ::
    "reads \<Rightarrow> principal \<Rightarrow> punit \<Rightarrow> cmd \<Rightarrow> key_write \<Rightarrow> guard \<Rightarrow> denial option \<times> guard" where
  "counterGate R p u c w g =
     (let name = global_shape (w_key w) in
      if HasPrefix name ''next'' then (allocator_denial p u c w name, g)
      else if name = ''lastCleanupSessions'' then
        (if cmd_name c \<in> {''SET'', ''SETNX'', ''GETSET''} then None
         else Some (refuse ReasonAdminOnly (cmd_name c @ '' '' @ w_raw w)), g)
      else if u_kind u \<noteq> UnitTxn \<and> p_kind p \<noteq> KindBG then
        (Some (refuse ReasonBGOnly (cmd_name c @ '' '' @ w_raw w @ '' outside a file operation's txn'')), g)
      else case counterDelta c of
        None \<Rightarrow>
          (Some (refuse ReasonAdminOnly (cmd_name c @ '' '' @ w_raw w @ '': counters are only incremented'')), g)
      | Some n \<Rightarrow>
          let lim = (if name = ''totalInodes'' then maxTotalInodesDelta else maxUsedSpaceDelta) in
          if lim < n \<or> n < - lim then
            (Some (refuse ReasonAdminOnly (cmd_name c @ '' '' @ w_raw w @ '' '' @ FormatInt n @
               '': delta out of bounds'')), g)
          else counterCeiling R (u_db u) p name n g)"

end
