(* ===== verification/Guard_Slices.thy ===== *)
theory Guard_Slices
  imports Guard_Base
begin

section \<open>The guard: slice reference accounting (guard.go)\<close>

text \<open>
  What one unit says about slices (\<open>slice_scope\<close>): which slices it links into which chunk, how many
  references it adds and removes, and the content of the chunks it rewrites under WATCH, read from
  the side connection at most once.  Counters of a field are functions with default 0, as a Go map
  read of a missing key; they are 64-bit integers and wrap.
\<close>

definition sliceKeyOf :: "nat \<Rightarrow> nat \<Rightarrow> string" where
  "sliceKeyOf i sz = ''k'' @ FormatUint i @ ''_'' @ FormatUint sz"

record slice_entry =
  se_id :: nat
  se_size :: nat

definition chunkElem :: "bytes \<Rightarrow> slice_entry option" where
  "chunkElem v =
     (if length v \<noteq> 24 then None
      else Some \<lparr>se_id = be_value (take 8 (drop 4 v)), se_size = be_value (take 4 (drop 12 v))\<rparr>)"

record slice_field =
  sf_raw :: string
  sf_id :: nat

definition parse_slice_field :: "bytes \<Rightarrow> slice_field option" where
  "parse_slice_field s =
     (if length s < 4 \<or> hd s \<noteq> CHR ''k'' then None
      else case IndexByte s CHR ''_'' of
        None \<Rightarrow> None
      | Some u \<Rightarrow>
          if u < 2 then None
          else case (digits (take (u - 1) (drop 1 s)), digits (drop (u + 1) s)) of
            (Some i, Some _) \<Rightarrow> Some \<lparr>sf_raw = s, sf_id = i\<rparr>
          | _ \<Rightarrow> None)"

text \<open>All of a list must parse, as in a loop that returns at the first failure.\<close>

fun parse_all :: "('a \<Rightarrow> 'b option) \<Rightarrow> 'a list \<Rightarrow> 'b list option" where
  "parse_all f [] = Some []"
| "parse_all f (x # xs) =
     (case f x of
        None \<Rightarrow> None
      | Some y \<Rightarrow> (case parse_all f xs of None \<Rightarrow> None | Some ys \<Rightarrow> Some (y # ys)))"

definition sliceRefFields :: "cmd \<Rightarrow> slice_field list option" where
  "sliceRefFields c =
     (let name = cmd_name c; args = cmd_args c in
      if name = ''HSET'' \<or> name = ''HMSET'' then
        (if length args < 4 \<or> odd (length args) then None
         else parse_all parse_slice_field (every_other (drop 2 args)))
      else if name = ''HINCRBY'' \<or> name = ''HSETNX'' then
        (if length args \<noteq> 4 then None else parse_all parse_slice_field [args ! 2])
      else if name = ''HDEL'' then parse_all parse_slice_field (drop 2 args)
      else None)"

definition delSliceField :: "bytes \<Rightarrow> nat option" where
  "delSliceField s =
     (case IndexByte s CHR ''_'' of
        None \<Rightarrow> None
      | Some u \<Rightarrow>
          if u < 1 then None
          else case (digits (take u s), digits (drop (u + 1) s)) of (Some i, Some _) \<Rightarrow> Some i | _ \<Rightarrow> None)"

definition cleanup_member :: "bytes \<Rightarrow> nat option" where
  "cleanup_member r =
     (case IndexByte r CHR '':'' of
        Some i \<Rightarrow>
          if 0 < i then (if digits (drop (i + 1) r) = None then None else digits (take i r))
          else digits r
      | None \<Rightarrow> digits r)"

fun zadd_pairs :: "bytes list \<Rightarrow> bytes list option" where
  "zadd_pairs (s # m # r) =
     (if RedisInt s = None then None else map_option (Cons m) (zadd_pairs r))"
| "zadd_pairs r = Some []"

definition cleanupMembers :: "cmd \<Rightarrow> nat list option" where
  "cleanupMembers c =
     (let args = cmd_args c in
      if cmd_name c = ''ZADD'' then
        (if length args < 4 \<or> odd (length args) then None
         else case zadd_pairs (drop 2 args) of
           None \<Rightarrow> None
         | Some ms \<Rightarrow> parse_all cleanup_member ms)
      else if cmd_name c = ''ZREM'' then parse_all cleanup_member (drop 2 args)
      else None)"

subsection \<open>The scope of a unit\<close>

record slice_scope =
  sc_touched :: "nat list"
  sc_pushed :: "string \<rightharpoonup> nat"
  sc_pushedID :: "nat \<rightharpoonup> nat"
  sc_inc :: "string \<Rightarrow> int"
  sc_dec :: "(string \<times> int) list"
  sc_rewritten :: "(string \<times> trim_op) list"
  sc_removed :: "string \<Rightarrow> int"
  sc_removedIn :: "string \<rightharpoonup> string"
  sc_firstUse :: "nat list"
  sc_read :: bool
  sc_readErr :: "denial option"
  sc_badNumber :: "denial option"

definition empty_scope :: slice_scope where
  "empty_scope = \<lparr>sc_touched = [], sc_pushed = Map.empty, sc_pushedID = Map.empty, sc_inc = (\<lambda>_. 0),
     sc_dec = [], sc_rewritten = [], sc_removed = (\<lambda>_. 0), sc_removedIn = Map.empty, sc_firstUse = [],
     sc_read = False, sc_readErr = None, sc_badNumber = None\<rparr>"

definition scope_increment :: "cmd \<Rightarrow> key_write \<Rightarrow> slice_scope \<Rightarrow> slice_scope" where
  "scope_increment c w sc =
     (if global_shape (w_key w) = ''sliceRef'' \<and> cmd_name c = ''HINCRBY'' \<and> length (cmd_args c) = 4 then
        (case RedisInt (cmd_args c ! 3) of
           None \<Rightarrow> sc\<lparr>sc_badNumber := Some (refuse ReasonUnknownKey
                     (''HINCRBY increment '' @ sanitizeToken (cmd_args c ! 3) @ '' is not a Redis integer''))\<rparr>
         | Some n \<Rightarrow>
             if 0 < n then
               (case sliceRefFields c of
                  None \<Rightarrow> sc
                | Some fs \<Rightarrow>
                    sc\<lparr>sc_inc := fold (\<lambda>f m. m(sf_raw f := wrap64 (m (sf_raw f) + n))) fs (sc_inc sc)\<rparr>)
             else sc)
      else sc)"

definition scope_trim :: "bool \<Rightarrow> cmd \<Rightarrow> key_write \<Rightarrow> slice_scope \<Rightarrow> slice_scope" where
  "scope_trim watched c w sc =
     (if cmd_name c = ''LTRIM'' then
        (if length (cmd_args c) \<noteq> 4 then sc\<lparr>sc_badNumber := Some (refuse ReasonUnknownKey ''LTRIM arity'')\<rparr>
         else case (RedisInt (cmd_args c ! 2), RedisInt (cmd_args c ! 3)) of
           (Some st, Some sp) \<Rightarrow>
             if watched then
               sc\<lparr>sc_rewritten := AList.update (w_raw w) \<lparr>t_del = False, t_start = st, t_stop = sp\<rparr> (sc_rewritten sc)\<rparr>
             else sc
         | _ \<Rightarrow> sc\<lparr>sc_badNumber := Some (refuse ReasonUnknownKey ''LTRIM index is not a Redis integer'')\<rparr>)
      else if \<not> watched then sc
      else if cmd_name c = ''DEL'' \<or> cmd_name c = ''UNLINK'' then
        sc\<lparr>sc_rewritten := AList.update (w_raw w) \<lparr>t_del = True, t_start = 0, t_stop = 0\<rparr> (sc_rewritten sc)\<rparr>
      else sc)"

text \<open>One write; the second component lists the chunk keys written so far.\<close>

definition scope_write ::
    "punit \<Rightarrow> key_write \<Rightarrow> slice_scope \<times> string list \<Rightarrow> slice_scope \<times> string list" where
  "scope_write u w st =
     (case st of (sc0, seen) \<Rightarrow>
        let c = cmd_of u w; sc = scope_increment c w sc0 in
        if k_group (w_key w) = GGc \<or> \<not> k_hasIno (w_key w) then (sc, seen)
        else
          let sc1 = sc\<lparr>sc_touched := k_ino (w_key w) # sc_touched sc\<rparr> in
          if k_shape (w_key w) \<noteq> ShapeChunk then (sc1, seen)
          else if w_raw w \<in> set seen then
            (if map_of (sc_rewritten sc1) (w_raw w) \<noteq> None \<and> cmd_name c \<noteq> ''RPUSH'' \<and> cmd_name c \<noteq> ''LPUSH''
             then sc1\<lparr>sc_rewritten := AList.delete (w_raw w) (sc_rewritten sc1)\<rparr> else sc1, seen)
          else (scope_trim (w_raw w \<in> set (u_watched u)) c w sc1, w_raw w # seen))"

definition newSliceScope :: "punit \<Rightarrow> slice_scope" where
  "newSliceScope u = fst (fold (scope_write u) (u_writes u) (empty_scope, []))"

subsection \<open>Side read\<close>

definition trim_keeps :: "trim_op \<Rightarrow> int \<Rightarrow> int \<Rightarrow> bool" where
  "trim_keeps op n i =
     (if t_del op then False
      else
        let s0 = (if t_start op < 0 then t_start op + n else t_start op);
            e = (if t_stop op < 0 then t_stop op + n else t_stop op);
            s = (if s0 < 0 then 0 else s0)
        in s \<le> i \<and> i \<le> e)"

text \<open>The sliceRef fields of the elements a trim removes, in order.\<close>

definition removed_fields :: "trim_op \<Rightarrow> bytes list \<Rightarrow> string list" where
  "removed_fields op elems =
     concat (map (\<lambda>(i, el).
       if trim_keeps op (int (length elems)) (int i) then []
       else case chunkElem el of
         Some se \<Rightarrow> if se_id se \<noteq> 0 then [sliceKeyOf (se_id se) (se_size se)] else []
       | None \<Rightarrow> []) (enumerate 0 elems))"

definition note_removed :: "string \<Rightarrow> string \<Rightarrow> slice_scope \<Rightarrow> slice_scope" where
  "note_removed key f sc =
     sc\<lparr>sc_removed := (sc_removed sc)(f := sc_removed sc f + 1), sc_removedIn := (sc_removedIn sc)(f \<mapsto> key)\<rparr>"

fun side_chunks ::
    "(int \<Rightarrow> string \<Rightarrow> string + bytes list) \<Rightarrow> int \<Rightarrow> (string \<times> trim_op) list \<Rightarrow> slice_scope \<Rightarrow> denial option \<times> slice_scope" where
  "side_chunks rd db [] sc = (None, sc)"
| "side_chunks rd db ((key, op) # ks) sc =
     (case rd db key of
        Inl e \<Rightarrow> let d = refuse ReasonBGOnly (''side read of '' @ key @ '': '' @ e) in (Some d, sc\<lparr>sc_readErr := Some d\<rparr>)
      | Inr elems \<Rightarrow> side_chunks rd db ks (fold (note_removed key) (removed_fields op elems) sc))"

definition sideRead :: "reads \<Rightarrow> punit \<Rightarrow> slice_scope \<Rightarrow> denial option \<times> slice_scope" where
  "sideRead R u sc =
     (if sc_read sc \<or> sc_readErr sc \<noteq> None then (sc_readErr sc, sc)
      else
        let sc1 = sc\<lparr>sc_read := True, sc_removed := (\<lambda>_. 0), sc_removedIn := Map.empty\<rparr> in
        case (if sc_rewritten sc \<noteq> [] then r_beforeSide R else None) of
          Some (Some e) \<Rightarrow>
            let d = refuse ReasonBGOnly (''WATCH not confirmed before side read: '' @ e) in
            (Some d, sc1\<lparr>sc_readErr := Some d\<rparr>)
        | _ \<Rightarrow>
            (case r_chunks R of
               None \<Rightarrow> (None, sc1)
             | Some rd \<Rightarrow> side_chunks rd (u_db u) (r_order R (sc_rewritten sc1)) sc1))"

subsection \<open>Pushes\<close>

definition link_pushed :: "key_write \<Rightarrow> string \<Rightarrow> nat \<Rightarrow> slice_scope \<Rightarrow> slice_scope" where
  "link_pushed w f i sc =
     sc\<lparr>sc_pushed := (sc_pushed sc)(f \<mapsto> k_ino (w_key w)), sc_pushedID := (sc_pushedID sc)(i \<mapsto> k_ino (w_key w))\<rparr>"

text \<open>Rule (a): whether this is the first link of a slice the principal was given.\<close>

definition first_link :: "reads \<Rightarrow> principal \<Rightarrow> punit \<Rightarrow> nat list \<Rightarrow> nat \<Rightarrow> bool gate" where
  "first_link R p u this i =
     (if u_kind u = UnitTxn \<and> i \<notin> set this then
        (case r_sliceOwner R i of
           Inl e \<Rightarrow> Refused (refuse ReasonBGOnly (''slice store: '' @ e))
         | Inr o' \<Rightarrow>
             if o' = Some (p_name p) then
               (case r_sliceUsed R i of
                  Inl e \<Rightarrow> Refused (refuse ReasonBGOnly (''slice store: '' @ e))
                | Inr used \<Rightarrow> Passed (\<not> used))
             else Passed False)
      else Passed False)"

definition pay_push :: "reads \<Rightarrow> principal \<Rightarrow> punit \<Rightarrow> key_write \<Rightarrow> slice_entry \<Rightarrow> nat list \<Rightarrow> slice_scope \<Rightarrow> slice_scope gate" where
  "pay_push R p u w se this sc =
     (let f = sliceKeyOf (se_id se) (se_size se) in
      gbind (first_link R p u this (se_id se)) (\<lambda>fresh.
        if fresh then Passed (sc\<lparr>sc_firstUse := sc_firstUse sc @ [se_id se]\<rparr>)
        else if 0 < sc_inc sc f then Passed (sc\<lparr>sc_inc := (sc_inc sc)(f := sc_inc sc f - 1)\<rparr>)
        else case sideRead R u sc of
          (Some d, _) \<Rightarrow> Refused d
        | (None, sc1) \<Rightarrow>
            if 0 < sc_removed sc1 f \<and> sc_removedIn sc1 f = Some (w_raw w)
            then Passed (sc1\<lparr>sc_removed := (sc_removed sc1)(f := sc_removed sc1 f - 1)\<rparr>)
            else Refused (refuse ReasonAdminOnly (''slice '' @ sanitizeToken f @
              '' is neither a first link of this principal's allocation nor paid by an increment or a removed copy''))))"

fun push_elems :: "reads \<Rightarrow> principal \<Rightarrow> punit \<Rightarrow> key_write \<Rightarrow> bytes list \<Rightarrow> slice_scope \<times> nat list \<Rightarrow> (slice_scope \<times> nat list) gate" where
  "push_elems R p u w [] st = Passed st"
| "push_elems R p u w (v # vs) (sc, this) =
     (case chunkElem v of
        None \<Rightarrow> Refused (refuse ReasonUnknownKey ''chunk element is not one marshalled slice'')
      | Some se \<Rightarrow>
          if se_id se = 0 then push_elems R p u w vs (sc, this)
          else gbind (pay_push R p u w se this sc) (\<lambda>sc1.
            push_elems R p u w vs
              (link_pushed w (sliceKeyOf (se_id se) (se_size se)) (se_id se) sc1, se_id se # this)))"

fun push_writes :: "reads \<Rightarrow> principal \<Rightarrow> punit \<Rightarrow> key_write list \<Rightarrow> slice_scope \<times> nat list \<Rightarrow> (slice_scope \<times> nat list) gate" where
  "push_writes R p u [] st = Passed st"
| "push_writes R p u (w # ws) st =
     (let c = cmd_of u w in
      if k_shape (w_key w) \<noteq> ShapeChunk then push_writes R p u ws st
      else if cmd_name c \<in> {''RPUSH'', ''LPUSH'', ''RPUSHX'', ''LPUSHX''} then
        gbind (push_elems R p u w (drop 2 (cmd_args c)) st) (push_writes R p u ws)
      else if cmd_name c \<in> {''LTRIM'', ''DEL'', ''UNLINK''} then push_writes R p u ws st
      else Refused (refuse ReasonAdminOnly (cmd_name c @ '' on a chunk list'')))"

definition validatePushes :: "reads \<Rightarrow> principal \<Rightarrow> punit \<Rightarrow> slice_scope \<Rightarrow> slice_scope gate" where
  "validatePushes R p u sc =
     (case sc_badNumber sc of
        Some d \<Rightarrow> Refused d
      | None \<Rightarrow> gbind (push_writes R p u (u_writes u) (sc, [])) (\<lambda>(sc', this). Passed sc'))"

subsection \<open>Decrements and increments\<close>

definition payDecrement :: "reads \<Rightarrow> punit \<Rightarrow> string \<Rightarrow> int \<Rightarrow> slice_scope \<Rightarrow> (nat \<times> slice_scope) gate" where
  "payDecrement R u f n sc =
     (case sideRead R u sc of
        (Some d, _) \<Rightarrow> Refused d
      | (None, sc1) \<Rightarrow>
          let avail = wrap64 (sc_removed sc1 f + sc_inc sc1 f) in
          if avail < n then
            Refused (refuse ReasonBGOnly (sanitizeToken f @ '': '' @ FormatInt n @
              '' decrements but the txn removes only '' @ FormatInt avail @ '' references''))
          else case sc_removedIn sc1 f of
            Some key \<Rightarrow> Passed (k_ino (ParseKey key), sc1)
          | None \<Rightarrow>
              (case sc_pushed sc1 f of
                 Some ino \<Rightarrow> Passed (ino, sc1)
               | None \<Rightarrow> Refused (refuse ReasonBGOnly (''decrement of '' @ sanitizeToken f @
                   '', a slice of no chunk this txn writes''))))"

definition resolve :: "reads \<Rightarrow> punit \<Rightarrow> string \<Rightarrow> slice_scope \<Rightarrow> (nat \<times> slice_scope) gate" where
  "resolve R u f sc =
     (case sc_pushed sc f of
        Some ino \<Rightarrow> Passed (ino, sc)
      | None \<Rightarrow>
          (case sideRead R u sc of
             (Some d, _) \<Rightarrow> Refused d
           | (None, sc1) \<Rightarrow>
               (case sc_removedIn sc1 f of
                  Some key \<Rightarrow> Passed (k_ino (ParseKey key), sc1)
                | None \<Rightarrow> Refused (refuse ReasonBGOnly (''increment of '' @ sanitizeToken f @
                    '', a slice of no chunk this txn writes'')))))"

end
