(* ===== verification/Guard_Check.thy ===== *)
theory Guard_Check
  imports Guard_Slices
begin

section \<open>The guard: the command gate and the key-class gate (guard.go)\<close>

text \<open>
  \<open>Check\<close> is composed of the phases of the source in their order: \<open>command_gate\<close>,
  \<open>refine_trash\<close>, \<open>own_records\<close>, \<open>slice_phase\<close> and \<open>key_gate\<close>.  Each takes the unit as the
  previous one left it.  Only \<open>key_gate\<close> changes the guard's state (the counter windows it
  charges); everything else a unit teaches the guard is an effect that \<open>Commit\<close> applies later.
\<close>

subsection \<open>Attributes and names\<close>

record attr_info =
  a_typ :: nat
  a_parent :: nat

definition parseAttr :: "bytes \<Rightarrow> attr_info option" where
  "parseAttr v =
     (case attrParent v of
        None \<Rightarrow> None
      | Some p \<Rightarrow> Some \<lparr>a_typ = of_char (v ! 1) div 16, a_parent = p\<rparr>)"

definition typeFile :: nat where "typeFile = 1"
definition typeDir :: nat where "typeDir = 2"

definition isTrashIno :: "nat \<Rightarrow> bool" where "isTrashIno n \<longleftrightarrow> TrashInode \<le> n"

definition inoStr :: "nat \<Rightarrow> string" where "inoStr n = FormatUint n"

definition isHSet :: "string \<Rightarrow> bool" where
  "isHSet name \<longleftrightarrow> name = ''HSET'' \<or> name = ''HSETNX'' \<or> name = ''HMSET''"

text \<open>\<^verbatim>\<open>strings.EqualFold\<close> with an ASCII word whose letters have no other case variants.\<close>

definition EqualFold :: "string \<Rightarrow> string \<Rightarrow> bool" where
  "EqualFold s word \<longleftrightarrow> map upper_byte s = map upper_byte word"

subsection \<open>Argument checks\<close>

text \<open>\<^verbatim>\<open>args[3:]\<close> panics on fewer than three arguments: \<^const>\<open>None\<close>.\<close>

definition hasDBOption :: "bytes list \<Rightarrow> bool option" where
  "hasDBOption args =
     (if length args < 3 then None else Some (list_ex (\<lambda>a. EqualFold a ''DB'') (drop 3 args)))"

definition integer_positions :: "string \<Rightarrow> nat list" where
  "integer_positions name =
     (if name \<in> {''INCRBY'', ''DECRBY'', ''EXPIRE'', ''PEXPIRE'', ''EXPIREAT'', ''PEXPIREAT'', ''SETEX'', ''PSETEX''}
      then [2]
      else if name = ''HINCRBY'' then [3]
      else if name = ''LTRIM'' then [2, 3]
      else [])"

definition integerArgsOK :: "cmd \<Rightarrow> bool" where
  "integerArgsOK c =
     list_all (\<lambda>i. i < length (cmd_args c) \<and> RedisInt (cmd_args c ! i) \<noteq> None) (integer_positions (cmd_name c))"

fun linkbench_opts :: "bytes list \<Rightarrow> bool" where
  "linkbench_opts (a # b # r) =
     (let opt = ToUpper a in
      case RedisInt b of
        None \<Rightarrow> linkbench_opts (b # r)
      | Some n \<Rightarrow>
          if n \<le> 0 then linkbench_opts (b # r)
          else if opt = ''EX'' then n \<le> 60
          else if opt = ''PX'' then n \<le> 60000
          else linkbench_opts (b # r))"
| "linkbench_opts r = False"

definition linkBenchOK :: "cmd \<Rightarrow> bool" where
  "linkBenchOK c =
     (if cmd_name c = ''DEL'' \<or> cmd_name c = ''UNLINK'' then True
      else if cmd_name c = ''SET'' then linkbench_opts (drop 3 (cmd_args c))
      else False)"

definition sensitive_words :: "string list" where
  "sensitive_words = [''pass'', ''user'', ''acl'', ''tls'', ''auth'', ''dir'', ''dbfilename'', ''logfile'']"

definition safeConfigGet :: "bytes list \<Rightarrow> bool" where
  "safeConfigGet args =
     (if length args < 3 \<or> \<not> EqualFold (args ! 1) ''GET'' then False
      else list_all (\<lambda>a. let s = ToLower a in
             \<not> list_ex (\<lambda>ch. ch \<in> set ''*?['') s \<and> \<not> list_ex (\<lambda>bad. Contains s bad) sensitive_words)
           (drop 2 args))"

subsection \<open>Step 1: the command gate\<close>

definition command_writes :: "nat \<Rightarrow> cmd \<Rightarrow> key_write list" where
  "command_writes i c =
     map (\<lambda>(k, raw). \<lparr>w_cmd = i, w_key = k, w_raw = raw, w_class = baseClass k (cmd_name c)\<rparr>)
       (zip (c_keys (cmd_info c)) (c_raw (cmd_info c)))"

definition command_gate1 :: "principal \<Rightarrow> nat \<Rightarrow> cmd \<Rightarrow> key_write list gate" where
  "command_gate1 p i c =
     (let name = cmd_name c; admin = (p_kind p = KindAdmin) in
      case c_class (cmd_info c) of
        ClassRead \<Rightarrow> Passed []
      | ClassTxn \<Rightarrow> Passed []
      | ClassPubSub \<Rightarrow> Passed []
      | ClassConn \<Rightarrow> Passed []
      | ClassAdmin \<Rightarrow>
          if name = ''CONFIG'' \<and> \<not> admin \<and> \<not> safeConfigGet (cmd_args c)
          then Refused (refuse ReasonAdminOnly ''CONFIG GET of a sensitive parameter'') else Passed []
      | ClassForbidden \<Rightarrow> Refused (refuse ReasonAdminOnly (name @ '' is refused for every principal''))
      | ClassAdminW \<Rightarrow> if admin then Passed [] else Refused (refuse ReasonAdminOnly (''command '' @ name))
      | ClassUnknown \<Rightarrow> if admin then Passed [] else Refused (refuse ReasonAdminOnly (''command '' @ name))
      | ClassScript \<Rightarrow>
          if serverPrincipal p then Passed []
          else Refused (refuse ReasonAdminOnly (name @ '': script not on the allow-list''))
      | ClassLocal \<Rightarrow> Refused (refuse ReasonUnknownKey (name @ '' inside a transaction''))
      | ClassPublish \<Rightarrow>
          if admin \<or> (2 \<le> length (cmd_args c) \<and> cmd_args c ! 1 = ''juicemount:metadata'') then Passed []
          else Refused (refuse ReasonAdminOnly ''PUBLISH to a channel other than juicemount:metadata'')
      | ClassWrite \<Rightarrow>
          (case (if name = ''COPY'' \<and> \<not> admin then hasDBOption (cmd_args c) else Some False) of
             None \<Rightarrow> Panicked
           | Some True \<Rightarrow> Refused (refuse ReasonAdminOnly ''COPY into another DB'')
           | Some False \<Rightarrow>
               if \<not> admin \<and> \<not> integerArgsOK c then
                 Refused (refuse ReasonUnknownKey (name @ '': an integer argument is not in Redis's canonical form''))
               else Passed (command_writes i c)))"

fun command_gate :: "principal \<Rightarrow> nat \<Rightarrow> cmd list \<Rightarrow> key_write list gate" where
  "command_gate p i [] = Passed []"
| "command_gate p i (c # cs) =
     gbind (command_gate1 p i c) (\<lambda>ws. gbind (command_gate p (Suc i) cs) (\<lambda>rest. Passed (ws @ rest)))"

subsection \<open>The server's clock and WATCH flag\<close>

definition redisNow :: "reads \<Rightarrow> int \<Rightarrow> string + int" where
  "redisNow R db =
     (case r_side R of
        None \<Rightarrow> Inl ''no side connection''
      | Some Do \<Rightarrow>
          (case side_do Do db [''TIME''] of
             Inl e \<Rightarrow> Inl e
           | Inr v \<Rightarrow>
               if length (v_elems v) \<noteq> 2 then Inl ''TIME: unexpected reply''
               else case ParseInt (v_str (v_elems v ! 0)) of
                 (n, None) \<Rightarrow> Inr n
               | (n, Some e) \<Rightarrow> Inl ''strconv.ParseInt''))"

function split_on :: "char \<Rightarrow> string \<Rightarrow> string list" where
  "split_on c s =
     (case IndexByte s c of None \<Rightarrow> [s] | Some i \<Rightarrow> take i s # split_on c (drop (Suc i) s))"
  by pat_completeness auto
termination
  by (relation "measure (\<lambda>(c, s). length s)") (auto dest: IndexByte_Some)

declare split_on.simps [simp del]

text \<open>\<^verbatim>\<open>strings.Fields\<close>.\<close>

function fields_from :: "string \<Rightarrow> string \<Rightarrow> string list" where
  "fields_from cur s =
     (case find (\<lambda>q. q \<noteq> [] \<and> HasPrefix s q) space_runes of
        Some q \<Rightarrow> (if cur = [] then [] else [cur]) @ fields_from [] (drop (length q) s)
      | None \<Rightarrow>
          (case s of
             [] \<Rightarrow> if cur = [] then [] else [cur]
           | x # xs \<Rightarrow> fields_from (cur @ [x]) xs))"
  by pat_completeness auto
termination
  by (relation "measure (\<lambda>(cur, s). length s)")
    (auto simp: find_Some_iff HasPrefix_def intro!: diff_less dest: take_eq_Nil [THEN iffD2])

declare fields_from.simps [simp del]

definition Fields :: "string \<Rightarrow> string list" where "Fields s = fields_from [] s"

definition flags_of :: "string list \<Rightarrow> string option" where
  "flags_of fs = map_option (drop 6) (find (\<lambda>f. HasPrefix f ''flags='') fs)"

definition watchDirty :: "reads \<Rightarrow> int \<Rightarrow> (int \<Rightarrow> bytes list \<Rightarrow> string + resp_value) \<Rightarrow> string + bool" where
  "watchDirty R db Do =
     (if r_upstreamID R = 0 then Inl ''upstream client id not known''
      else
        let i = FormatUint (r_upstreamID R) in
        case side_do Do db [''CLIENT'', ''LIST'', ''ID'', i] of
          Inl e \<Rightarrow> Inl e
        | Inr v \<Rightarrow>
            (case find (\<lambda>fs. fs \<noteq> [] \<and> hd fs = ''id='' @ i) (map Fields (split_on LF (v_str v))) of
               None \<Rightarrow> Inl ''upstream connection not listed''
             | Some fs \<Rightarrow>
                 (case flags_of fs of
                    None \<Rightarrow> Inl ''upstream connection listed without flags''
                  | Some fl \<Rightarrow> Inr (Contains fl ''d''))))"

subsection \<open>Hourly trash directories\<close>

text \<open>\<^verbatim>\<open>time.Parse\<close> and \<^verbatim>\<open>Format\<close> with the layout \<^verbatim>\<open>2006-01-02-15\<close>, as seconds since the epoch: the
  names that parse and print back to themselves.\<close>

definition is_leap :: "nat \<Rightarrow> bool" where
  "is_leap y \<longleftrightarrow> 4 dvd y \<and> (\<not> 100 dvd y \<or> 400 dvd y)"

definition month_days :: "nat \<Rightarrow> nat \<Rightarrow> nat" where
  "month_days y m = (if m = 2 then (if is_leap y then 29 else 28) else if m \<in> {4, 6, 9, 11} then 30 else 31)"

definition days_before :: "nat \<Rightarrow> nat \<Rightarrow> nat \<Rightarrow> int" where
  "days_before y m d =
     int (365 * y + (y + 3) div 4 + (y + 399) div 400) - int ((y + 99) div 100)
     + int (sum_list (map (month_days y) [1 ..< m])) + int d - 1 - 719528"

definition parse_hour :: "string \<Rightarrow> int option" where
  "parse_hour s =
     (if length s \<noteq> 13 \<or> s ! 4 \<noteq> CHR ''-'' \<or> s ! 7 \<noteq> CHR ''-'' \<or> s ! 10 \<noteq> CHR ''-'' \<or>
         \<not> list_all is_digit (take 4 s @ take 2 (drop 5 s) @ take 2 (drop 8 s) @ drop 11 s) then None
      else
        let y = dec_value 0 (take 4 s); m = dec_value 0 (take 2 (drop 5 s));
            d = dec_value 0 (take 2 (drop 8 s)); h = dec_value 0 (drop 11 s) in
        if m < 1 \<or> 12 < m \<or> d < 1 \<or> month_days y m < d \<or> 23 < h then None
        else Some (3600 * (24 * days_before y m d + int h)))"

definition trashHourSkew :: int where "trashHourSkew = 3600"

definition hourly_refuse :: "string \<Rightarrow> 'a gate" where
  "hourly_refuse detail =
     Refused (refuse ReasonBGOnly (''trash root write is not a new hourly directory: '' @ detail))"

record trash_root =
  tr_roots :: nat
  tr_field :: string
  tr_hourly :: nat
  tr_hourAt :: int

fun trash_roots :: "punit \<Rightarrow> key_write list \<Rightarrow> trash_root \<Rightarrow> trash_root gate" where
  "trash_roots u [] t = Passed t"
| "trash_roots u (w # ws) t =
     (if k_shape (w_key w) \<noteq> ShapeDentry \<or> k_ino (w_key w) \<noteq> TrashInode then trash_roots u ws t
      else
        let c = cmd_of u w in
        if (cmd_name c \<noteq> ''HSET'' \<and> cmd_name c \<noteq> ''HSETNX'') \<or> length (cmd_args c) \<noteq> 4
        then hourly_refuse (cmd_name c @ '' of more or other than one field'')
        else case parse_hour (cmd_args c ! 2) of
          None \<Rightarrow> hourly_refuse (''name '' @ sanitizeToken (cmd_args c ! 2))
        | Some ts \<Rightarrow>
            (case entryInode (cmd_args c ! 3) of
               None \<Rightarrow> hourly_refuse ''the entry is not a trash directory''
             | Some ino \<Rightarrow>
                 if entryType (cmd_args c ! 3) \<noteq> Some typeDir \<or> ino \<le> TrashInode
                 then hourly_refuse ''the entry is not a trash directory''
                 else trash_roots u ws \<lparr>tr_roots = tr_roots t + 1, tr_field = cmd_args c ! 2,
                        tr_hourly = ino, tr_hourAt = ts\<rparr>))"

fun hourly_attrs :: "punit \<Rightarrow> nat \<Rightarrow> key_write list \<Rightarrow> nat gate" where
  "hourly_attrs u h [] = Passed 0"
| "hourly_attrs u h (w # ws) =
     (if \<not> k_hasIno (w_key w) \<or> k_ino (w_key w) \<noteq> h then hourly_attrs u h ws
      else
        let c = cmd_of u w in
        if k_shape (w_key w) \<noteq> ShapeInode \<or> cmd_name c \<noteq> ''SET'' \<or> length (cmd_args c) \<noteq> 3
        then hourly_refuse (cmd_name c @ '' '' @ w_raw w)
        else case parseAttr (cmd_args c ! 2) of
          None \<Rightarrow> hourly_refuse ''the new inode's attr is not a directory in the trash root''
        | Some a \<Rightarrow>
            if a_typ a \<noteq> typeDir \<or> a_parent a \<noteq> TrashInode
            then hourly_refuse ''the new inode's attr is not a directory in the trash root''
            else gbind (hourly_attrs u h ws) (\<lambda>n. Passed (n + 1)))"

definition trashRootKey :: string where "trashRootKey = ''d'' @ inoStr TrashInode"

text \<open>The side reads: the field must not exist yet, or Redis must already have doomed the transaction.\<close>

definition hourly_side :: "reads \<Rightarrow> punit \<Rightarrow> string \<Rightarrow> nat \<Rightarrow> nat gate" where
  "hourly_side R u field hourly =
     (case (trashRootKey \<in> set (u_watched u), r_side R, r_beforeSide R) of
        (True, Some Do, Some bs) \<Rightarrow>
          (case bs of
             Some e \<Rightarrow> hourly_refuse (''WATCH not confirmed before side read: '' @ e)
           | None \<Rightarrow>
               (case side_do Do (u_db u) [''HEXISTS'', trashRootKey, field] of
                  Inl e \<Rightarrow> hourly_refuse (''side read: '' @ e)
                | Inr v \<Rightarrow>
                    if v_type v \<noteq> CHR '':'' then hourly_refuse ''side read: unexpected HEXISTS reply''
                    else if v_int v \<noteq> 0 \<and> watchDirty R (u_db u) Do \<noteq> Inr True
                    then hourly_refuse (''hour '' @ sanitizeToken field @ '' already exists'')
                    else Passed hourly))
      | _ \<Rightarrow> hourly_refuse ''the trash root is not WATCHed'')"

definition hourlyTrashCreate :: "reads \<Rightarrow> punit \<Rightarrow> nat gate" where
  "hourlyTrashCreate R u =
     gbind (trash_roots u (u_writes u) \<lparr>tr_roots = 0, tr_field = [], tr_hourly = 0, tr_hourAt = 0\<rparr>) (\<lambda>t.
       if tr_roots t \<noteq> 1 then hourly_refuse (FormatUint (tr_roots t) @ '' writes to the trash root'')
       else if u_trashAlloc u = 0 \<or> tr_hourly t - TrashInode \<noteq> u_trashAlloc u then
         hourly_refuse (''inode '' @ inoStr (tr_hourly t) @
           '' is not the one this connection's INCR nextTrash allocated'')
       else gbind (hourly_attrs u (tr_hourly t) (u_writes u)) (\<lambda>attrs.
         if attrs \<noteq> 1 then hourly_refuse (''the txn does not create inode '' @ inoStr (tr_hourly t))
         else case redisNow R (u_db u) of
           Inl e \<Rightarrow> hourly_refuse (''redis TIME: '' @ e)
         | Inr now \<Rightarrow>
             if \<not> (now - trashHourSkew < tr_hourAt t + 3600) \<or> now + trashHourSkew < tr_hourAt t
             then hourly_refuse (''hour '' @ sanitizeToken (tr_field t) @ '' is not the server's current hour'')
             else hourly_side R u (tr_field t) (tr_hourly t)))"

end
