(* ===== verification/Guard_Gates.thy ===== *)
theory Guard_Gates
  imports Guard_Check
begin

section \<open>The guard: unit context, own records, sessions, and Check (guard.go)\<close>

text \<open>The phases of \<^verbatim>\<open>Guard.Check\<close> after the command gate, and their composition.\<close>

subsection \<open>Step 2a: trash keys depend on the rest of the unit\<close>

definition nonTrashDentry :: "punit \<Rightarrow> bool" where
  "nonTrashDentry u = list_ex (\<lambda>w. k_shape (w_key w) = ShapeDentry \<and> \<not> k_trash (w_key w)) (u_writes u)"

definition trashRootHSet :: "punit \<Rightarrow> bool" where
  "trashRootHSet u = list_ex (\<lambda>w. k_shape (w_key w) = ShapeDentry \<and> k_trash (w_key w) \<and>
     k_ino (w_key w) = TrashInode \<and> isHSet (cmd_name (cmd_of u w))) (u_writes u)"

definition refine_write :: "bool \<Rightarrow> nat \<Rightarrow> punit \<Rightarrow> key_write \<Rightarrow> key_write" where
  "refine_write trusted hourly u w =
     (let k = w_key w; name = cmd_name (cmd_of u w) in
      if \<not> k_trash k \<or> (k_group k \<noteq> GInode \<and> k_group k \<noteq> GDentry) then w
      else w\<lparr>w_class :=
        (if nonTrashDentry u \<and> k_shape k = ShapeDentry \<and> k_ino k = TrashInode then KCBG
         else if nonTrashDentry u \<and> u_kind u = UnitTxn then KCProject
         else if u_kind u = UnitBare \<and> name = ''SETNX'' \<and> k_shape k = ShapeInode \<and> k_ino k = TrashInode
           then KCTrashCreate
         else if trusted \<and> u_kind u = UnitTxn \<and> trashRootHSet u \<and>
             ((k_shape k = ShapeDentry \<and> k_ino k = TrashInode \<and> isHSet name) \<or>
              (k_shape k = ShapeInode \<and> (name = ''SET'' \<or> name = ''SETNX''))) then KCTrashCreate
         else if hourly \<noteq> 0 \<and> ((k_shape k = ShapeDentry \<and> k_ino k = TrashInode) \<or>
              (k_shape k = ShapeInode \<and> k_ino k = hourly)) then KCTrashCreate
         else KCBG)\<rparr>)"

definition refine_trash :: "reads \<Rightarrow> principal \<Rightarrow> punit \<Rightarrow> punit gate" where
  "refine_trash R p u =
     (let trusted = (p_kind p = KindAdmin \<or> p_kind p = KindBG) in
      gbind (if u_kind u = UnitTxn \<and> \<not> nonTrashDentry u \<and> trashRootHSet u \<and> \<not> trusted then
               (if p_kind p = KindWebDAV then Refused (refuse ReasonPrincipalReadonly ''trash directory create'')
                else hourlyTrashCreate R u)
             else Passed 0)
        (\<lambda>hourly. Passed (u\<lparr>u_writes := map (refine_write trusted hourly u) (u_writes u)\<rparr>)))"

subsection \<open>Dropping a record the principal queued itself\<close>

definition set_class :: "nat \<Rightarrow> key_class \<Rightarrow> punit \<Rightarrow> punit" where
  "set_class i cl u = u\<lparr>u_writes := (u_writes u)[i := (u_writes u ! i)\<lparr>w_class := cl\<rparr>]\<rparr>"

definition SliceDropScript :: string where
  "SliceDropScript =
     ''local n = 0'' @ [LF] @ ''for _, f in ipairs(ARGV) do'' @ [LF]
     @ ''  local v = tonumber(redis.call('HGET', KEYS[1], f))'' @ [LF]
     @ ''  if v ~= nil and v <= 0 then n = n + redis.call('HDEL', KEYS[1], f) end'' @ [LF]
     @ ''end'' @ [LF] @ ''return n''"

fun slice_drop_mine :: "reads \<Rightarrow> principal \<Rightarrow> guard \<Rightarrow> slice_field list \<Rightarrow> unit gate" where
  "slice_drop_mine R p g [] = Passed ()"
| "slice_drop_mine R p g (f # fs) =
     (let notmine = refuse ReasonBGOnly (''HDEL '' @ sanitizeToken (sf_raw f) @
            '': not a slice this principal dropped or allocated'') in
      if (case map_of (g_dropped g) (sf_raw f) of Some o' \<Rightarrow> o' | None \<Rightarrow> []) = p_name p
      then slice_drop_mine R p g fs
      else case r_sliceOwner R (sf_id f) of
        Inl e \<Rightarrow> Refused (refuse ReasonBGOnly (''slice store: '' @ e))
      | Inr o' \<Rightarrow> if o' = Some (p_name p) then slice_drop_mine R p g fs else Refused notmine)"

definition ownSliceDrop :: "reads \<Rightarrow> principal \<Rightarrow> guard \<Rightarrow> punit \<Rightarrow> (guard_effect list \<times> punit) gate" where
  "ownSliceDrop R p g u =
     (case sliceRefFields (u_cmds u ! 0) of
        None \<Rightarrow> Refused (refuse ReasonBGOnly ''HDEL sliceRef: unparsable fields'')
      | Some fs \<Rightarrow>
          if fs = [] then Refused (refuse ReasonBGOnly ''HDEL sliceRef: unparsable fields'')
          else gbind (slice_drop_mine R p g fs) (\<lambda>_.
            let fields = map sf_raw fs in
            Passed ([no_effect\<lparr>ge_dropDone := fields\<rparr>],
              u\<lparr>u_rewrite := Some ([''EVAL'', SliceDropScript, ''1'', ''sliceRef''] @ fields)\<rparr>)))"

definition slice_rollback :: "reads \<Rightarrow> principal \<Rightarrow> cmd \<Rightarrow> guard_effect list gate" where
  "slice_rollback R p c =
     (case sliceRefFields c of
        Some [f] \<Rightarrow>
          if length (cmd_args c) \<noteq> 4 \<or> cmd_args c ! 3 \<noteq> ''-1'' then
            Refused (refuse ReasonBGOnly ''bare sliceRef write is not a compaction rollback'')
          else (case r_sliceOwner R (sf_id f) of
            Inl e \<Rightarrow> Refused (refuse ReasonBGOnly (''slice store: '' @ e))
          | Inr o' \<Rightarrow>
              (case r_sliceUsed R (sf_id f) of
                 Inl e \<Rightarrow> Refused (refuse ReasonBGOnly (''slice store: '' @ e))
               | Inr used \<Rightarrow>
                   if o' \<noteq> Some (p_name p) \<or> used then
                     Refused (refuse ReasonBGOnly
                       ''bare sliceRef write is not the rollback of an unlinked slice this principal allocated'')
                   else Passed [no_effect\<lparr>ge_sliceUsed := [sf_id f], ge_usedPersist := True\<rparr>]))
      | _ \<Rightarrow> Refused (refuse ReasonBGOnly ''bare sliceRef write is not a compaction rollback''))"

fun pending_mine :: "principal \<Rightarrow> guard \<Rightarrow> bytes list \<Rightarrow> guard_effect list gate" where
  "pending_mine p g [] = Passed []"
| "pending_mine p g (m # ms) =
     (if (case map_of (g_pendingDel g) m of Some o' \<Rightarrow> o' | None \<Rightarrow> []) \<noteq> p_name p then
        Refused (refuse ReasonBGOnly (''delfiles entry '' @ sanitizeToken m @ '' was not queued by this principal''))
      else gbind (pending_mine p g ms) (\<lambda>es. Passed (no_effect\<lparr>ge_delKey := m\<rparr> # es)))"

definition ownDelfilesDrop :: "principal \<Rightarrow> guard \<Rightarrow> cmd \<Rightarrow> guard_effect list gate" where
  "ownDelfilesDrop p g c =
     (if length (cmd_args c) < 3 then Refused (refuse ReasonBGOnly ''ZREM delfiles'')
      else pending_mine p g (drop 2 (cmd_args c)))"

definition own_records :: "reads \<Rightarrow> principal \<Rightarrow> guard \<Rightarrow> punit \<Rightarrow> (guard_effect list \<times> punit) gate" where
  "own_records R p g u =
     (if u_kind u = UnitBare \<and> p_kind p \<noteq> KindAdmin \<and> p_kind p \<noteq> KindBG \<and> length (u_writes u) = 1 then
        let s = global_shape (w_key (u_writes u ! 0)); c = u_cmds u ! 0 in
        if s = ''sliceRef'' \<and> cmd_name c = ''HDEL'' then
          gbind (ownSliceDrop R p g u) (\<lambda>(es, u'). Passed (es, set_class 0 KCOwnRecord u'))
        else if s = ''sliceRef'' \<and> cmd_name c = ''HINCRBY'' then
          gbind (slice_rollback R p c) (\<lambda>es. Passed (es, set_class 0 KCOwnRecord u))
        else if s = ''delfiles'' \<and> cmd_name c = ''ZREM'' then
          gbind (ownDelfilesDrop p g c) (\<lambda>es. Passed (es, set_class 0 KCOwnRecord u))
        else Passed ([], u)
      else Passed ([], u))"

subsection \<open>Cleanup records of a project transaction\<close>

record anchor_state =
  an_scope :: slice_scope
  an_refs :: "nat list"
  an_effects :: "guard_effect list"

definition add_ref :: "nat \<Rightarrow> anchor_state \<Rightarrow> anchor_state" where
  "add_ref ino st = st\<lparr>an_refs := List.insert ino (an_refs st)\<rparr>"

definition add_dec :: "string \<Rightarrow> int \<Rightarrow> slice_scope \<Rightarrow> slice_scope" where
  "add_dec f n sc =
     sc\<lparr>sc_dec := AList.update f (wrap64 ((case map_of (sc_dec sc) f of Some m \<Rightarrow> m | None \<Rightarrow> 0) + n)) (sc_dec sc)\<rparr>"

fun anchor_members :: "string \<Rightarrow> nat list \<Rightarrow> anchor_state \<Rightarrow> anchor_state gate" where
  "anchor_members raw [] st = Passed st"
| "anchor_members raw (ino # is) st =
     (if ino \<notin> set (sc_touched (an_scope st)) then
        Refused (refuse ReasonBGOnly (raw @ '' names inode '' @ FormatUint ino @ '' this txn does not write''))
      else anchor_members raw is (add_ref ino st))"

definition anchor_delfiles :: "cmd \<Rightarrow> key_write \<Rightarrow> anchor_state \<Rightarrow> anchor_state gate" where
  "anchor_delfiles c w st =
     (case cleanupMembers c of
        None \<Rightarrow> Refused (refuse ReasonBGOnly (cmd_name c @ '' '' @ w_raw w @ '': unparsable members''))
      | Some members \<Rightarrow>
          if members = [] then Refused (refuse ReasonBGOnly (cmd_name c @ '' '' @ w_raw w @ '': unparsable members''))
          else gbind (anchor_members (w_raw w) members st) (\<lambda>st1.
            Passed (if global_shape (w_key w) = ''delfiles'' \<and> cmd_name c = ''ZADD'' then
                st1\<lparr>an_effects := an_effects st1 @
                  map (\<lambda>m. no_effect\<lparr>ge_delKey := m, ge_delAdd := True\<rparr>) (every_other (drop 3 (cmd_args c)))\<rparr>
              else st1)))"

definition anchor_field :: "reads \<Rightarrow> punit \<Rightarrow> cmd \<Rightarrow> key_write \<Rightarrow> slice_field \<Rightarrow> anchor_state \<Rightarrow> anchor_state gate" where
  "anchor_field R u c w f st =
     (let sc = an_scope st in
      if cmd_name c = ''HSET'' \<and> length (cmd_args c) = 4 \<and> cmd_args c ! 3 = ''0'' then
        (case sc_pushed sc (sf_raw f) of
           None \<Rightarrow> Refused (refuse ReasonBGOnly (''sliceRef 0 for '' @ sanitizeToken (sf_raw f) @
                     '', which this txn does not push''))
         | Some ino \<Rightarrow> Passed (add_ref ino st\<lparr>an_effects := an_effects st @
              [no_effect\<lparr>ge_zeroKey := sf_raw f, ge_zeroAdd := True, ge_zero := \<lparr>z_owner = [], z_ino = ino\<rparr>\<rparr>]\<rparr>))
      else if cmd_name c = ''HINCRBY'' then
        (case RedisInt (cmd_args c ! 3) of
           None \<Rightarrow> Refused (refuse ReasonBGOnly (''sliceRef HINCRBY '' @ sanitizeToken (cmd_args c ! 3)))
         | Some n \<Rightarrow>
             if n = 0 \<or> n = min_i64 then
               Refused (refuse ReasonBGOnly (''sliceRef HINCRBY '' @ sanitizeToken (cmd_args c ! 3)))
             else if n < 0 then Passed (st\<lparr>an_scope := add_dec (sf_raw f) (- n) sc\<rparr>)
             else gbind (resolve R u (sf_raw f) sc) (\<lambda>(ino, sc1). Passed (add_ref ino (st\<lparr>an_scope := sc1\<rparr>))))
      else Refused (refuse ReasonBGOnly (cmd_name c @ '' '' @ w_raw w @ '' resets a reference count'')))"

fun anchor_fields :: "reads \<Rightarrow> punit \<Rightarrow> cmd \<Rightarrow> key_write \<Rightarrow> slice_field list \<Rightarrow> anchor_state \<Rightarrow> anchor_state gate" where
  "anchor_fields R u c w [] st = Passed st"
| "anchor_fields R u c w (f # fs) st = gbind (anchor_field R u c w f st) (anchor_fields R u c w fs)"

definition anchor_sliceRef :: "reads \<Rightarrow> punit \<Rightarrow> cmd \<Rightarrow> key_write \<Rightarrow> anchor_state \<Rightarrow> anchor_state gate" where
  "anchor_sliceRef R u c w st =
     (case sliceRefFields c of
        None \<Rightarrow> Refused (refuse ReasonBGOnly (cmd_name c @ '' '' @ w_raw w @ '': unparsable fields''))
      | Some fs \<Rightarrow>
          if fs = [] then Refused (refuse ReasonBGOnly (cmd_name c @ '' '' @ w_raw w @ '': unparsable fields''))
          else anchor_fields R u c w fs st)"

text \<open>The 12-byte records of a delayed-slice value, each a deferred decrement.\<close>

function delslice_records :: "bytes \<Rightarrow> string list" where
  "delslice_records b =
     (if b = [] then []
      else sliceKeyOf (be_value (take 8 b)) (be_value (take 4 (drop 8 b))) # delslice_records (drop 12 b))"
  by pat_completeness auto
termination
  by (relation "measure length") auto

declare delslice_records.simps [simp del]

definition anchor_delSlices :: "cmd \<Rightarrow> key_write \<Rightarrow> anchor_state \<Rightarrow> anchor_state gate" where
  "anchor_delSlices c w st =
     (if cmd_name c \<noteq> ''HSET'' \<or> length (cmd_args c) \<noteq> 4 then Refused (refuse ReasonBGOnly (cmd_name c @ '' '' @ w_raw w))
      else
        let v = cmd_args c ! 3 in
        case delSliceField (cmd_args c ! 2) of
          None \<Rightarrow> Refused (refuse ReasonBGOnly ''delSlices: unparsable record'')
        | Some i \<Rightarrow>
            if v = [] \<or> length v mod 12 \<noteq> 0 then Refused (refuse ReasonBGOnly ''delSlices: unparsable record'')
            else case sc_pushedID (an_scope st) i of
              None \<Rightarrow> Refused (refuse ReasonBGOnly (''delSlices field names slice '' @ FormatUint i @
                        '' this txn does not push''))
            | Some ino \<Rightarrow>
                Passed (add_ref ino (st\<lparr>an_scope := fold (\<lambda>f. add_dec f 1) (delslice_records v) (an_scope st)\<rparr>)))"

fun anchor_writes :: "reads \<Rightarrow> punit \<Rightarrow> key_write list \<Rightarrow> anchor_state \<Rightarrow> (key_write list \<times> anchor_state) gate" where
  "anchor_writes R u [] st = Passed ([], st)"
| "anchor_writes R u (w # ws) st =
     (if k_group (w_key w) \<noteq> GGc then
        gbind (anchor_writes R u ws st) (\<lambda>(ws', st'). Passed (w # ws', st'))
      else
        let c = cmd_of u w; s = global_shape (w_key w) in
        gbind (if s = ''delfiles'' \<or> s = ''detachedNodes'' then anchor_delfiles c w st
               else if s = ''sliceRef'' then anchor_sliceRef R u c w st
               else if s = ''delSlices'' then anchor_delSlices c w st
               else Refused (refuse ReasonBGOnly (cmd_name c @ '' '' @ w_raw w)))
          (\<lambda>st1. gbind (anchor_writes R u ws st1) (\<lambda>(ws', st'). Passed (w\<lparr>w_class := KCProject\<rparr> # ws', st'))))"

fun pay_all :: "reads \<Rightarrow> punit \<Rightarrow> (string \<times> int) list \<Rightarrow> anchor_state \<Rightarrow> anchor_state gate" where
  "pay_all R u [] st = Passed st"
| "pay_all R u ((f, n) # ds) st =
     gbind (payDecrement R u f n (an_scope st)) (\<lambda>(ino, sc1). pay_all R u ds (add_ref ino (st\<lparr>an_scope := sc1\<rparr>)))"

text \<open>The map of decrements is paid in the order of its entries; each payment only reads the
  counts, so another order admits the same units and yields the same set of inodes.\<close>

definition anchorCleanup :: "reads \<Rightarrow> punit \<Rightarrow> slice_scope \<Rightarrow> (guard_effect list \<times> punit) gate" where
  "anchorCleanup R u sc =
     gbind (anchor_writes R u (u_writes u) \<lparr>an_scope = sc, an_refs = [], an_effects = []\<rparr>) (\<lambda>(ws, st).
       gbind (pay_all R u (sc_dec (an_scope st)) st) (\<lambda>st1.
         Passed (an_effects st1, u\<lparr>u_writes := ws, u_refInodes := u_refInodes u @ an_refs st1\<rparr>)))"

fun zero_fields :: "principal \<Rightarrow> guard \<Rightarrow> bytes list \<Rightarrow> (guard_effect list \<times> nat list) gate" where
  "zero_fields p g [] = Passed ([], [])"
| "zero_fields p g (f # fs) =
     (case map_of (g_zeroRefs g) f of
        Some z \<Rightarrow>
          if z_owner z = p_name p then
            gbind (zero_fields p g fs) (\<lambda>(es, is). Passed (no_effect\<lparr>ge_zeroKey := f\<rparr> # es, z_ino z # is))
          else Refused (refuse ReasonBGOnly (''sliceRef '' @ sanitizeToken f @ '' is not a zero-ref this principal created''))
      | None \<Rightarrow> Refused (refuse ReasonBGOnly (''sliceRef '' @ sanitizeToken f @ '' is not a zero-ref this principal created'')))"

fun zero_writes :: "principal \<Rightarrow> guard \<Rightarrow> punit \<Rightarrow> key_write list \<Rightarrow> (guard_effect list \<times> nat list) gate" where
  "zero_writes p g u [] = Passed ([], [])"
| "zero_writes p g u (w # ws) =
     (let c = cmd_of u w in
      if global_shape (w_key w) \<noteq> ''sliceRef'' \<or> cmd_name c \<noteq> ''HDEL'' \<or> length (cmd_args c) < 3
      then Refused (refuse ReasonBGOnly (cmd_name c @ '' '' @ w_raw w))
      else gbind (zero_fields p g (drop 2 (cmd_args c))) (\<lambda>(es, is).
        gbind (zero_writes p g u ws) (\<lambda>(es', is'). Passed (es @ es', is @ is'))))"

definition ownZeroRefDrop :: "principal \<Rightarrow> guard \<Rightarrow> punit \<Rightarrow> (guard_effect list \<times> punit) gate" where
  "ownZeroRefDrop p g u =
     gbind (zero_writes p g u (u_writes u)) (\<lambda>(es, is).
       Passed (es, u\<lparr>u_writes := map (\<lambda>w. w\<lparr>w_class := KCProject\<rparr>) (u_writes u), u_refInodes := u_refInodes u @ is\<rparr>))"

definition own_effect :: "principal \<Rightarrow> guard_effect \<Rightarrow> guard_effect" where
  "own_effect p e =
     (let e1 = e\<lparr>ge_delOwn := p_name p\<rparr> in
      if ge_zeroAdd e1 then e1\<lparr>ge_zero := (ge_zero e1)\<lparr>z_owner := p_name p\<rparr>\<rparr> else e1)"

definition slice_phase :: "reads \<Rightarrow> principal \<Rightarrow> guard \<Rightarrow> guard_effect list \<Rightarrow> punit \<Rightarrow> (guard_effect list \<times> punit) gate" where
  "slice_phase R p g es u =
     (if p_kind p = KindAdmin \<or> p_kind p = KindBG then Passed (es, u)
      else gbind (validatePushes R p u (newSliceScope u)) (\<lambda>sc.
        gbind (if list_ex (\<lambda>w. k_group (w_key w) = GGc) (u_writes u) \<and> u_kind u = UnitTxn then
                 gbind (if list_ex (\<lambda>w. w_class w = KCProject) (u_writes u) then anchorCleanup R u sc
                        else ownZeroRefDrop p g u)
                   (\<lambda>(es', u'). Passed (map (own_effect p) es', u'))
               else Passed (es, u))
          (\<lambda>(es1, u1). Passed (if sc_firstUse sc \<noteq> [] then es1 @ [no_effect\<lparr>ge_sliceUsed := sc_firstUse sc\<rparr>] else es1, u1))))"

subsection \<open>Sessions\<close>

definition sessionMemberWritten :: "punit \<Rightarrow> shape \<Rightarrow> string \<Rightarrow> nat option" where
  "sessionMemberWritten u sh m =
     (if sh = ShapeSession then
        (case digits m of
           None \<Rightarrow> None
         | Some n \<Rightarrow>
             if isTrashIno n then None
             else if list_ex (\<lambda>x. k_shape (w_key x) = ShapeInode \<and> k_ino (w_key x) = n \<and>
                 cmd_name (cmd_of u x) = ''SET'') (u_writes u) then Some n
             else None)
      else
        let k = ParseKey m in
        if (k_shape k \<noteq> ShapeFlock \<and> k_shape k \<noteq> ShapePlock) \<or> k_trash k then None
        else if list_ex (\<lambda>x. w_raw x = m \<and> cmd_name (cmd_of u x) = ''HSET'') (u_writes u) then Some (k_ino k)
        else None)"

fun session_members :: "key_write \<Rightarrow> bytes list \<Rightarrow> punit \<Rightarrow> punit gate" where
  "session_members w [] u = Passed u"
| "session_members w (m # ms) u =
     (case sessionMemberWritten u (k_shape (w_key w)) m of
        None \<Rightarrow> Refused (refuse ReasonBGOnly (''SADD '' @ w_raw w @ '' names '' @ sanitizeToken m @
                  '', which this txn does not write''))
      | Some n \<Rightarrow>
          session_members w ms
            (if k_shape (w_key w) = ShapeSession then u\<lparr>u_refInodes := u_refInodes u @ [n]\<rparr> else u))"

definition sessionSetGate :: "punit \<Rightarrow> cmd \<Rightarrow> key_write \<Rightarrow> punit gate" where
  "sessionSetGate u c w =
     (if cmd_name c = ''SREM'' then Passed u
      else if cmd_name c \<noteq> ''SADD'' then Refused (refuse ReasonBGOnly (cmd_name c @ '' '' @ w_raw w))
      else if u_kind u \<noteq> UnitTxn \<or> length (cmd_args c) < 3 then
        Refused (refuse ReasonBGOnly (''SADD '' @ w_raw w @ '' outside the txn that writes its members''))
      else session_members w (drop 2 (cmd_args c)) u)"

definition heartbeatGate :: "reads \<Rightarrow> punit \<Rightarrow> cmd \<Rightarrow> key_write \<Rightarrow> punit gate" where
  "heartbeatGate R u c w =
     (if global_shape (w_key w) \<noteq> ''allSessions'' \<or> u_kind u \<noteq> UnitBare \<or> length (cmd_args c) \<noteq> 4 then
        Refused (refuse ReasonBGOnly (''ZADD '' @ w_raw w @ '' is not a session heartbeat''))
      else case RedisInt (cmd_args c ! 2) of
        None \<Rightarrow> Refused (refuse ReasonBGOnly (''heartbeat score '' @ sanitizeToken (cmd_args c ! 2) @ '' is not whole seconds''))
      | Some score \<Rightarrow>
          if (case redisNow R (u_db u) of Inl e \<Rightarrow> False | Inr now \<Rightarrow> score \<le> now) then
            Refused (refuse ReasonBGOnly ''heartbeat score is not ahead of the server clock'')
          else Passed (u\<lparr>u_rewrite := Some [''ZADD'', w_raw w, ''GT'', cmd_args c ! 2, cmd_args c ! 3]\<rparr>))"

fun sessions_owned :: "reads \<Rightarrow> principal \<Rightarrow> nat list \<Rightarrow> unit gate" where
  "sessions_owned R p [] = Passed ()"
| "sessions_owned R p (sid # sids) =
     (case r_sessOwner R sid of
        Inl e \<Rightarrow> Refused (refuse ReasonBGOnly (''session store: '' @ e))
      | Inr None \<Rightarrow> Refused (refuse ReasonBGOnly (''session '' @ FormatUint sid @ '' was not allocated through this proxy''))
      | Inr (Some owner) \<Rightarrow>
          if owner \<noteq> p_name p then Refused (refuse ReasonBGOnly (''session '' @ FormatUint sid @ '' belongs to '' @ owner))
          else sessions_owned R p sids)"

definition sessionGate :: "reads \<Rightarrow> principal \<Rightarrow> punit \<Rightarrow> cmd \<Rightarrow> key_write \<Rightarrow> (guard_effect list \<times> punit) gate" where
  "sessionGate R p u c w =
     (let name = cmd_name c; sids = sessionIDs name (w_key w) (cmd_args c);
          effects = (if global_shape (w_key w) = ''allSessions'' \<and> name = ''ZREM'' \<and> sids \<noteq> []
                     then [no_effect\<lparr>ge_release := sids\<rparr>] else []);
          glob = (k_shape (w_key w) \<noteq> ShapeSession \<and> k_shape (w_key w) \<noteq> ShapeLocked) in
      if p_kind p = KindAdmin \<or> p_kind p = KindBG then Passed (effects, u)
      else if glob \<and> name \<notin> {''ZADD'', ''ZREM'', ''HSET'', ''HMSET'', ''HSETNX'', ''HDEL'', ''HINCRBY''} then
        Refused (refuse ReasonBGOnly (name @ '' on session index '' @ w_raw w))
      else if sids = [] then Refused (refuse ReasonBGOnly (name @ '' '' @ w_raw w @ '' names no session''))
      else gbind (sessions_owned R p sids) (\<lambda>_.
        gbind (if \<not> glob then sessionSetGate u c w
               else if name = ''ZADD'' then heartbeatGate R u c w
               else Passed u) (\<lambda>u'. Passed (effects, u'))))"

subsection \<open>Step 2b: the key-class gate, and Check\<close>

text \<open>One write: the effects it adds, the unit and the guard after it.\<close>

definition key_gate1 :: "reads \<Rightarrow> principal \<Rightarrow> key_write \<Rightarrow> punit \<Rightarrow> guard \<Rightarrow> guard_effect list gate \<times> punit \<times> guard" where
  "key_gate1 R p w u g =
     (let c = cmd_of u w; name = cmd_name c; admin = (p_kind p = KindAdmin);
          at = name @ '' '' @ w_raw w in
      case w_class w of
        KCOwnRecord \<Rightarrow> (Passed [], u, g)
      | KCTrashCreate \<Rightarrow>
          (if p_kind p = KindWebDAV then Refused (refuse ReasonPrincipalReadonly at) else Passed [], u, g)
      | KCCounter \<Rightarrow>
          if admin then (Passed [], u, g)
          else (case counterGate R p u c w g of
                  (Some d, g') \<Rightarrow> (Refused d, u, g')
                | (None, g') \<Rightarrow> (Passed [], u, g'))
      | KCSession \<Rightarrow>
          (case sessionGate R p u c w of
             Panicked \<Rightarrow> (Panicked, u, g)
           | Refused d \<Rightarrow> (Refused d, u, g)
           | Passed (es, u') \<Rightarrow> (Passed es, u', g))
      | KCPresence \<Rightarrow>
          (if \<not> admin \<and> k_suffix (w_key w) \<noteq> host p
           then Refused (refuse ReasonAdminOnly (''presence key of another host '' @ w_raw w)) else Passed [], u, g)
      | KCLinkBench \<Rightarrow>
          (if \<not> admin \<and> \<not> linkBenchOK c
           then Refused (refuse ReasonUnknownKey ''jm:link-bench write without expiry <= 60s'') else Passed [], u, g)
      | KCBG \<Rightarrow>
          (if \<not> admin \<and> p_kind p \<noteq> KindBG then Refused (refuse ReasonBGOnly at) else Passed [], u, g)
      | KCFarm \<Rightarrow>
          (if \<not> admin \<and> p_kind p \<noteq> KindFarm \<and> p_kind p \<noteq> KindManager
           then Refused (refuse ReasonFarmOnly (w_raw w)) else Passed [], u, g)
      | KCAdmin \<Rightarrow> (if \<not> admin then Refused (refuse ReasonAdminOnly at) else Passed [], u, g)
      | KCProject \<Rightarrow>
          if p_kind p = KindWebDAV then (Refused (refuse ReasonPrincipalReadonly at), u, g)
          else (Passed [], u\<lparr>u_project := u_project u @ [w]\<rparr>, g)
      | KCChannel \<Rightarrow> (if \<not> admin then Refused (refuse ReasonUnknownKey at) else Passed [], u, g)
      | KCUnknown \<Rightarrow> (if \<not> admin then Refused (refuse ReasonUnknownKey at) else Passed [], u, g))"

fun key_gate :: "reads \<Rightarrow> principal \<Rightarrow> key_write list \<Rightarrow> guard_effect list \<Rightarrow> punit \<Rightarrow> guard \<Rightarrow> guard_effect list gate \<times> punit \<times> guard" where
  "key_gate R p [] es u g = (Passed es, u, g)"
| "key_gate R p (w # ws) es u g =
     (case key_gate1 R p w u g of
        (Passed es1, u1, g1) \<Rightarrow> key_gate R p ws (es @ es1) u1 g1
      | (Refused d, u1, g1) \<Rightarrow> (Refused d, u1, g1)
      | (Panicked, u1, g1) \<Rightarrow> (Panicked, u1, g1))"

definition check_phases :: "reads \<Rightarrow> principal \<Rightarrow> guard \<Rightarrow> punit \<Rightarrow> (guard_effect list \<times> punit) gate" where
  "check_phases R p g u =
     (let u0 = u\<lparr>u_writes := [], u_project := [], u_refInodes := []\<rparr> in
      gbind (command_gate p 0 (u_cmds u)) (\<lambda>ws.
        gbind (refine_trash R p (u0\<lparr>u_writes := ws\<rparr>)) (\<lambda>u1.
          gbind (own_records R p g u1) (\<lambda>(es, u2). slice_phase R p g es u2))))"

definition Check :: "reads \<Rightarrow> principal \<Rightarrow> punit \<Rightarrow> guard \<Rightarrow> guard_effect list gate \<times> punit \<times> guard" where
  "Check R p u g =
     (case check_phases R p g u of
        Panicked \<Rightarrow> (Panicked, u, g)
      | Refused d \<Rightarrow> (Refused d, u, g)
      | Passed (es, u1) \<Rightarrow> key_gate R p (u_writes u1) es u1 g)"

end
