(* ===== verification/Unit_Facts.thy ===== *)
theory Unit_Facts
  imports Guard_Gates
begin

section \<open>What a unit says about the tree (txnunit.go)\<close>

text \<open>
  \<open>analyzeUnit\<close> reads a unit without any lookup: the directory entries it sets or removes, the inodes
  whose keys it writes, the attributes it stores, and the rows of the accounting hashes it changes.
  The maps of \<^verbatim>\<open>unitFacts\<close> that are measured are association lists.
\<close>

record unit_edge =
  ue_parent :: nat
  ue_child :: nat
  ue_isDir :: bool
  ue_name :: string

record dentry_op =
  op_dir :: nat
  op_name :: string
  op_del :: bool
  op_val :: bytes
  op_ino :: nat
  op_typ :: nat
  op_isDir :: bool
  op_trash :: bool

record stat_row =
  sr_hash :: string
  sr_dir :: nat
  sr_op :: string
  sr_val :: string

record unit_facts =
  f_dentries :: "dentry_op list"
  f_edges :: "unit_edge list"
  f_inodes :: "nat list"
  f_why :: "(nat \<times> string) list"
  f_setAttr :: "(nat \<times> attr_info) list"
  f_links :: "nat \<Rightarrow> nat list"
  f_trashKey :: string
  f_dirStat :: "nat list"
  f_quota :: "nat list"
  f_statRows :: "stat_row list"
  f_topology :: bool
  f_unresolvable :: "string list"
  f_touched :: "nat list"
  f_unlinked :: "nat list"

definition no_facts :: unit_facts where
  "no_facts = \<lparr>f_dentries = [], f_edges = [], f_inodes = [], f_why = [], f_setAttr = [], f_links = (\<lambda>_. []),
     f_trashKey = [], f_dirStat = [], f_quota = [], f_statRows = [], f_topology = False, f_unresolvable = [],
     f_touched = [], f_unlinked = []\<rparr>"

definition quotaUsage :: "stat_row \<Rightarrow> bool" where
  "quotaUsage r \<longleftrightarrow> sr_hash r = ''dirQuotaUsedSpace'' \<or> sr_hash r = ''dirQuotaUsedInodes''"

definition row_gc :: "stat_row \<Rightarrow> bool" where
  "row_gc r \<longleftrightarrow> sr_hash r = ''delfiles'' \<or> sr_hash r = ''detachedNodes''"

definition dirStatOnly :: "unit_facts \<Rightarrow> bool" where
  "dirStatOnly f \<longleftrightarrow> f_dentries f = [] \<and> f_inodes f = [] \<and> f_dirStat f \<noteq> [] \<and> f_unresolvable f = [] \<and> f_trashKey f = []"

subsection \<open>Rows of the accounting hashes\<close>

definition field_ino :: "bytes \<Rightarrow> nat option" where
  "field_ino b = digits (case IndexByte b CHR '':'' of Some i \<Rightarrow> if 0 < i then take i b else b | None \<Rightarrow> b)"

definition row_val :: "bytes \<Rightarrow> string" where
  "row_val b = (if 64 < length b then take 64 b @ ''...'' else b)"

definition add_row :: "string \<Rightarrow> bytes \<Rightarrow> string \<Rightarrow> string \<Rightarrow> stat_row list" where
  "add_row hash b op v =
     (case field_ino b of Some n \<Rightarrow> [\<lparr>sr_hash = hash, sr_dir = n, sr_op = op, sr_val = v\<rparr>] | None \<Rightarrow> [])"

fun set_rows :: "string \<Rightarrow> bytes list \<Rightarrow> stat_row list" where
  "set_rows hash [] = []"
| "set_rows hash [f] = add_row hash f ''set'' []"
| "set_rows hash (f # v # r) = add_row hash f ''set'' (row_val v) @ set_rows hash r"

definition statRowsOf :: "string \<Rightarrow> key_ref \<Rightarrow> bytes list \<Rightarrow> stat_row list" where
  "statRowsOf name key args =
     (let hash = global_shape key; gcset = (hash = ''delfiles'' \<or> hash = ''detachedNodes'') in
      if k_group key = GDirstat \<or> k_group key = GQuota then
        (if name \<in> {''HINCRBY'', ''HINCRBYFLOAT'', ''HSETNX''} then
           let op = (if name = ''HSETNX'' then ''set'' else ''incr'') in
           if 3 < length args then add_row hash (args ! 2) op (row_val (args ! 3))
           else if 2 < length args then add_row hash (args ! 2) op [] else []
         else if name = ''HSET'' \<or> name = ''HMSET'' then set_rows hash (drop 2 args)
         else if name = ''HDEL'' then concat (map (\<lambda>a. add_row hash a ''del'' []) (drop 2 args))
         else [])
      else if gcset \<and> name = ''ZADD'' then concat (map (\<lambda>a. add_row hash a ''add'' []) (every_other (drop 3 args)))
      else if gcset \<and> name = ''ZREM'' then concat (map (\<lambda>a. add_row hash a ''remove'' []) (drop 2 args))
      else [])"

definition unitFieldInodes :: "string \<Rightarrow> key_ref \<Rightarrow> bytes list \<Rightarrow> nat list" where
  "unitFieldInodes name key args =
     (let hash = global_shape key; gcset = (hash = ''delfiles'' \<or> hash = ''detachedNodes'') in
      List.map_filter field_ino
        (if (k_group key = GDirstat \<or> k_group key = GQuota) \<and>
            name \<in> {''HINCRBY'', ''HINCRBYFLOAT'', ''HSET'', ''HMSET'', ''HDEL'', ''HSETNX''} then
           (if name \<in> {''HINCRBY'', ''HINCRBYFLOAT'', ''HSETNX''} then take 1 (drop 2 args)
            else if name = ''HSET'' \<or> name = ''HMSET'' then every_other (drop 2 args)
            else drop 2 args)
         else if gcset \<and> name = ''ZADD'' then every_other (drop 3 args)
         else if gcset \<and> name = ''ZREM'' then drop 2 args
         else if k_shape key = ShapeLocked \<and> (name = ''SADD'' \<or> name = ''SREM'') then drop 2 args
         else []))"

text \<open>\<^verbatim>\<open>trashEntryOrigin\<close>: directory and inode of \<^verbatim>\<open><directory>-<inode>-<name>\<close>.\<close>

definition trashEntryOrigin :: "string \<Rightarrow> (nat \<times> nat) option" where
  "trashEntryOrigin name =
     (case SplitN 3 CHR ''-'' name of
        [a, b, c] \<Rightarrow> (case (digits a, digits b) of (Some d, Some i) \<Rightarrow> Some (d, i) | _ \<Rightarrow> None)
      | _ \<Rightarrow> None)"

text \<open>A unit that only deletes chunk lists of inode \<open>n\<close> and drops slice references.\<close>

fun chunk_dels :: "nat \<Rightarrow> cmd list \<Rightarrow> bool \<Rightarrow> bool" where
  "chunk_dels n [] saw = saw"
| "chunk_dels n (c # cs) saw =
     (if c_class (cmd_info c) = ClassRead then chunk_dels n cs saw
      else if cmd_name c = ''DEL'' then
        (if length (cmd_args c) < 2 \<or>
            \<not> list_all (\<lambda>raw. k_shape (ParseKey raw) = ShapeChunk \<and> k_ino (ParseKey raw) = n) (drop 1 (cmd_args c))
         then False else chunk_dels n cs True)
      else if cmd_name c = ''HINCRBY'' then
        (if length (cmd_args c) \<noteq> 4 \<or> cmd_args c ! 1 \<noteq> ''sliceRef'' then False
         else case ParseInt (cmd_args c ! 3) of
           (delta, None) \<Rightarrow> if 0 \<le> delta then False else chunk_dels n cs saw
         | (delta, Some e) \<Rightarrow> False)
      else False)"

definition absentChunkCleanup :: "punit \<Rightarrow> nat \<Rightarrow> bool" where
  "absentChunkCleanup u n = chunk_dels n (u_cmds u) False"

subsection \<open>Analysis\<close>

definition touch_ino :: "nat \<Rightarrow> unit_facts \<Rightarrow> unit_facts" where
  "touch_ino n f = (if n \<in> set (f_touched f) then f else f\<lparr>f_touched := f_touched f @ [n]\<rparr>)"

definition addInode :: "nat \<Rightarrow> string \<Rightarrow> unit_facts \<Rightarrow> unit_facts" where
  "addInode n why f =
     (let f1 = touch_ino n f in
      if map_of (f_why f1) n \<noteq> None then f1
      else f1\<lparr>f_why := f_why f1 @ [(n, why)], f_inodes := f_inodes f1 @ [n]\<rparr>)"

definition unresolvable :: "string \<Rightarrow> unit_facts \<Rightarrow> unit_facts" where
  "unresolvable why f = f\<lparr>f_unresolvable := f_unresolvable f @ [why]\<rparr>"

definition note_trash :: "string \<Rightarrow> unit_facts \<Rightarrow> unit_facts" where
  "note_trash why f = (if f_trashKey f = [] then f\<lparr>f_trashKey := why\<rparr> else f)"

text \<open>The state of the analysis: the facts, the directories whose entries are written, and whether a
  directory entry is set outside the trash.\<close>

type_synonym analysis = "unit_facts \<times> nat list \<times> bool"

fun dentry_sets :: "string \<Rightarrow> nat \<Rightarrow> bool \<Rightarrow> bytes list \<Rightarrow> unit_facts \<times> bool \<Rightarrow> unit_facts \<times> bool" where
  "dentry_sets why dir trash (nm # v # r) (f, moved) =
     (case entryInode v of
        None \<Rightarrow> dentry_sets why dir trash r (unresolvable (why @ '': unparsable entry'') f, moved)
      | Some ino \<Rightarrow>
          let typ = (case entryType v of Some t \<Rightarrow> t | None \<Rightarrow> 0); isDir = (typ = typeDir);
              op = \<lparr>op_dir = dir, op_name = nm, op_del = False, op_val = v, op_ino = ino, op_typ = typ,
                    op_isDir = isDir, op_trash = trash\<rparr>;
              e = \<lparr>ue_parent = dir, ue_child = ino, ue_isDir = isDir, ue_name = nm\<rparr>
          in dentry_sets why dir trash r
               (touch_ino ino (f\<lparr>f_dentries := f_dentries f @ [op], f_edges := f_edges f @ [e]\<rparr>),
                moved \<or> (isDir \<and> \<not> trash)))"
| "dentry_sets why dir trash r st = st"

definition dentry_del :: "nat \<Rightarrow> bool \<Rightarrow> bytes \<Rightarrow> dentry_op" where
  "dentry_del dir trash fld = \<lparr>op_dir = dir, op_name = fld, op_del = True, op_val = [], op_ino = 0, op_typ = 0,
     op_isDir = False, op_trash = trash\<rparr>"

definition analyze_dentry :: "key_write \<Rightarrow> cmd \<Rightarrow> string \<Rightarrow> analysis \<Rightarrow> analysis" where
  "analyze_dentry w c why st =
     (case st of (f, dirs, moved) \<Rightarrow>
        let dir = k_ino (w_key w); trash = k_trash (w_key w); f1 = touch_ino dir f; dirs1 = List.insert dir dirs in
        if isHSet (cmd_name c) then
          (case dentry_sets why dir trash (drop 2 (cmd_args c)) (f1, moved) of (f2, moved2) \<Rightarrow> (f2, dirs1, moved2))
        else if cmd_name c = ''HDEL'' then
          (f1\<lparr>f_dentries := f_dentries f1 @ map (dentry_del dir trash) (drop 2 (cmd_args c))\<rparr>, dirs1, moved)
        else (unresolvable why f1, dirs1, moved))"

definition analyze_inode :: "key_write \<Rightarrow> cmd \<Rightarrow> string \<Rightarrow> unit_facts \<Rightarrow> unit_facts" where
  "analyze_inode w c why f =
     (let n = k_ino (w_key w) in
      if k_trash (w_key w) then note_trash why f
      else
        let f1 = addInode n why f;
            f2 = (if k_shape (w_key w) = ShapeInode \<and> (cmd_name c = ''SET'' \<or> cmd_name c = ''SETNX'') \<and> 3 \<le> length (cmd_args c)
                  then (case parseAttr (cmd_args c ! 2) of
                          Some a \<Rightarrow> f1\<lparr>f_setAttr := AList.update n a (f_setAttr f1)\<rparr>
                        | None \<Rightarrow> unresolvable (why @ '': unparsable attr'') f1)
                  else f1)
        in if k_shape (w_key w) = ShapeParent \<and> 3 \<le> length (cmd_args c) then
             (case digits (cmd_args c ! 2) of
                Some p \<Rightarrow> touch_ino p (f2\<lparr>f_links := (f_links f2)(n := f_links f2 n @ [p])\<rparr>)
              | None \<Rightarrow> f2)
           else f2)"

fun add_inodes :: "string \<Rightarrow> nat list \<Rightarrow> unit_facts \<Rightarrow> unit_facts" where
  "add_inodes why [] f = f"
| "add_inodes why (n # ns) f = add_inodes why ns (if isTrashIno n then note_trash why f else addInode n why f)"

definition analyze_write :: "punit \<Rightarrow> key_write \<Rightarrow> analysis \<Rightarrow> analysis" where
  "analyze_write u w st =
     (case st of (f, dirs, moved) \<Rightarrow>
        let c = cmd_of u w; why = cmd_name c @ '' '' @ w_raw w; g = k_group (w_key w);
            ns = unitFieldInodes (cmd_name c) (w_key w) (cmd_args c);
            rows = statRowsOf (cmd_name c) (w_key w) (cmd_args c) in
        if g = GDentry then analyze_dentry w c why st
        else if g = GInode then (analyze_inode w c why f, dirs, moved)
        else if g = GDirstat \<or> g = GQuota then
          (f\<lparr>f_dirStat := f_dirStat f @ ns, f_statRows := f_statRows f @ rows,
             f_quota := (if g = GQuota then f_quota f @ ns else f_quota f)\<rparr>, dirs, moved)
        else if g = GGc then (add_inodes why ns (f\<lparr>f_statRows := f_statRows f @ rows\<rparr>), dirs, moved)
        else (unresolvable why f, dirs, moved))"

fun analyze_refs :: "nat list \<Rightarrow> unit_facts \<Rightarrow> unit_facts" where
  "analyze_refs [] f = f"
| "analyze_refs (n # ns) f =
     analyze_refs ns (if isTrashIno n then note_trash (''cleanup record of trash inode '' @ inoStr n) f
                      else addInode n (''cleanup record references inode '' @ inoStr n) f)"

text \<open>The hourly trash directories the unit creates.\<close>

definition created_trash :: "punit \<Rightarrow> nat list" where
  "created_trash u =
     concat (map (\<lambda>w. let c = cmd_of u w in
       if w_class w \<noteq> KCTrashCreate \<or> k_shape (w_key w) \<noteq> ShapeDentry \<or> \<not> isHSet (cmd_name c) then []
       else List.map_filter entryInode (every_other (drop 3 (cmd_args c)))) (u_writes u))"

definition drop_created :: "punit \<Rightarrow> unit_facts \<Rightarrow> unit_facts" where
  "drop_created u f =
     (if f_statRows f = [] then f
      else
        let mine = (\<lambda>d. isTrashIno d \<and> d \<in> set (created_trash u)) in
        f\<lparr>f_dirStat := filter (\<lambda>d. \<not> mine d) (f_dirStat f),
          f_statRows := filter (\<lambda>r. row_gc r \<or> \<not> mine (sr_dir r)) (f_statRows f)\<rparr>)"

definition analyzeUnit :: "punit \<Rightarrow> unit_facts" where
  "analyzeUnit u =
     (case fold (analyze_write u) (u_project u) (no_facts, [], False) of
        (f, dirs, moved) \<Rightarrow>
          let f1 = (analyze_refs (u_refInodes u) f)\<lparr>f_topology := (moved \<and> 2 \<le> length dirs)\<rparr>;
              f2 = drop_created u f1
          in if f_dentries f2 \<noteq> [] \<or> f_inodes f2 \<noteq> [] then f2\<lparr>f_dirStat := []\<rparr> else f2)"

end
