(* ===== verification/Ancestry.thy ===== *)
theory Ancestry
  imports Unit_Facts
begin

section \<open>Directories, projects and their caches (projcache.go, ancestry.go)\<close>

text \<open>
  \<open>ancestry\<close> is the record of the caches: directory parents, a two-generation cache of file parents,
  the memo of directory locations with its generation, and the tombstones that order cache fills
  against invalidations.  A lookup takes the side connection as the argument \<open>side\<close>, what Redis
  answers during the operation; an error is its text.  The maps are association lists, being
  measured; counters of reads are left out.
\<close>

datatype ns_kind = NsUnknown | NsRoot | NsProject | NsTrash | NsDerivatives

fun ns_str :: "ns_kind \<Rightarrow> string" where
  "ns_str NsRoot = ''ns:root''"
| "ns_str NsProject = ''project''"
| "ns_str NsTrash = ''ns:trash''"
| "ns_str NsDerivatives = ''ns:derivatives''"
| "ns_str NsUnknown = ''unknown''"

record location =
  loc_kind :: ns_kind
  loc_proj :: nat
  loc_depth :: int
  loc_dir :: nat

subsection \<open>The memo\<close>

record memo_ent =
  me_loc :: location
  me_gen :: nat

record proj_cache =
  pc_gen :: nat
  pc_m :: "(nat \<times> memo_ent) list"

definition memoMax :: nat where "memoMax = 2 * 2 ^ 20"

definition newProjCache :: proj_cache where "newProjCache = \<lparr>pc_gen = 0, pc_m = []\<rparr>"

definition memo_get :: "nat \<Rightarrow> proj_cache \<Rightarrow> location option" where
  "memo_get dir c =
     (case map_of (pc_m c) dir of
        None \<Rightarrow> None
      | Some e \<Rightarrow> if me_gen e \<noteq> pc_gen c then None else Some (me_loc e))"

definition memo_put :: "nat \<Rightarrow> location \<Rightarrow> nat \<Rightarrow> proj_cache \<Rightarrow> proj_cache" where
  "memo_put dir loc gen c =
     (if gen \<noteq> pc_gen c then c
      else c\<lparr>pc_m := AList.update dir \<lparr>me_loc = loc, me_gen = gen\<rparr> (if memoMax \<le> length (pc_m c) then [] else pc_m c)\<rparr>)"

definition memo_bump :: "proj_cache \<Rightarrow> proj_cache" where
  "memo_bump c = \<lparr>pc_gen = (pc_gen c + 1) mod 2 ^ 64, pc_m = []\<rparr>"

subsection \<open>File parents\<close>

record file_lru =
  fl_cap :: nat
  fl_cur :: "(nat \<times> nat) list"
  fl_old :: "(nat \<times> nat) list"

definition newFileLRU :: "nat \<Rightarrow> file_lru" where
  "newFileLRU capacity = \<lparr>fl_cap = (if capacity < 2 then 2 else capacity), fl_cur = [], fl_old = []\<rparr>"

definition putLocked :: "nat \<Rightarrow> nat \<Rightarrow> file_lru \<Rightarrow> file_lru" where
  "putLocked n p l =
     (let l1 = (if fl_cap l div 2 \<le> length (fl_cur l) then l\<lparr>fl_old := fl_cur l, fl_cur := []\<rparr> else l) in
      l1\<lparr>fl_cur := AList.update n p (fl_cur l1)\<rparr>)"

definition lru_get :: "nat \<Rightarrow> file_lru \<Rightarrow> nat option \<times> file_lru" where
  "lru_get n l =
     (case map_of (fl_cur l) n of
        Some p \<Rightarrow> (Some p, l)
      | None \<Rightarrow> (case map_of (fl_old l) n of Some p \<Rightarrow> (Some p, putLocked n p l) | None \<Rightarrow> (None, l)))"

definition lru_del :: "nat \<Rightarrow> file_lru \<Rightarrow> file_lru" where
  "lru_del n l = l\<lparr>fl_cur := AList.delete n (fl_cur l), fl_old := AList.delete n (fl_old l)\<rparr>"

definition lru_len :: "file_lru \<Rightarrow> nat" where
  "lru_len l = length (fl_cur l) + length (fl_old l)"

subsection \<open>Tombstones\<close>

record tombstones =
  tb_seq :: nat
  tb_floor :: nat
  tb_m :: "(nat \<times> nat) list"

definition tombMax :: nat where "tombMax = 2 ^ 18"

definition tomb_kill :: "nat list \<Rightarrow> tombstones \<Rightarrow> tombstones" where
  "tomb_kill ns t =
     (if ns = [] then t
      else
        let sq = (tb_seq t + 1) mod 2 ^ 64;
            full = tombMax < length (tb_m t) + length ns;
            m = (if full then [] else tb_m t);
            fl = (if full then sq else tb_floor t)
        in \<lparr>tb_seq = sq, tb_floor = fl, tb_m = fold (\<lambda>n. AList.update n sq) ns m\<rparr>)"

definition tomb_fresh :: "nat \<Rightarrow> nat \<Rightarrow> tombstones \<Rightarrow> bool" where
  "tomb_fresh n start t \<longleftrightarrow>
     \<not> start < tb_floor t \<and> (case map_of (tb_m t) n of Some s \<Rightarrow> s | None \<Rightarrow> 0) \<le> start"

subsection \<open>Ancestry\<close>

definition rootIno :: nat where "rootIno = 1"

definition errUnresolved :: string where "errUnresolved = ''respproxy: inode not resolvable''"

type_synonym side = "int \<Rightarrow> bytes list \<Rightarrow> string + resp_value"

record ancestry =
  an_db :: int
  an_depth :: nat
  an_dirParent :: "(nat \<times> nat) list"
  an_names :: "nat \<Rightarrow> string"
  an_jmDir :: nat
  an_derivRoot :: nat
  an_files :: file_lru
  an_memo :: proj_cache
  an_tomb :: tombstones

definition newAncestry :: "int \<Rightarrow> nat \<Rightarrow> nat \<Rightarrow> ancestry" where
  "newAncestry db depth fileCap = \<lparr>an_db = db, an_depth = (if depth < 1 then 2 else depth),
     an_dirParent = [(rootIno, rootIno)], an_names = (\<lambda>n. if n = rootIno then ''/'' else []), an_jmDir = 0,
     an_derivRoot = 0, an_files = newFileLRU fileCap, an_memo = newProjCache,
     an_tomb = \<lparr>tb_seq = 0, tb_floor = 0, tb_m = []\<rparr>\<rparr>"

definition getAttr :: "side \<Rightarrow> int \<Rightarrow> nat \<Rightarrow> string + attr_info option" where
  "getAttr side db n =
     (case side_do side db [''GET'', ''i'' @ FormatUint n] of
        Inl e \<Rightarrow> Inl e
      | Inr v \<Rightarrow>
          if v_null v then Inr None
          else case parseAttr (v_str v) of None \<Rightarrow> Inl errUnresolved | Some ai \<Rightarrow> Inr (Some ai))"

definition cacheDir :: "nat \<Rightarrow> nat \<Rightarrow> nat \<Rightarrow> ancestry \<Rightarrow> ancestry" where
  "cacheDir d parent start a =
     (if \<not> tomb_fresh d start (an_tomb a) then a
      else if map_of (an_dirParent a) d \<noteq> None then a
      else a\<lparr>an_dirParent := AList.update d parent (an_dirParent a)\<rparr>)"

definition cacheFile :: "nat \<Rightarrow> nat \<Rightarrow> nat \<Rightarrow> ancestry \<Rightarrow> ancestry" where
  "cacheFile n parent start a =
     (if \<not> tomb_fresh n start (an_tomb a) then a else a\<lparr>an_files := putLocked n parent (an_files a)\<rparr>)"

definition parentOfDir :: "side \<Rightarrow> nat \<Rightarrow> ancestry \<Rightarrow> (string + nat) \<times> ancestry" where
  "parentOfDir side d a =
     (case map_of (an_dirParent a) d of
        Some p \<Rightarrow> (Inr p, a)
      | None \<Rightarrow>
          (case getAttr side (an_db a) d of
             Inl e \<Rightarrow> (Inl e, a)
           | Inr None \<Rightarrow> (Inl errUnresolved, a)
           | Inr (Some ai) \<Rightarrow>
               if a_typ ai \<noteq> typeDir \<or> a_parent ai = 0 then (Inl errUnresolved, a)
               else (Inr (a_parent ai), cacheDir d (a_parent ai) (tb_seq (an_tomb a)) a)))"

definition projectLoc :: "ancestry \<Rightarrow> nat \<Rightarrow> int \<Rightarrow> location" where
  "projectLoc a root depth =
     \<lparr>loc_kind = (if an_derivRoot a \<noteq> 0 \<and> root = an_derivRoot a then NsDerivatives else NsProject),
      loc_proj = root, loc_depth = depth, loc_dir = 0\<rparr>"

definition trash_loc :: location where
  "trash_loc = \<lparr>loc_kind = NsTrash, loc_proj = 0, loc_depth = -1, loc_dir = 0\<rparr>"

definition root_loc :: "int \<Rightarrow> nat \<Rightarrow> location" where
  "root_loc depth d = \<lparr>loc_kind = NsRoot, loc_proj = 0, loc_depth = depth, loc_dir = d\<rparr>"

definition memoise :: "nat \<Rightarrow> location \<Rightarrow> nat \<Rightarrow> ancestry \<Rightarrow> ancestry" where
  "memoise d loc gen a = a\<lparr>an_memo := memo_put d loc gen (an_memo a)\<rparr>"

text \<open>
  The walk to the root.  The chain is kept with the current directory first; it ends at the root, at
  a trash directory (the location is then known), or with an error.
\<close>

function climb :: "side \<Rightarrow> nat list \<Rightarrow> ancestry \<Rightarrow> (string + nat list option) \<times> ancestry" where
  "climb side chain a =
     (if hd chain = rootIno then (Inr (Some chain), a)
      else if 4096 < length chain then (Inl errUnresolved, a)
      else case parentOfDir side (hd chain) a of
        (Inl e, a1) \<Rightarrow> (Inl e, a1)
      | (Inr p, a1) \<Rightarrow> if isTrashIno p then (Inr None, a1) else climb side (p # chain) a1)"
  by pat_completeness auto
termination
  by (relation "measure (\<lambda>(side, chain, a). 4097 - length chain)") auto

declare climb.simps [simp del]

definition resolveDir :: "side \<Rightarrow> nat \<Rightarrow> ancestry \<Rightarrow> (string + location) \<times> ancestry" where
  "resolveDir side d a =
     (if isTrashIno d then (Inr trash_loc, a)
      else if d = rootIno then (Inr (root_loc 0 rootIno), a)
      else case memo_get d (an_memo a) of
        Some loc \<Rightarrow> (Inr loc, a)
      | None \<Rightarrow>
          let gen = pc_gen (an_memo a) in
          (case climb side [d] a of
             (Inl e, a1) \<Rightarrow> (Inl e, a1)
           | (Inr None, a1) \<Rightarrow> (Inr trash_loc, memoise d trash_loc gen a1)
           | (Inr (Some chain), a1) \<Rightarrow>
               let depth = length chain - 1 in
               if depth < an_depth a1 then
                 (Inr (root_loc (int depth) d), memoise d (root_loc (int depth) d) gen a1)
               else
                 let root = chain ! an_depth a1 in
                 (Inr (projectLoc a1 root (int depth)),
                  fold (\<lambda>j. memoise (chain ! j) (projectLoc a1 root (int j)) gen) (rev [an_depth a1 ..< Suc depth]) a1)))"

definition childLocP :: "side \<Rightarrow> nat \<Rightarrow> nat \<Rightarrow> bool \<Rightarrow> bool \<Rightarrow> ancestry \<Rightarrow> (string + location) \<times> ancestry" where
  "childLocP side dir child isDir placed a =
     (case resolveDir side dir a of
        (Inl e, a1) \<Rightarrow> (Inl e, a1)
      | (Inr lp, a1) \<Rightarrow>
          (Inr (case loc_kind lp of
              NsRoot \<Rightarrow>
                if isDir \<and> loc_depth lp = int (an_depth a1) - 1 \<and> \<not> placed then projectLoc a1 child (loc_depth lp + 1)
                else root_loc (loc_depth lp + 1) dir
            | NsProject \<Rightarrow> lp\<lparr>loc_depth := loc_depth lp + 1\<rparr>
            | NsDerivatives \<Rightarrow> lp\<lparr>loc_depth := loc_depth lp + 1\<rparr>
            | _ \<Rightarrow> lp), a1))"

definition childLoc :: "side \<Rightarrow> nat \<Rightarrow> nat \<Rightarrow> bool \<Rightarrow> ancestry \<Rightarrow> (string + location) \<times> ancestry" where
  "childLoc side dir child isDir a = childLocP side dir child isDir False a"

subsection \<open>Placements\<close>

record placement =
  pl_exists :: bool
  pl_isDir :: bool
  pl_parent :: nat
  pl_parents :: "nat list"

fun link_fields :: "resp_value list \<Rightarrow> nat list" where
  "link_fields (f # v # r) =
     (case digits (v_str f) of
        Some p \<Rightarrow> if 0 < fst (ParseInt (v_str v)) then p # link_fields r else link_fields r
      | None \<Rightarrow> link_fields r)"
| "link_fields r = []"

definition linkParents :: "side \<Rightarrow> int \<Rightarrow> nat \<Rightarrow> string + nat list" where
  "linkParents side db n =
     (case side_do side db [''HGETALL'', ''p'' @ FormatUint n] of
        Inl e \<Rightarrow> Inl e
      | Inr v \<Rightarrow> if link_fields (v_elems v) = [] then Inl errUnresolved else Inr (link_fields (v_elems v)))"

definition placementOf :: "side \<Rightarrow> nat \<Rightarrow> ancestry \<Rightarrow> (string + placement) \<times> ancestry" where
  "placementOf side n a =
     (if n = rootIno then (Inr \<lparr>pl_exists = True, pl_isDir = True, pl_parent = rootIno, pl_parents = []\<rparr>, a)
      else case map_of (an_dirParent a) n of
        Some dp \<Rightarrow> (Inr \<lparr>pl_exists = True, pl_isDir = True, pl_parent = dp, pl_parents = [dp]\<rparr>, a)
      | None \<Rightarrow>
          (case lru_get n (an_files a) of
             (Some p, fl) \<Rightarrow>
               (Inr \<lparr>pl_exists = True, pl_isDir = False, pl_parent = p, pl_parents = [p]\<rparr>, a\<lparr>an_files := fl\<rparr>)
           | (None, fl) \<Rightarrow>
               let start = tb_seq (an_tomb a) in
               (case getAttr side (an_db a) n of
                  Inl e \<Rightarrow> (Inl e, a)
                | Inr None \<Rightarrow> (Inr \<lparr>pl_exists = False, pl_isDir = False, pl_parent = 0, pl_parents = []\<rparr>, a)
                | Inr (Some ai) \<Rightarrow>
                    let pl = \<lparr>pl_exists = True, pl_isDir = (a_typ ai = typeDir), pl_parent = a_parent ai,
                              pl_parents = [a_parent ai]\<rparr> in
                    if a_parent ai = 0 then
                      (case linkParents side (an_db a) n of
                         Inl e \<Rightarrow> (Inl e, a)
                       | Inr ps \<Rightarrow> (Inr (pl\<lparr>pl_parents := ps\<rparr>), a))
                    else if pl_isDir pl then (Inr pl, cacheDir n (a_parent ai) start a)
                    else (Inr pl, if \<not> isTrashIno (a_parent ai) then cacheFile n (a_parent ai) start a else a))))"

fun locsOf_parents :: "side \<Rightarrow> nat \<Rightarrow> bool \<Rightarrow> nat list \<Rightarrow> ancestry \<Rightarrow> (string + location list) \<times> ancestry" where
  "locsOf_parents side n isDir [] a = (Inr [], a)"
| "locsOf_parents side n isDir (p # ps) a =
     (case (if isTrashIno p then (Inr trash_loc, a)
            else if isDir then resolveDir side n a else childLoc side p n False a) of
        (Inl e, a1) \<Rightarrow> (Inl e, a1)
      | (Inr l, a1) \<Rightarrow>
          (case locsOf_parents side n isDir ps a1 of
             (Inl e, a2) \<Rightarrow> (Inl e, a2)
           | (Inr ls, a2) \<Rightarrow> (Inr (l # ls), a2)))"

definition locsOf :: "side \<Rightarrow> nat \<Rightarrow> placement \<Rightarrow> ancestry \<Rightarrow> (string + location list) \<times> ancestry" where
  "locsOf side n pl a = locsOf_parents side n (pl_isDir pl) (pl_parents pl) a"

definition resolveInode :: "side \<Rightarrow> nat \<Rightarrow> ancestry \<Rightarrow> (string + location list) \<times> ancestry" where
  "resolveInode side n a =
     (case placementOf side n a of
        (Inl e, a1) \<Rightarrow> (Inl e, a1)
      | (Inr pl, a1) \<Rightarrow> if \<not> pl_exists pl then (Inl errUnresolved, a1) else locsOf side n pl a1)"

text \<open>The inode and type of an entry; \<^const>\<open>None\<close> when there is none.\<close>

definition entryAt :: "side \<Rightarrow> int \<Rightarrow> nat \<Rightarrow> string \<Rightarrow> string + (nat \<times> nat) option" where
  "entryAt side db dir name =
     (case side_do side db [''HGET'', ''d'' @ FormatUint dir, name] of
        Inl e \<Rightarrow> Inl e
      | Inr v \<Rightarrow>
          if v_null v then Inr None
          else case (entryInode (v_str v), entryType (v_str v)) of
            (Some ino, Some typ) \<Rightarrow> Inr (Some (ino, typ))
          | _ \<Rightarrow> Inl errUnresolved)"

subsection \<open>Learning and forgetting\<close>

definition invalidate :: "nat list \<Rightarrow> ancestry \<Rightarrow> ancestry" where
  "invalidate ns a = a\<lparr>an_tomb := tomb_kill ns (an_tomb a), an_files := fold lru_del ns (an_files a)\<rparr>"

text \<open>One entry of a committed unit; the flag says whether the derivatives root moved.\<close>

definition learn_edge :: "unit_edge \<Rightarrow> ancestry \<times> bool \<Rightarrow> ancestry \<times> bool" where
  "learn_edge e st =
     (case st of (a, changed) \<Rightarrow>
        if \<not> ue_isDir e then (a, changed)
        else
          let a1 = a\<lparr>an_dirParent := AList.update (ue_child e) (ue_parent e) (an_dirParent a)\<rparr> in
          if ue_name e = [] \<or> isTrashIno (ue_parent e) then (a1, changed)
          else
            let a2 =
                  (if ue_parent e = rootIno then
                     (let b = a1\<lparr>an_names := (an_names a1)(ue_child e := ''/'' @ ue_name e)\<rparr> in
                      if ue_name e = ''.juicemount'' then b\<lparr>an_jmDir := ue_child e\<rparr> else b)
                   else if an_names a1 (ue_parent e) \<noteq> [] \<and>
                       map_of (an_dirParent a1) (ue_parent e) = Some rootIno \<and> 2 \<le> an_depth a1 then
                     a1\<lparr>an_names := (an_names a1)(ue_child e := an_names a1 (ue_parent e) @ ''/'' @ ue_name e)\<rparr>
                   else a1)
            in if an_jmDir a2 \<noteq> 0 \<and> ue_parent e = an_jmDir a2 \<and> ue_name e = ''derivatives'' \<and>
                  an_derivRoot a2 \<noteq> ue_child e
               then (a2\<lparr>an_derivRoot := ue_child e\<rparr>, True) else (a2, changed))"

definition learnCommitted :: "unit_facts \<Rightarrow> ancestry \<Rightarrow> ancestry" where
  "learnCommitted f a =
     (case fold learn_edge (f_edges f) (invalidate (f_touched f) a, False) of
        (a1, changed) \<Rightarrow>
          if f_topology f \<or> changed then a1\<lparr>an_memo := memo_bump (an_memo a1)\<rparr> else a1)"

definition forget :: "unit_facts \<Rightarrow> ancestry \<Rightarrow> ancestry" where
  "forget f a =
     (let a1 = invalidate (f_touched f) a in
      a1\<lparr>an_dirParent := fold (\<lambda>n. if n \<noteq> rootIno then AList.delete n else id) (f_touched f) (an_dirParent a1),
         an_memo := memo_bump (an_memo a1)\<rparr>)"

definition learnBootstrap :: "unit_edge list \<Rightarrow> ancestry \<Rightarrow> ancestry" where
  "learnBootstrap edges a = learnCommitted (no_facts\<lparr>f_edges := edges\<rparr>) a"

definition label :: "ancestry \<Rightarrow> nat \<Rightarrow> string" where "label a root = an_names a root"

end
