(* ===== verification/Placement.thy ===== *)
theory Placement
  imports Ancestry
begin

section \<open>Placing a unit in the stored tree (txnunit.go)\<close>

text \<open>
  \<open>placeUnit\<close> compares what a unit does with the tree Redis holds and returns the location of every
  anchor, or a refusal.  It reads through the ancestry, whose caches it fills, and records the inodes
  whose entries the unit unlinks (\<^verbatim>\<open>f.unlinked\<close>, kept also when the unit is refused), so each phase is a
  computation on both that may refuse (\<open>placing\<close>); the maps of the source are association lists in
  \<open>place_acc\<close>.  \<^verbatim>\<open>strconv.Quote\<close>, which only shapes the text of a refusal, is the argument \<open>quote\<close>.
\<close>

type_synonym place_st = "ancestry \<times> nat list"

type_synonym 'a placing = "place_st \<Rightarrow> (denial + 'a) \<times> place_st"

definition pret :: "'a \<Rightarrow> 'a placing" where "pret x a = (Inr x, a)"

definition pfail :: "denial \<Rightarrow> 'a placing" where "pfail d a = (Inl d, a)"

definition pbind :: "'a placing \<Rightarrow> ('a \<Rightarrow> 'b placing) \<Rightarrow> 'b placing" where
  "pbind m k a = (case m a of (Inl d, a1) \<Rightarrow> (Inl d, a1) | (Inr x, a1) \<Rightarrow> k x a1)"

text \<open>A lookup of the ancestry, its error kept as a value.\<close>

definition ptry :: "(ancestry \<Rightarrow> (string + 'a) \<times> ancestry) \<Rightarrow> (string + 'a) placing" where
  "ptry f st = (case f (fst st) of (r, a1) \<Rightarrow> (Inr r, (a1, snd st)))"

definition pentry :: "side \<Rightarrow> nat \<Rightarrow> string \<Rightarrow> (string + (nat \<times> nat) option) placing" where
  "pentry side dir name st = (Inr (entryAt side (an_db (fst st)) dir name), st)"

definition punlink :: "nat \<Rightarrow> unit placing" where
  "punlink n st = (Inr (), (fst st, snd st @ [n]))"

fun pfold :: "('x \<Rightarrow> 's \<Rightarrow> 's placing) \<Rightarrow> 'x list \<Rightarrow> 's \<Rightarrow> 's placing" where
  "pfold f [] s = pret s"
| "pfold f (x # xs) s = pbind (f x s) (pfold f xs)"

datatype place_mode = PlaceStrict | PlaceBypass | PlaceGrant

record placed_in =
  pi_dir :: nat
  pi_typ :: nat
  pi_isDir :: bool
  pi_trash :: bool

text \<open>A person of the principals table, and what the proxy adds to a unit for the policy.\<close>

record person =
  pe_id :: string
  pe_name :: string
  pe_scoped :: bool
  pe_grants :: "string list"

record unit_env =
  v_person :: "person option"
  v_unassigned :: bool
  v_inodeOwner :: "(nat \<Rightarrow> string + string option) option"
  v_inodeMark :: "(string + nat) option"
  v_beforeSide :: "string option option"
  v_connID :: nat
  v_upstreamName :: string

record place_acc =
  pa_locs :: "location list"
  pa_removed :: "(nat \<times> nat list) list"
  pa_delIno :: "(nat \<times> nat) list"
  pa_placed :: "(nat \<times> placed_in list) list"
  pa_order :: "nat list"
  pa_stored :: "(nat \<times> placement) list"

text \<open>\<^verbatim>\<open>m[k]\<close> of a map of slices, and \<^verbatim>\<open>m[k] = append(m[k], x)\<close>.\<close>

definition slice_at :: "('k \<times> 'v list) list \<Rightarrow> 'k \<Rightarrow> 'v list" where
  "slice_at m k = (case map_of m k of Some xs \<Rightarrow> xs | None \<Rightarrow> [])"

definition slice_add :: "'k \<Rightarrow> 'v \<Rightarrow> ('k \<times> 'v list) list \<Rightarrow> ('k \<times> 'v list) list" where
  "slice_add k x m = AList.update k (slice_at m k @ [x]) m"

definition absent_placement :: placement where
  "absent_placement = \<lparr>pl_exists = False, pl_isDir = False, pl_parent = 0, pl_parents = []\<rparr>"

definition stored_at :: "place_acc \<Rightarrow> nat \<Rightarrow> placement" where
  "stored_at s n = (case map_of (pa_stored s) n of Some pl \<Rightarrow> pl | None \<Rightarrow> absent_placement)"

definition note_ino :: "nat \<Rightarrow> place_acc \<Rightarrow> place_acc" where
  "note_ino n s = (if n \<in> set (pa_order s) then s else s\<lparr>pa_order := pa_order s @ [n]\<rparr>)"

definition add_loc :: "location \<Rightarrow> place_acc \<Rightarrow> place_acc" where
  "add_loc l s = s\<lparr>pa_locs := pa_locs s @ [l]\<rparr>"

text \<open>The closures \<^verbatim>\<open>refuse\<close> and \<^verbatim>\<open>unknown\<close>: admin, bg and passthrough skip policy refusals only.\<close>

definition prefuse :: "place_mode \<Rightarrow> reason \<Rightarrow> string \<Rightarrow> unit placing" where
  "prefuse md r detail = (if md = PlaceBypass \<and> r \<noteq> ReasonUnknownKey then pret () else pfail (refuse r detail))"

definition punknown :: "place_mode \<Rightarrow> string \<Rightarrow> unit placing" where
  "punknown md detail = prefuse md ReasonUnknownKey detail"

text \<open>\<^verbatim>\<open>if cond { if d := refuse(...); d != nil { return nil, d } }\<close>\<close>

definition pguard :: "bool \<Rightarrow> unit placing \<Rightarrow> unit placing" where
  "pguard b m = (if b then m else pret ())"

subsection \<open>The entries the unit sets and removes\<close>

definition place_entry :: "(string \<Rightarrow> string) \<Rightarrow> side \<Rightarrow> place_mode \<Rightarrow> nat \<Rightarrow> dentry_op \<Rightarrow> place_acc \<Rightarrow> place_acc placing" where
  "place_entry quote side md i op s =
     (if op_del op then
        pbind (pentry side (op_dir op) (op_name op)) (\<lambda>r.
          case r of
            Inl e \<Rightarrow> pbind (punknown md (''cannot read entry '' @ quote (op_name op))) (\<lambda>_. pret s)
          | Inr None \<Rightarrow> pret s
          | Inr (Some (ino, typ)) \<Rightarrow>
              pbind (punlink ino) (\<lambda>_.
              pret (note_ino ino (s\<lparr>pa_removed := slice_add ino (op_dir op) (pa_removed s),
                pa_delIno := AList.update i ino (pa_delIno s)\<rparr>))))
      else
        pret (note_ino (op_ino op) (s\<lparr>pa_placed := slice_add (op_ino op)
          \<lparr>pi_dir = op_dir op, pi_typ = op_typ op, pi_isDir = op_isDir op, pi_trash = op_trash op\<rparr> (pa_placed s)\<rparr>)))"

definition place_dentry :: "(string \<Rightarrow> string) \<Rightarrow> side \<Rightarrow> place_mode \<Rightarrow> nat \<times> dentry_op \<Rightarrow> place_acc \<Rightarrow> place_acc placing" where
  "place_dentry quote side md x s =
     (case x of (i, op) \<Rightarrow>
      pbind (pguard (op_dir op = TrashInode)
        (prefuse md ReasonBGOnly (''trash root entry '' @ quote (op_name op) @ '' outside an hourly directory create''))) (\<lambda>_.
      pbind (pguard (\<not> op_del op \<and> \<not> op_trash op \<and> isTrashIno (op_ino op))
        (prefuse md ReasonBGOnly (''entry '' @ quote (op_name op) @ '' outside the trash names trash inode '' @ inoStr (op_ino op)))) (\<lambda>_.
      if op_trash op then place_entry quote side md i op s
      else
        pbind (ptry (resolveDir side (op_dir op))) (\<lambda>r.
          case r of
            Inl e \<Rightarrow> pbind (punknown md (''unresolved directory '' @ inoStr (op_dir op) @ '': '' @ e)) (\<lambda>_. pret s)
          | Inr l \<Rightarrow> place_entry quote side md i op (add_loc l s)))))"

subsection \<open>What Redis holds for the inodes\<close>

definition place_stored :: "side \<Rightarrow> place_mode \<Rightarrow> nat \<Rightarrow> place_acc \<Rightarrow> place_acc placing" where
  "place_stored side md n s =
     (if isTrashIno n then pret s
      else
        pbind (ptry (placementOf side n)) (\<lambda>r.
          case r of
            Inl e \<Rightarrow> pbind (punknown md (''cannot read inode '' @ inoStr n @ '': '' @ e)) (\<lambda>_. pret s)
          | Inr pl \<Rightarrow> pret (s\<lparr>pa_stored := AList.update n pl (pa_stored s)\<rparr>)))"

definition trash_entry_added :: "(string \<Rightarrow> string) \<Rightarrow> side \<Rightarrow> place_mode \<Rightarrow> dentry_op \<Rightarrow> unit placing" where
  "trash_entry_added quote side md op =
     (if \<not> op_trash op \<or> op_del op then pret ()
      else
        pbind (pentry side (op_dir op) (op_name op)) (\<lambda>r.
          case r of
            Inl e \<Rightarrow> punknown md (''cannot read entry '' @ quote (op_name op))
          | Inr None \<Rightarrow> pret ()
          | Inr (Some (cur, typ)) \<Rightarrow>
              pguard (cur \<noteq> op_ino op)
                (prefuse md ReasonBGOnly (''trash entry '' @ quote (op_name op) @ '' replaces the entry for inode '' @ inoStr cur))))"

definition entry_replaced :: "(string \<Rightarrow> string) \<Rightarrow> side \<Rightarrow> place_mode \<Rightarrow> dentry_op \<Rightarrow> place_acc \<Rightarrow> place_acc placing" where
  "entry_replaced quote side md op s =
     (if op_del op \<or> isTrashIno (op_ino op) \<or> \<not> pl_exists (stored_at s (op_ino op)) then pret s
      else
        pbind (pentry side (op_dir op) (op_name op)) (\<lambda>r.
          case r of
            Inl e \<Rightarrow> pbind (punknown md (''cannot read entry '' @ quote (op_name op))) (\<lambda>_. pret s)
          | Inr None \<Rightarrow> pret s
          | Inr (Some (cur, typ)) \<Rightarrow>
              if cur = op_ino op then pret s
              else
                let s1 = s\<lparr>pa_removed := slice_add cur (op_dir op) (pa_removed s)\<rparr> in
                pbind (punlink cur) (\<lambda>_.
                if cur \<in> set (pa_order s) then pret s1
                else
                  pbind (ptry (placementOf side cur)) (\<lambda>q.
                    case q of
                      Inl e \<Rightarrow> pbind (punknown md (''cannot read replaced inode '' @ inoStr cur @ '': '' @ e)) (\<lambda>_. pret s1)
                    | Inr pl \<Rightarrow>
                        pret (s1\<lparr>pa_order := pa_order s1 @ [cur], pa_stored := AList.update cur pl (pa_stored s1)\<rparr>)))))"

subsection \<open>New inodes\<close>

definition new_refuse :: "nat \<Rightarrow> reason \<Rightarrow> string \<Rightarrow> denial" where
  "new_refuse n r detail = refuse r (''new inode '' @ inoStr n @ '': '' @ detail)"

definition newInodeGate ::
    "principal \<Rightarrow> unit_env \<Rightarrow> nat \<Rightarrow> placed_in list \<Rightarrow> (nat \<times> attr_info) list \<Rightarrow> denial option" where
  "newInodeGate p ue n newHere attrs =
     (case map_of attrs n of
        None \<Rightarrow> Some (new_refuse n ReasonUnknownKey ''an entry names it but this unit does not create it'')
      | Some at \<Rightarrow>
          if length newHere \<noteq> 1 \<or> a_parent at \<noteq> pi_dir (newHere ! 0) then
            Some (new_refuse n ReasonUnknownKey ''not created in exactly one directory, its Attr.Parent'')
          else if a_typ at \<noteq> pi_typ (newHere ! 0) then
            Some (new_refuse n ReasonUnknownKey ''its attr and its entry differ in type'')
          else case v_inodeOwner ue of
            None \<Rightarrow> Some (new_refuse n ReasonAdminOnly ''no inode allocation record'')
          | Some owner \<Rightarrow>
              (case owner n of
                 Inl e \<Rightarrow> Some (new_refuse n ReasonBGOnly (''inode allocation record: '' @ e))
               | Inr (Some o') \<Rightarrow>
                   if o' \<noteq> p_name p then Some (new_refuse n ReasonAdminOnly ''from another principal's INCRBY nextinode'')
                   else None
               | Inr None \<Rightarrow>
                   (case v_inodeMark ue of
                      None \<Rightarrow> Some (new_refuse n ReasonAdminOnly ''no inode allocation record'')
                    | Some (Inl e) \<Rightarrow> Some (new_refuse n ReasonBGOnly (''inode allocation mark: '' @ e))
                    | Some (Inr mark) \<Rightarrow>
                        if mark < n then Some (new_refuse n ReasonAdminOnly ''not from this principal's INCRBY nextinode'')
                        else None)))"

text \<open>\<^verbatim>\<open>oneProject\<close>: \<open>first\<close> is 0 until a project has been seen.\<close>

fun one_project :: "nat \<Rightarrow> location list \<Rightarrow> denial option" where
  "one_project first [] = None"
| "one_project first (l # ls) =
     (if loc_kind l \<noteq> NsProject then one_project first ls
      else if first = 0 then one_project (loc_proj l) ls
      else if loc_proj l \<noteq> first then
        Some ((refuse ReasonXProject ''hard link with parents in more than one project'')\<lparr>d_proj := loc_proj l\<rparr>)
      else one_project first ls)"

definition oneProject :: "location list \<Rightarrow> denial option" where "oneProject ls = one_project 0 ls"

definition nonTrash :: "placed_in list \<Rightarrow> placed_in list" where "nonTrash ps = filter (\<lambda>q. \<not> pi_trash q) ps"

definition placedAt :: "placed_in list \<Rightarrow> nat \<Rightarrow> bool" where "placedAt ps d \<longleftrightarrow> list_ex (\<lambda>q. pi_dir q = d) ps"

definition pdeny :: "denial option \<Rightarrow> unit placing" where
  "pdeny d = (case d of None \<Rightarrow> pret () | Some x \<Rightarrow> pfail x)"

subsection \<open>One inode of the unit\<close>

text \<open>The locations of the directories an inode is newly placed in.\<close>

definition place_new :: "side \<Rightarrow> place_mode \<Rightarrow> nat \<Rightarrow> (placed_in \<Rightarrow> bool) \<Rightarrow> placed_in \<Rightarrow> location list \<Rightarrow> location list placing" where
  "place_new side md n isDir q ls =
     pbind (ptry (childLocP side (pi_dir q) n (isDir q) True)) (\<lambda>r.
       case r of
         Inl e \<Rightarrow> pbind (punknown md (''unresolved directory '' @ inoStr (pi_dir q))) (\<lambda>_. pret ls)
       | Inr l \<Rightarrow> pret (ls @ [l]))"

definition place_created ::
    "side \<Rightarrow> place_mode \<Rightarrow> principal \<Rightarrow> punit \<Rightarrow> unit_env \<Rightarrow> unit_facts \<Rightarrow> nat \<Rightarrow> string \<Rightarrow> place_acc \<Rightarrow> place_acc placing" where
  "place_created side md p u ue f n why s =
     (let here = slice_at (pa_placed s) n; newHere = nonTrash here in
      if md = PlaceBypass \<and> f_dentries f = [] \<and> f_setAttr f = [] \<and> here = [] \<and> f_trashKey f = [] \<and> absentChunkCleanup u n
      then pret s
      else if newHere = [] then
        (if here = [] \<and> map_of (f_why f) n \<in> {None, Some []} then pret s
         else pbind (punknown md (''write to inode '' @ inoStr n @ '' that does not exist and is not created here ('' @ why @ '')'')) (\<lambda>_. pret s))
      else
        pbind (pfold (place_new side md n pi_isDir) newHere []) (\<lambda>ls.
        pbind (pguard (case map_of (f_setAttr f) n of Some at \<Rightarrow> a_parent at \<noteq> 0 \<and> \<not> placedAt newHere (a_parent at) | None \<Rightarrow> False)
          (punknown md (''new inode '' @ inoStr n @ '' claims a parent it is not created in''))) (\<lambda>_.
        pbind (if md = PlaceBypass then pret () else pdeny (newInodeGate p ue n newHere (f_setAttr f))) (\<lambda>_.
        pret (s\<lparr>pa_locs := pa_locs s @ ls\<rparr>)))))"

text \<open>The places a stored inode has now; in the trash only a restore may touch it.\<close>

fun place_now ::
    "place_mode \<Rightarrow> nat \<Rightarrow> string \<Rightarrow> nat list \<Rightarrow> bool \<Rightarrow> (nat \<times> location) list \<Rightarrow> location list placing" where
  "place_now md n why gone newer [] = pret []"
| "place_now md n why gone newer ((par, l) # pls) =
     (if loc_kind l = NsTrash then
        pbind (pguard (\<not> (par \<in> set gone \<and> newer))
          (prefuse md ReasonBGOnly (''write to inode '' @ inoStr n @ '' in ns:trash ('' @ why @ '')''))) (\<lambda>_.
        place_now md n why gone newer pls)
      else pbind (place_now md n why gone newer pls) (\<lambda>ls. pret (l # ls)))"

text \<open>A second place for an inode: a directory must leave the first, and a hard link stays in one project.\<close>

definition place_moved ::
    "side \<Rightarrow> place_mode \<Rightarrow> nat \<Rightarrow> placement \<Rightarrow> nat list \<Rightarrow> placed_in list \<Rightarrow> location list \<Rightarrow> location list placing" where
  "place_moved side md n pl gone newHere sl =
     (let moved = (gone \<noteq> []) in
      if newHere \<noteq> [] then
        pbind (pguard (\<not> moved \<and> pl_isDir pl)
          (punknown md (''directory '' @ inoStr n @ '' placed in a second directory without leaving the first''))) (\<lambda>_.
        pbind (pfold (place_new side md n (\<lambda>_. pl_isDir pl)) newHere []) (\<lambda>ls.
        pbind (if (\<not> moved \<or> pl_parent pl = 0) \<and> md = PlaceStrict
               then pdeny (oneProject (if moved then sl else sl @ ls)) else pret ()) (\<lambda>_.
        pret ls)))
      else if pl_parent pl = 0 \<and> md = PlaceStrict then pbind (pdeny (oneProject sl)) (\<lambda>_. pret [])
      else pret [])"

definition place_link :: "side \<Rightarrow> place_mode \<Rightarrow> nat \<Rightarrow> nat \<Rightarrow> location list \<Rightarrow> location list placing" where
  "place_link side md n lp ls =
     (if isTrashIno lp then pret ls
      else
        pbind (ptry (childLoc side lp n False)) (\<lambda>r.
          case r of
            Inl e \<Rightarrow> pbind (punknown md (''unresolved link parent '' @ inoStr lp)) (\<lambda>_. pret ls)
          | Inr l \<Rightarrow> pret (ls @ [l])))"

text \<open>\<^verbatim>\<open>Attr.Parent\<close> changes only as the entries of the unit say.\<close>

definition parent_change :: "unit_facts \<Rightarrow> nat \<Rightarrow> placement \<Rightarrow> place_acc \<Rightarrow> attr_info \<Rightarrow> bool" where
  "parent_change f n pl s at \<longleftrightarrow>
     (if a_parent at = 0 then \<not> pl_isDir pl \<and> (nonTrash (slice_at (pa_placed s) n) \<noteq> [] \<or> f_links f n \<noteq> [])
      else placedAt (slice_at (pa_placed s) n) (a_parent at) \<and>
        (pl_parent pl = 0 \<or> pl_parent pl \<in> set (slice_at (pa_removed s) n)))"

definition place_kept ::
    "side \<Rightarrow> place_mode \<Rightarrow> unit_facts \<Rightarrow> nat \<Rightarrow> placement \<Rightarrow> string \<Rightarrow> place_acc \<Rightarrow> place_acc placing" where
  "place_kept side md f n pl why s =
     (let gone = slice_at (pa_removed s) n; newHere = nonTrash (slice_at (pa_placed s) n) in
      pbind (ptry (locsOf side n pl)) (\<lambda>r.
        case r of
          Inl e \<Rightarrow> pbind (punknown md (''unresolved placement of inode '' @ inoStr n @ '' ('' @ why @ ''): '' @ e)) (\<lambda>_. pret s)
        | Inr sl \<Rightarrow>
            pbind (place_now md n why gone (newHere \<noteq> []) (zip (pl_parents pl) sl)) (\<lambda>l1.
            pbind (place_moved side md n pl gone newHere sl) (\<lambda>l2.
            pbind (pfold (place_link side md n) (f_links f n) []) (\<lambda>l3.
            pbind (pguard (case map_of (f_setAttr f) n of
                             Some at \<Rightarrow> a_parent at \<noteq> pl_parent pl \<and> \<not> parent_change f n pl s at | None \<Rightarrow> False)
              (punknown md (''Attr.Parent of inode '' @ inoStr n @ '' changed from '' @ inoStr (pl_parent pl) @ '' to ''
                 @ (case map_of (f_setAttr f) n of Some at \<Rightarrow> inoStr (a_parent at) | None \<Rightarrow> []) @ '' without matching entries in this unit''))) (\<lambda>_.
            pret (s\<lparr>pa_locs := pa_locs s @ l1 @ l2 @ l3\<rparr>)))))))"

definition place_inode ::
    "side \<Rightarrow> place_mode \<Rightarrow> principal \<Rightarrow> punit \<Rightarrow> unit_env \<Rightarrow> unit_facts \<Rightarrow> nat \<Rightarrow> place_acc \<Rightarrow> place_acc placing" where
  "place_inode side md p u ue f n s =
     (if isTrashIno n then pret s
      else
        let pl = stored_at s n;
            why = (case map_of (f_why f) n of Some w \<Rightarrow> w | None \<Rightarrow> []);
            why1 = (if why = [] then ''entry for inode '' @ inoStr n else why)
        in if pl_exists pl then place_kept side md f n pl why1 s else place_created side md p u ue f n why1 s)"

subsection \<open>Trash entries\<close>

definition trash_named :: "place_acc \<Rightarrow> dentry_op \<Rightarrow> bool" where
  "trash_named s op \<longleftrightarrow>
     (case trashEntryOrigin (op_name op) of
        Some (dir, ino) \<Rightarrow> ino = op_ino op \<and> \<not> isTrashIno dir \<and> dir \<in> set (slice_at (pa_removed s) (op_ino op))
      | None \<Rightarrow> False)"

definition trash_pair :: "(string \<Rightarrow> string) \<Rightarrow> place_mode \<Rightarrow> place_acc \<Rightarrow> dentry_op \<Rightarrow> unit placing" where
  "trash_pair quote md s op =
     (if \<not> op_trash op \<or> op_del op then pret ()
      else pguard (\<not> list_ex (\<lambda>d. \<not> isTrashIno d) (slice_at (pa_removed s) (op_ino op)) \<or> \<not> trash_named s op)
        (prefuse md ReasonBGOnly (''trash entry '' @ quote (op_name op) @ '' for inode '' @ inoStr (op_ino op)
           @ '' is not named for an entry this unit removes'')))"

definition restores :: "place_acc \<Rightarrow> nat \<Rightarrow> bool" where
  "restores s dir \<longleftrightarrow>
     list_ex (\<lambda>n. dir \<in> set (slice_at (pa_removed s) n) \<and> nonTrash (slice_at (pa_placed s) n) \<noteq> []) (map fst (pa_removed s))"

definition trash_restore ::
    "(string \<Rightarrow> string) \<Rightarrow> side \<Rightarrow> place_mode \<Rightarrow> place_acc \<Rightarrow> nat \<times> dentry_op \<Rightarrow> location list \<Rightarrow> location list placing" where
  "trash_restore quote side md s x ls =
     (case x of (i, op) \<Rightarrow>
      if \<not> op_trash op \<or> \<not> op_del op then pret ls
      else if \<not> restores s (op_dir op) then
        pbind (prefuse md ReasonBGOnly ''removing a trash entry without restoring it'') (\<lambda>_. pret ls)
      else if md = PlaceBypass then pret ls
      else case (map_of (pa_delIno s) i, trashEntryOrigin (op_name op)) of
        (Some n, Some (dir, ino)) \<Rightarrow>
          if ino \<noteq> n then
            pfail (refuse ReasonBGOnly (''trash entry '' @ quote (op_name op) @ '' does not name the directory it was trashed from''))
          else
            pbind (ptry (resolveDir side dir)) (\<lambda>r.
              case r of
                Inl e \<Rightarrow> pfail (refuse ReasonUnknownKey (''unresolved original directory '' @ inoStr dir @ '' of a trash entry: '' @ e))
              | Inr l \<Rightarrow> pret (ls @ [l]))
      | _ \<Rightarrow> pfail (refuse ReasonBGOnly (''trash entry '' @ quote (op_name op) @ '' does not name the directory it was trashed from'')))"

subsection \<open>The whole unit\<close>

definition place_start :: place_acc where
  "place_start = \<lparr>pa_locs = [], pa_removed = [], pa_delIno = [], pa_placed = [], pa_order = [], pa_stored = []\<rparr>"

definition placeUnit ::
    "(string \<Rightarrow> string) \<Rightarrow> side \<Rightarrow> principal \<Rightarrow> punit \<Rightarrow> unit_env \<Rightarrow> unit_facts \<Rightarrow> place_mode
     \<Rightarrow> location list placing" where
  "placeUnit quote side p u ue f md =
     pbind (pguard (f_trashKey f \<noteq> [])
       (prefuse md ReasonBGOnly (''write to a trash inode's own key: '' @ f_trashKey f))) (\<lambda>_.
     pbind (pfold (place_dentry quote side md) (enumerate 0 (f_dentries f)) place_start) (\<lambda>s1.
     pbind (pfold (place_stored side md) (pa_order (fold note_ino (f_inodes f) s1)) (fold note_ino (f_inodes f) s1)) (\<lambda>s2.
     pbind (pfold (\<lambda>op _. trash_entry_added quote side md op) (f_dentries f) ()) (\<lambda>_.
     pbind (pfold (entry_replaced quote side md) (f_dentries f) s2) (\<lambda>s3.
     pbind (pfold (place_inode side md p u ue f) (pa_order s3) s3) (\<lambda>s4.
     pbind (pfold (\<lambda>op _. trash_pair quote md s4 op) (f_dentries f) ()) (\<lambda>_.
     pfold (trash_restore quote side md s4) (enumerate 0 (f_dentries f)) (pa_locs s4))))))))"

end
