(* ===== verification/Grants.thy ===== *)
theory Grants
  imports Placement "HOL-Library.Char_ord" "HOL-Library.List_Lexorder"
begin

section \<open>Per-person write grants (grants.go)\<close>

text \<open>
  The people of the principals file, the grant paths they may write in, and \<open>grantCheck\<close>, which
  refuses a unit of a limited person that touches anything outside them.  Paths are byte strings;
  \<^verbatim>\<open>%q\<close> of an error text is the argument \<open>quote\<close>.
\<close>

definition AccessAll :: string where "AccessAll = ''all''"
definition AccessGranted :: string where "AccessGranted = ''granted''"
definition maxPeople :: nat where "maxPeople = 4096"
definition maxGrants :: nat where "maxGrants = 1024"
definition maxGrantDepth :: nat where "maxGrantDepth = 16"
definition maxGrantNameLen :: nat where "maxGrantNameLen = 255"

definition TrimSuffix :: "string \<Rightarrow> string \<Rightarrow> string" where
  "TrimSuffix s x = (if length x \<le> length s \<and> drop (length s - length x) s = x then take (length s - length x) s else s)"

text \<open>\<^verbatim>\<open>strings.Split(s, "/")\<close>: never empty.\<close>

fun Split_slash :: "string \<Rightarrow> string list" where
  "Split_slash [] = [[]]"
| "Split_slash (c # s) =
     (if c = CHR ''/'' then [] # Split_slash s
      else case Split_slash s of [] \<Rightarrow> [[c]] | w # ws \<Rightarrow> (c # w) # ws)"

definition control_char :: "char \<Rightarrow> bool" where
  "control_char c \<longleftrightarrow> (of_char c :: nat) < 32 \<or> (of_char c :: nat) = 127"

datatype grant_err = NotAbsolute | VolumeRoot | TooDeep | BadComponent | LongComponent | ControlCharacter

fun grant_parts :: "string list \<Rightarrow> grant_err option" where
  "grant_parts [] = None"
| "grant_parts (c # cs) =
     (if c = [] \<or> c = ''.'' \<or> c = ''..'' then Some BadComponent
      else if maxGrantNameLen < length c then Some LongComponent
      else if list_ex control_char c then Some ControlCharacter
      else grant_parts cs)"

definition CleanGrantPath :: "string \<Rightarrow> grant_err + string" where
  "CleanGrantPath p =
     (if \<not> HasPrefix p ''/'' then Inl NotAbsolute
      else
        let t = TrimSuffix p ''/'' in
        if t = [] then Inl VolumeRoot
        else
          let parts = Split_slash (drop 1 t) in
          if maxGrantDepth < length parts then Inl TooDeep
          else case grant_parts parts of Some e \<Rightarrow> Inl e | None \<Rightarrow> Inr t)"

subsection \<open>The people section\<close>

record person_entry =
  en_id :: string
  en_name :: string
  en_access :: string
  en_grants :: "string list"
  en_devices :: "string list"

record people_table =
  pt_people :: "(string \<times> person) list"
  pt_scoped :: bool
  pt_restrict :: bool
  pt_nPeople :: nat

datatype people_err =
    TooManyPeople | BadID string | DuplicateID string | BadName string | BadAccess string | TooManyGrants string
  | BadGrant string grant_err | NotAMac string string | DeviceTaken string string

text \<open>\<^verbatim>\<open>^[A-Za-z0-9][A-Za-z0-9._-]{0,63}$\<close>\<close>

definition id_alnum :: "char \<Rightarrow> bool" where
  "id_alnum c \<longleftrightarrow> (let n = (of_char c :: nat) in 65 \<le> n \<and> n \<le> 90 \<or> 97 \<le> n \<and> n \<le> 122 \<or> 48 \<le> n \<and> n \<le> 57)"

definition personID :: "string \<Rightarrow> bool" where
  "personID s \<longleftrightarrow>
     (case s of [] \<Rightarrow> False
      | c # r \<Rightarrow> id_alnum c \<and> length r \<le> 63 \<and> list_all (\<lambda>x. id_alnum x \<or> x \<in> set ''._-'') r)"

fun clean_grants :: "string list \<Rightarrow> string list \<Rightarrow> grant_err + string list" where
  "clean_grants [] acc = Inr acc"
| "clean_grants (g # gs) acc =
     (case CleanGrantPath g of
        Inl e \<Rightarrow> Inl e
      | Inr c \<Rightarrow> clean_grants gs (if c \<in> set acc then acc else acc @ [c]))"

fun person_devices ::
    "string \<Rightarrow> person \<Rightarrow> (string \<Rightarrow> kind option) \<Rightarrow> string list \<Rightarrow> (string \<times> person) list \<Rightarrow> people_err + (string \<times> person) list" where
  "person_devices pid pr kinds [] m = Inr m"
| "person_devices pid pr kinds (d # ds) m =
     (if kinds d \<noteq> None \<and> kinds d \<noteq> Some KindMac then Inl (NotAMac pid d)
      else if map_of m d \<noteq> None then Inl (DeviceTaken pid d)
      else person_devices pid pr kinds ds (AList.update d pr m))"

definition parse_person ::
    "(string \<Rightarrow> kind option) \<Rightarrow> person_entry \<Rightarrow> string list \<Rightarrow> people_table \<Rightarrow> people_err + people_table" where
  "parse_person kinds e ids t =
     (if \<not> personID (en_id e) then Inl (BadID (en_id e))
      else if en_id e \<in> set ids then Inl (DuplicateID (en_id e))
      else if 256 < length (en_name e) \<or> list_ex (\<lambda>c. c \<in> {CR, LF, CHR 0x00}) (en_name e) then Inl (BadName (en_id e))
      else if en_access e \<noteq> AccessAll \<and> en_access e \<noteq> AccessGranted then Inl (BadAccess (en_id e))
      else if maxGrants < length (en_grants e) then Inl (TooManyGrants (en_id e))
      else case clean_grants (en_grants e) [] of
        Inl x \<Rightarrow> Inl (BadGrant (en_id e) x)
      | Inr gs \<Rightarrow>
          let pr = \<lparr>pe_id = en_id e, pe_name = en_name e, pe_scoped = (en_access e = AccessGranted), pe_grants = sort gs\<rparr> in
          (case person_devices (en_id e) pr kinds (en_devices e) (pt_people t) of
             Inl x \<Rightarrow> Inl x
           | Inr m \<Rightarrow> Inr (t\<lparr>pt_people := m, pt_scoped := pt_scoped t \<or> pe_scoped pr, pt_nPeople := pt_nPeople t + 1\<rparr>)))"

fun parse_people ::
    "(string \<Rightarrow> kind option) \<Rightarrow> person_entry list \<Rightarrow> string list \<Rightarrow> people_table \<Rightarrow> people_err + people_table" where
  "parse_people kinds [] ids t = Inr t"
| "parse_people kinds (e # es) ids t =
     (case parse_person kinds e ids t of
        Inl x \<Rightarrow> Inl x
      | Inr t1 \<Rightarrow> parse_people kinds es (en_id e # ids) t1)"

definition parsePeople :: "(string \<Rightarrow> kind option) \<Rightarrow> person_entry list \<Rightarrow> people_table \<Rightarrow> people_err + people_table" where
  "parsePeople kinds people t = (if maxPeople < length people then Inl TooManyPeople else parse_people kinds people [] t)"

definition PersonOf :: "people_table \<Rightarrow> string \<Rightarrow> person option" where "PersonOf t name = map_of (pt_people t) name"

definition GrantsInForce :: "people_table \<Rightarrow> bool" where "GrantsInForce t \<longleftrightarrow> pt_scoped t \<or> pt_restrict t"

definition HasPeople :: "people_table \<Rightarrow> bool" where "HasPeople t \<longleftrightarrow> 0 < pt_nPeople t"

definition grantsApply :: "principal \<Rightarrow> unit_env \<Rightarrow> bool" where
  "grantsApply p ue \<longleftrightarrow> p_kind p = KindMac \<and> ((case v_person ue of Some pe \<Rightarrow> pe_scoped pe | None \<Rightarrow> False) \<or> v_unassigned ue)"

subsection \<open>Granted directories\<close>

record grant_cache =
  gc_epoch :: nat
  gc_key :: "nat \<times> nat"
  gc_dirs :: "(string \<times> nat) list option"

fun lookup_parts :: "side \<Rightarrow> int \<Rightarrow> nat \<Rightarrow> string list \<Rightarrow> string + nat" where
  "lookup_parts side db dir [] = Inr dir"
| "lookup_parts side db dir (c # cs) =
     (case entryAt side db dir c of
        Inl e \<Rightarrow> Inl e
      | Inr None \<Rightarrow> Inr 0
      | Inr (Some (ino, typ)) \<Rightarrow> if typ \<noteq> typeDir then Inr 0 else lookup_parts side db ino cs)"

text \<open>0: no such directory.\<close>

definition lookupPath :: "side \<Rightarrow> int \<Rightarrow> string \<Rightarrow> string + nat" where
  "lookupPath side db path = lookup_parts side db rootIno (Split_slash (if HasPrefix path ''/'' then drop 1 path else path))"

fun lookup_missing ::
    "side \<Rightarrow> int \<Rightarrow> string list \<Rightarrow> (string \<times> nat) list \<Rightarrow> nat list \<Rightarrow> (string + nat list) \<times> (string \<times> nat) list" where
  "lookup_missing side db [] m out = (Inr out, m)"
| "lookup_missing side db (g # gs) m out =
     (case lookupPath side db g of
        Inl e \<Rightarrow> (Inl e, m)
      | Inr ino \<Rightarrow> lookup_missing side db gs (AList.update g ino m) (if ino \<noteq> 0 then ino # out else out))"

definition grantedDirs :: "side \<Rightarrow> string list \<Rightarrow> ancestry \<Rightarrow> grant_cache \<Rightarrow> (string + nat list) \<times> grant_cache" where
  "grantedDirs side grants a gc =
     (let key = (pc_gen (an_memo a), gc_epoch gc);
          m = (case gc_dirs gc of Some ds \<Rightarrow> if gc_key gc = key then ds else [] | None \<Rightarrow> []);
          cached = filter (\<lambda>ino. ino \<noteq> 0) (List.map_filter (map_of m) grants);
          missing = filter (\<lambda>g. map_of m g = None) grants;
          (r, m') = lookup_missing side (an_db a) missing m cached
      in (r, gc\<lparr>gc_key := key, gc_dirs := Some m'\<rparr>))"

fun covered_f :: "nat \<Rightarrow> side \<Rightarrow> nat list \<Rightarrow> nat \<Rightarrow> ancestry \<Rightarrow> (string + bool) \<times> ancestry" where
  "covered_f 0 side granted d a = (Inl errUnresolved, a)"
| "covered_f (Suc n) side granted d a =
     (if d = rootIno then (Inr False, a)
      else if d \<in> set granted then (Inr True, a)
      else case parentOfDir side d a of
        (Inl e, a1) \<Rightarrow> (Inl e, a1)
      | (Inr p, a1) \<Rightarrow> covered_f n side granted p a1)"

definition covered :: "side \<Rightarrow> nat list \<Rightarrow> nat \<Rightarrow> ancestry \<Rightarrow> (string + bool) \<times> ancestry" where
  "covered side granted d a = covered_f 4096 side granted d a"

subsection \<open>The check of a unit\<close>

definition not_granted :: "person \<Rightarrow> principal \<Rightarrow> nat \<Rightarrow> string \<Rightarrow> denial" where
  "not_granted pe p proj detail =
     (refuse ReasonNotGranted (''person '' @ pe_id pe @ '' ('' @ p_name p @ ''): '' @ detail))\<lparr>d_proj := proj\<rparr>"

definition dirCovered :: "side \<Rightarrow> person \<Rightarrow> principal \<Rightarrow> nat list \<Rightarrow> nat \<Rightarrow> string \<Rightarrow> unit placing" where
  "dirCovered side pe p granted d what =
     pbind (ptry (covered side granted d)) (\<lambda>r st.
       (case r of
          Inl e \<Rightarrow> pfail (not_granted pe p d (''cannot resolve directory '' @ inoStr d @ '': '' @ e))
        | Inr True \<Rightarrow> pret ()
        | Inr False \<Rightarrow>
            let lbl = label (fst st) d in
            pfail (not_granted pe p d (what @ (if lbl \<noteq> [] then '' ('' @ lbl @ '')'' else []) @ '' is not granted''))) st)"

definition scope :: "side \<Rightarrow> person \<Rightarrow> principal \<Rightarrow> nat list \<Rightarrow> location \<Rightarrow> unit placing" where
  "scope side pe p granted loc =
     (case loc_kind loc of
        NsDerivatives \<Rightarrow> pret ()
      | NsTrash \<Rightarrow> pfail (not_granted pe p 0 ''write inside a trashed directory'')
      | NsProject \<Rightarrow> dirCovered side pe p granted (loc_proj loc) (''project '' @ inoStr (loc_proj loc))
      | NsRoot \<Rightarrow> dirCovered side pe p granted (loc_dir loc) (''folder '' @ inoStr (loc_dir loc) @ '' above the project depth'')
      | NsUnknown \<Rightarrow> pfail (not_granted pe p 0 ''write to an unresolved place''))"

definition quota_covered :: "side \<Rightarrow> person \<Rightarrow> principal \<Rightarrow> nat list \<Rightarrow> nat \<Rightarrow> unit placing" where
  "quota_covered side pe p granted dir =
     pbind (ptry (resolveDir side dir)) (\<lambda>r.
       case r of
         Inl e \<Rightarrow> pfail (not_granted pe p 0 (''quota row of an unresolvable directory '' @ inoStr dir))
       | Inr loc \<Rightarrow>
           if loc_kind loc = NsRoot then dirCovered side pe p granted dir (''the quota of folder '' @ inoStr dir)
           else scope side pe p granted loc)"

definition row_covered :: "side \<Rightarrow> person \<Rightarrow> principal \<Rightarrow> nat list \<Rightarrow> nat list \<Rightarrow> stat_row \<Rightarrow> unit placing" where
  "row_covered side pe p granted own r =
     (if row_gc r \<or> sr_dir r \<in> set own then pret ()
      else
        pbind (ptry (resolveDir side (sr_dir r))) (\<lambda>x.
          case x of
            Inl e \<Rightarrow> pfail (not_granted pe p 0 (sr_hash r @ '' row of an unresolvable directory '' @ inoStr (sr_dir r)))
          | Inr loc \<Rightarrow>
              if loc_kind loc \<noteq> NsRoot then scope side pe p granted loc
              else if \<not> quotaUsage r then pret ()
              else dirCovered side pe p granted (sr_dir r)
                (''the quota usage ('' @ sr_hash r @ '') of folder '' @ inoStr (sr_dir r))))"

text \<open>\<^verbatim>\<open>name[:i]\<close> and \<^verbatim>\<open>name[i+1:i+1+j]\<close> of \<^verbatim>\<open><parent>-<inode>-<name>\<close>.\<close>

definition trashEntryParent :: "string \<Rightarrow> nat option" where
  "trashEntryParent name =
     (case IndexByte name CHR ''-'' of
        None \<Rightarrow> None
      | Some i \<Rightarrow>
          if i = 0 then None
          else case IndexByte (drop (i + 1) name) CHR ''-'' of
            None \<Rightarrow> None
          | Some j \<Rightarrow>
              if j = 0 then None
              else if digits (take j (drop (i + 1) name)) = None then None
              else case digits (take i name) of Some q \<Rightarrow> if q \<noteq> 0 then Some q else None | None \<Rightarrow> None)"

definition restore_covered :: "(string \<Rightarrow> string) \<Rightarrow> side \<Rightarrow> person \<Rightarrow> principal \<Rightarrow> nat list \<Rightarrow> dentry_op \<Rightarrow> unit placing" where
  "restore_covered quote side pe p granted op =
     (if \<not> op_trash op \<or> \<not> op_del op then pret ()
      else case trashEntryParent (op_name op) of
        None \<Rightarrow> pfail (not_granted pe p 0 (''restore of trash entry '' @ quote (op_name op) @ '': its original folder is not known''))
      | Some parent \<Rightarrow>
          dirCovered side pe p granted parent (''folder '' @ inoStr parent @ '' the restored entry was deleted from''))"

definition pall :: "('x \<Rightarrow> unit placing) \<Rightarrow> 'x list \<Rightarrow> unit placing" where
  "pall f xs = pfold (\<lambda>x _. f x) xs ()"

text \<open>\<^verbatim>\<open>placeUnit\<close> with its refusals reworded.\<close>

definition grant_place :: "person \<Rightarrow> principal \<Rightarrow> 'a placing \<Rightarrow> 'a placing" where
  "grant_place pe p m st =
     (case m st of
        (Inl d, st1) \<Rightarrow> (Inl (not_granted pe p (d_proj d) (''write the proxy cannot place: '' @ d_detail d)), st1)
      | r \<Rightarrow> r)"

definition grant_unit ::
    "(string \<Rightarrow> string) \<Rightarrow> side \<Rightarrow> principal \<Rightarrow> person \<Rightarrow> punit \<Rightarrow> unit_env \<Rightarrow> unit_facts \<Rightarrow> nat list \<Rightarrow> unit placing" where
  "grant_unit quote side p pe u ue f granted =
     pbind (pall (quota_covered side pe p granted) (f_quota f)) (\<lambda>_.
     pbind (pall (row_covered side pe p granted (f_inodes f)) (f_statRows f)) (\<lambda>_.
     if dirStatOnly f then pret ()
     else
       pbind (grant_place pe p (placeUnit quote side p u ue f PlaceGrant)) (\<lambda>locs.
       pbind (pall (scope side pe p granted) locs) (\<lambda>_.
       pall (restore_covered quote side pe p granted) (f_dentries f)))))"

definition grantCheck ::
    "(string \<Rightarrow> string) \<Rightarrow> side \<Rightarrow> principal \<Rightarrow> punit \<Rightarrow> unit_env \<Rightarrow> unit_facts \<Rightarrow> place_st \<times> grant_cache
     \<Rightarrow> denial option \<times> place_st \<times> grant_cache" where
  "grantCheck quote side p u ue f s =
     (case s of (st, gc) \<Rightarrow>
      case v_person ue of
        None \<Rightarrow>
          (Some (refuse ReasonNotGranted (''Mac '' @ p_name p @ '' belongs to no person; while grants are in force such a Mac ''
             @ ''may read but not write (assign it to a person in the Manager)'')), st, gc)
      | Some pe \<Rightarrow>
          if f_unresolvable f \<noteq> [] then
            (Some (not_granted pe p 0 (''write the proxy cannot place: '' @ hd (f_unresolvable f))), st, gc)
          else
            (case grantedDirs side (pe_grants pe) (fst st) gc of
               (Inl e, gc1) \<Rightarrow> (Some (not_granted pe p 0 (''grant lookup failed: '' @ e)), st, gc1)
             | (Inr granted, gc1) \<Rightarrow>
                 (case grant_unit quote side p pe u ue f granted st of
                    (Inl d, st1) \<Rightarrow> (Some d, st1, gc1)
                  | (Inr _, st1) \<Rightarrow> (None, st1, gc1))))"

fun touches_root :: "side \<Rightarrow> dentry_op list \<Rightarrow> ancestry \<Rightarrow> bool \<times> ancestry" where
  "touches_root side [] a = (False, a)"
| "touches_root side (op # ops) a =
     (if op_trash op then touches_root side ops a
      else case resolveDir side (op_dir op) a of
        (Inl e, a1) \<Rightarrow> (True, a1)
      | (Inr loc, a1) \<Rightarrow> if loc_kind loc = NsRoot then (True, a1) else touches_root side ops a1)"

definition touchesRoot :: "side \<Rightarrow> unit_facts \<Rightarrow> ancestry \<Rightarrow> bool \<times> ancestry" where
  "touchesRoot side f a = touches_root side (f_dentries f) a"

end
