(* ===== verification/Classify_Props.thy ===== *)
theory Classify_Props
  imports Classify
begin

section \<open>Correctness of the classification\<close>

text \<open>
  Numbers in keys and fields are accepted exactly in the form Redis and juicefs print them, so no
  two different keys are taken for the same inode; a script runs as a read only when its body is
  pinned.
\<close>

subsection \<open>Numbers\<close>

lemma is_digit_Char [simp]:
  "is_digit (Char a b c d e f g h) \<longleftrightarrow>
   48 \<le> (of_char (Char a b c d e f g h) :: nat) \<and> (of_char (Char a b c d e f g h) :: nat) \<le> 57"
  by (rule is_digit_def)

lemma digits_FormatUint [simp]: "n \<le> max_u64 \<Longrightarrow> digits (FormatUint n) = Some n"
proof -
  assume n: "n \<le> max_u64"
  have "length (FormatUint n) \<le> 20" using n by (subst FormatUint_length) (simp_all add: go_arith)
  moreover have "hd (FormatUint n) \<noteq> CHR ''0''" if "1 < length (FormatUint n)"
    using that FormatUint_hd [of n] by (cases n) auto
  ultimately show ?thesis
    using n FormatUint_digits [of n] by (auto simp: digits_def ParseUint_FormatUint)
qed

lemma digits_Some: "digits b = Some n \<Longrightarrow> b = FormatUint n \<and> n \<le> max_u64"
  by (auto simp: digits_def ParseUint_ok FormatUint_canonical split: if_splits prod.splits option.splits)

text \<open>\<^verbatim>\<open>digits\<close> accepts exactly the canonical decimal renderings of 64-bit unsigned numbers: the
  accepted string is the one \<^verbatim>\<open>strconv.FormatUint\<close> prints for the value, so a key such as \<^verbatim>\<open>i012\<close> is
  never taken for inode 12.\<close>

lemma digits_canonical: "digits b = Some n \<longleftrightarrow> b = FormatUint n \<and> n \<le> max_u64"
  using digits_Some by auto

lemma is_digit_pos: "is_digit c \<and> c \<noteq> CHR ''0'' \<longleftrightarrow> 49 \<le> (of_char c :: nat) \<and> (of_char c :: nat) \<le> 57"
proof -
  have "(of_char c :: nat) = 48 \<longleftrightarrow> c = CHR ''0''"
    using of_char_eq_iff [of c "CHR ''0''", where 'a = nat] by simp
  then show ?thesis by (auto simp: is_digit_def)
qed

lemma hd_FormatUint_digit [simp]: "is_digit (hd (FormatUint n))"
  using FormatUint_digits [of n] by (cases "FormatUint n") auto

lemma FormatUint_eq_Cons: "FormatUint n = c # cs \<Longrightarrow> is_digit c"
  using FormatUint_digits [of n] by auto

lemma FormatUint_Cons_simp [simp]:
  "\<not> is_digit c \<Longrightarrow> FormatUint n \<noteq> c # cs" "\<not> is_digit c \<Longrightarrow> c # cs \<noteq> FormatUint n"
  using FormatUint_eq_Cons by metis+

lemma RedisInt_FormatInt:
  assumes "min_i64 \<le> i" "i \<le> max_i64" shows "RedisInt (FormatInt i) = Some i"
proof -
  have pos: "\<not> ((of_char (hd (FormatUint n)) :: nat) < 49) \<and> \<not> (57 < (of_char (hd (FormatUint n)) :: nat))"
    if "0 < n" for n
    using is_digit_pos [of "hd (FormatUint n)"] FormatUint_hd [OF that] by auto
  consider "i = 0" | "0 < i" | "i < 0" by linarith
  then show ?thesis
  proof cases
    case 1
    then show ?thesis by (simp add: RedisInt_def FormatInt_def)
  next
    case 2
    have len: "length (FormatUint (nat i)) \<le> 19" using assms 2 by (subst FormatUint_length) (simp_all add: go_arith)
    have "ParseUint (FormatUint (nat i)) = (nat i, None)"
      using assms 2 by (intro ParseUint_FormatUint) (simp add: go_arith)
    moreover have "FormatUint (nat i) \<noteq> ''0''" using FormatUint_hd [of "nat i"] 2 by auto
    ultimately show ?thesis
      using 2 len pos [of "nat i"] FormatUint_digits [of "nat i"] assms
      by (simp add: RedisInt_def FormatInt_def Let_def go_arith)
  next
    case 3
    have len: "length (FormatUint (nat (- i))) \<le> 19" using assms 3 by (subst FormatUint_length) (simp_all add: go_arith)
    have "ParseUint (FormatUint (nat (- i))) = (nat (- i), None)"
      using assms 3 by (intro ParseUint_FormatUint) (simp add: go_arith)
    then show ?thesis
      using 3 len pos [of "nat (- i)"] FormatUint_digits [of "nat (- i)"] assms
      by (simp add: RedisInt_def FormatInt_def Let_def go_arith)
  qed
qed

lemma RedisInt_Some:
  assumes "RedisInt b = Some i" shows "b = FormatInt i \<and> min_i64 \<le> i \<and> i \<le> max_i64"
proof (cases "b = ''0''")
  case True
  with assms show ?thesis by (simp add: RedisInt_def FormatInt_def go_arith)
next
  case False
  define d where "d = (if hd b = CHR ''-'' then tl b else b)"
  from assms False obtain v where b: "b \<noteq> []" and d: "d \<noteq> []" "is_digit (hd d)" "hd d \<noteq> CHR ''0''" "list_all is_digit d"
    and v: "ParseUint d = (v, None)"
    and i: "if hd b = CHR ''-'' then v \<le> 2 ^ 63 \<and> i = - int v else v \<le> 2 ^ 63 - 1 \<and> i = int v"
    using is_digit_pos [of "hd d"]
    by (auto simp: RedisInt_def Let_def d_def split: if_splits prod.splits option.splits)
  have f: "FormatUint v = d" using v d by (auto simp: ParseUint_ok intro: FormatUint_canonical)
  have "v \<noteq> 0" using f d(3) by (cases v) auto
  then show ?thesis
    using b f i by (cases b) (auto simp: FormatInt_def d_def go_arith split: if_splits)
qed

text \<open>\<^verbatim>\<open>RedisInt\<close> accepts exactly the integers Redis accepts: the canonical decimal form of a signed
  64-bit value, with no plus sign, no leading zeros and no negative zero, over the whole range
  including the smallest value.\<close>

lemma RedisInt_canonical:
  "RedisInt b = Some i \<longleftrightarrow> b = FormatInt i \<and> min_i64 \<le> i \<and> i \<le> max_i64"
  using RedisInt_Some RedisInt_FormatInt by blast

subsection \<open>Keys\<close>

text \<open>The Redis key a reference stands for; a chunk reference does not keep its index.\<close>

fun key_name :: "key_ref \<Rightarrow> string" where
  "key_name r =
     (case k_shape r of
        ShapeInode \<Rightarrow> ''i'' @ FormatUint (k_ino r)
      | ShapeDentry \<Rightarrow> ''d'' @ FormatUint (k_ino r)
      | ShapeParent \<Rightarrow> ''p'' @ FormatUint (k_ino r)
      | ShapeXattr \<Rightarrow> ''x'' @ FormatUint (k_ino r)
      | ShapeSymlink \<Rightarrow> ''s'' @ FormatUint (k_ino r)
      | ShapeFlock \<Rightarrow> ''lockf'' @ FormatUint (k_ino r)
      | ShapePlock \<Rightarrow> ''lockp'' @ FormatUint (k_ino r)
      | ShapeLocked \<Rightarrow> ''locked'' @ FormatUint (k_sid r)
      | ShapeSession \<Rightarrow> ''session'' @ FormatUint (k_sid r)
      | ShapePresence \<Rightarrow> ''jum:presence:'' @ k_suffix r
      | ShapeLinkBench \<Rightarrow> ''jm:link-bench:'' @ k_suffix r
      | ShapeFarm \<Rightarrow> ''juicefarm:'' @ k_suffix r
      | ShapeJMFarm \<Rightarrow> ''jmfarm:'' @ k_suffix r
      | ShapeJMCtl \<Rightarrow> ''jmctl:'' @ k_suffix r
      | ShapeLease \<Rightarrow> ''jmlease:'' @ k_suffix r
      | ShapeChannel \<Rightarrow> ''juicemount:metadata''
      | ShapeGlobal g \<Rightarrow> g
      | _ \<Rightarrow> [])"

lemma ino_ref_Some:
  "ino_ref sh g rest = Some r \<Longrightarrow> rest = FormatUint (k_ino r) \<and> k_shape r = sh \<and> k_group r = g
     \<and> k_hasIno r \<and> k_ino r \<le> max_u64"
  by (auto simp: ino_ref_def plain_ref_def dest: digits_Some)

lemma suffix_ref_fields [simp]: "k_suffix (suffix_ref sh g p k) = drop (length p) k"
  "k_shape (suffix_ref sh g p k) = sh"
  by (simp_all add: suffix_ref_def plain_ref_def)

lemma HasPrefix_E: assumes "HasPrefix k p" obtains x where "k = p @ x"
  using assms by (auto simp: HasPrefix_iff)

lemma namespace_ref_name:
  assumes "namespace_ref k = Some r" shows "k = key_name r \<and> k_shape r \<noteq> ShapeChunk"
proof -
  consider "HasPrefix k ''jum:presence:''" "r = suffix_ref ShapePresence GPresence ''jum:presence:'' k"
    | "HasPrefix k ''jm:link-bench:''" "r = suffix_ref ShapeLinkBench GLinkbench ''jm:link-bench:'' k"
    | "HasPrefix k ''juicefarm:''" "r = suffix_ref ShapeFarm GFarm ''juicefarm:'' k"
    | "HasPrefix k ''jmfarm:''" "r = suffix_ref ShapeJMFarm GFarm ''jmfarm:'' k"
    | "HasPrefix k ''jmctl:''" "r = suffix_ref ShapeJMCtl GFarm ''jmctl:'' k"
    | "HasPrefix k ''jmlease:''" "r = suffix_ref ShapeLease GLease ''jmlease:'' k"
    | "k = ''juicemount:metadata''" "r = plain_ref ShapeChannel GChannel"
    using assms unfolding namespace_ref_def
    by (simp only: option.inject option.distinct split: if_split_asm)
  then show ?thesis
    by cases (auto simp: plain_ref_def elim!: HasPrefix_E)
qed

lemma lock_session_ref_name:
  assumes "lock_session_ref k = Some r" shows "k = key_name r \<and> k_shape r \<noteq> ShapeChunk"
proof -
  consider "HasPrefix k ''lockf''" "ino_ref ShapeFlock GInode (drop 5 k) = Some r"
    | "HasPrefix k ''lockp''" "ino_ref ShapePlock GInode (drop 5 k) = Some r"
    | n where "HasPrefix k ''locked''" "digits (drop 6 k) = Some n" "r = (plain_ref ShapeLocked GSession)\<lparr>k_sid := n\<rparr>"
    | n where "HasPrefix k ''session''" "digits (drop 7 k) = Some n" "r = (plain_ref ShapeSession GSession)\<lparr>k_sid := n\<rparr>"
    using assms by (auto simp: lock_session_ref_def split: if_split_asm)
  then show ?thesis
  proof cases
    case 1
    then show ?thesis using ino_ref_Some [OF 1(2)] by (elim HasPrefix_E) simp
  next
    case 2
    then show ?thesis using ino_ref_Some [OF 2(2)] by (elim HasPrefix_E) simp
  next
    case 3
    then show ?thesis using digits_Some [OF 3(2)] by (elim HasPrefix_E) (simp add: plain_ref_def)
  next
    case 4
    then show ?thesis using digits_Some [OF 4(2)] by (elim HasPrefix_E) (simp add: plain_ref_def)
  qed
qed

lemma letter_ref_name:
  assumes "letter_ref k = Some r"
  shows "if k_shape r = ShapeChunk
    then \<exists>idx \<le> max_u64. k = ''c'' @ FormatUint (k_ino r) @ ''_'' @ FormatUint idx
    else k = key_name r"
proof -
  from assms obtain c rest where k: "k = c # rest"
    by (cases k) (auto simp: letter_ref_def)
  consider (chunk) u where "c = CHR ''c''" "IndexByte rest CHR ''_'' = Some u"
      "digits (drop (u + 1) rest) \<noteq> None" "ino_ref ShapeChunk GInode (take u rest) = Some r"
    | (ino) sh g where "ino_ref sh g rest = Some r"
      "(c, sh) \<in> {(CHR ''i'', ShapeInode), (CHR ''d'', ShapeDentry), (CHR ''p'', ShapeParent),
         (CHR ''x'', ShapeXattr), (CHR ''s'', ShapeSymlink)}"
    using assms k by (auto simp: letter_ref_def Let_def split: if_splits option.splits)
  then show ?thesis
  proof cases
    case chunk
    from chunk(3) obtain idx where "drop (Suc u) rest = FormatUint idx" "idx \<le> max_u64"
      using digits_Some by fastforce
    with IndexByte_split [OF chunk(2)] ino_ref_Some [OF chunk(4)] chunk(1) k show ?thesis by auto
  next
    case ino
    with ino_ref_Some [OF ino(1)] k show ?thesis by auto
  qed
qed

text \<open>C28: The key parser loses nothing: from what it returns for a recognised key the key itself can
  be rebuilt (up to the index of a chunk key).  Two different Redis keys are therefore never taken
  for the same inode, session, host or global record.\<close>

theorem ParseKey_no_alias:
  assumes "k_shape (ParseKey k) \<noteq> ShapeUnknown"
  shows "if k_shape (ParseKey k) = ShapeChunk
    then \<exists>idx \<le> max_u64. k = ''c'' @ FormatUint (k_ino (ParseKey k)) @ ''_'' @ FormatUint idx
    else k = key_name (ParseKey k)"
proof -
  consider g where "ParseKey k = plain_ref (ShapeGlobal k) g"
    | "namespace_ref k = Some (ParseKey k)" | "lock_session_ref k = Some (ParseKey k)"
    | "letter_ref k = Some (ParseKey k)"
    using assms by (auto simp: ParseKey_def plain_ref_def split: option.splits)
  then show ?thesis
  proof cases
    case 1
    then show ?thesis by (simp add: plain_ref_def)
  next
    case 2
    from namespace_ref_name [OF this] show ?thesis by simp
  next
    case 3
    from lock_session_ref_name [OF this] show ?thesis by simp
  next
    case 4
    from letter_ref_name [OF this] show ?thesis by simp
  qed
qed

theorem ParseKey_no_alias_witness:
  "if k_shape (ParseKey ''i12'') = ShapeChunk
   then \<exists>idx \<le> max_u64. ''i12'' = ''c'' @ FormatUint (k_ino (ParseKey ''i12'')) @ ''_'' @ FormatUint idx
   else ''i12'' = key_name (ParseKey ''i12'')"
proof (rule ParseKey_no_alias)
  have "digits ''12'' = Some 12" using digits_FormatUint [of 12] by (simp add: go_arith)
  then show "k_shape (ParseKey ''i12'') \<noteq> ShapeUnknown"
    by (simp add: ParseKey_def globalKeys_def namespace_ref_def lock_session_ref_def letter_ref_def
        ino_ref_def plain_ref_def)
qed

definition ino_keys :: "(string \<times> shape \<times> key_group) list" where
  "ino_keys = [(''i'', ShapeInode, GInode), (''d'', ShapeDentry, GDentry), (''p'', ShapeParent, GInode),
     (''x'', ShapeXattr, GInode), (''s'', ShapeSymlink, GInode), (''lockf'', ShapeFlock, GInode),
     (''lockp'', ShapePlock, GInode)]"

lemma FormatUint_not_prefix [simp]: "\<not> is_digit c \<Longrightarrow> \<not> HasPrefix (FormatUint m) (c # cs)"
  using FormatUint_digits [of m] by (cases "FormatUint m") auto

lemma FormatUint_app_Cons [simp]: "\<not> is_digit c \<Longrightarrow> FormatUint m @ t \<noteq> c # cs"
  "\<not> is_digit c \<Longrightarrow> \<not> HasPrefix (FormatUint m @ t) (c # cs)"
  using FormatUint_digits [of m] by (cases "FormatUint m"; auto)+

lemma FormatUint_no_underscore: "CHR ''_'' \<notin> set (FormatUint m)"
  using FormatUint_digits [of m] by (auto simp: list_all_iff)

lemmas ParseKey_eval = ParseKey_def globalKeys_def namespace_ref_def lock_session_ref_def letter_ref_def ino_ref_def

lemma ParseKey_prefixes:
  assumes "n \<le> max_u64"
  shows "ParseKey (CHR ''i'' # FormatUint n) = (plain_ref ShapeInode GInode)\<lparr>k_ino := n, k_hasIno := True, k_trash := (TrashInode \<le> n)\<rparr>"
    and "ParseKey (CHR ''d'' # FormatUint n) = (plain_ref ShapeDentry GDentry)\<lparr>k_ino := n, k_hasIno := True, k_trash := (TrashInode \<le> n)\<rparr>"
    and "ParseKey (CHR ''p'' # FormatUint n) = (plain_ref ShapeParent GInode)\<lparr>k_ino := n, k_hasIno := True, k_trash := (TrashInode \<le> n)\<rparr>"
    and "ParseKey (CHR ''x'' # FormatUint n) = (plain_ref ShapeXattr GInode)\<lparr>k_ino := n, k_hasIno := True, k_trash := (TrashInode \<le> n)\<rparr>"
    and "ParseKey (CHR ''s'' # FormatUint n) = (plain_ref ShapeSymlink GInode)\<lparr>k_ino := n, k_hasIno := True, k_trash := (TrashInode \<le> n)\<rparr>"
    and "ParseKey (''lockf'' @ FormatUint n) = (plain_ref ShapeFlock GInode)\<lparr>k_ino := n, k_hasIno := True, k_trash := (TrashInode \<le> n)\<rparr>"
    and "ParseKey (''lockp'' @ FormatUint n) = (plain_ref ShapePlock GInode)\<lparr>k_ino := n, k_hasIno := True, k_trash := (TrashInode \<le> n)\<rparr>"
  using assms by (simp_all add: ParseKey_eval)

text \<open>Every inode-keyed record juicefs writes is recognised as the record of that inode: the
  attribute, entry, parent, xattr, symlink and lock keys and every chunk key of inode \<open>n\<close> parse to
  a reference carrying \<open>n\<close>, marked as trash exactly from \<^verbatim>\<open>TrashInode\<close> on.\<close>

lemma ParseKey_inode_keys:
  assumes "n \<le> max_u64" and "idx \<le> max_u64"
  shows "(\<forall>(p, sh, g) \<in> set ino_keys. ParseKey (p @ FormatUint n)
      = (plain_ref sh g)\<lparr>k_ino := n, k_hasIno := True, k_trash := (TrashInode \<le> n)\<rparr>)
    \<and> ParseKey (''c'' @ FormatUint n @ ''_'' @ FormatUint idx)
      = (plain_ref ShapeChunk GInode)\<lparr>k_ino := n, k_hasIno := True, k_trash := (TrashInode \<le> n)\<rparr>"
proof -
  have "IndexByte (FormatUint n @ CHR ''_'' # FormatUint idx) CHR ''_'' = Some (length (FormatUint n))"
    by (rule IndexByte_append) (rule FormatUint_no_underscore)
  then have "ParseKey (''c'' @ FormatUint n @ ''_'' @ FormatUint idx)
      = (plain_ref ShapeChunk GInode)\<lparr>k_ino := n, k_hasIno := True, k_trash := (TrashInode \<le> n)\<rparr>"
    using assms by (simp add: ParseKey_eval)
  moreover note ParseKey_prefixes [OF assms(1)]
  ultimately show ?thesis unfolding ino_keys_def by simp
qed

lemma ParseKey_inode_keys_chunk:
  "ParseKey (''c'' @ FormatUint 7 @ ''_'' @ FormatUint 0)
     = (plain_ref ShapeChunk GInode)\<lparr>k_ino := 7, k_hasIno := True, k_trash := (TrashInode \<le> 7)\<rparr>"
  by (rule ParseKey_inode_keys [THEN conjunct2]) (simp_all add: go_arith)

subsection \<open>Scripts\<close>

lemma classifyScript_class:
  assumes "classifyScript name args = Some (cl, keys, raw, sha)"
  shows "cl = ClassScript \<and> keys = [] \<and> raw = [] \<and> sha = [] \<or>
    cl = ClassRead \<and> allowed_script sha \<and> keys = map script_ref raw \<and>
    sha = (if HasPrefix name ''EVALSHA'' then ToLower (args ! 1) else ScriptSHA (args ! 1))"
  using assms
  by (auto simp: classifyScript_def Let_def split: if_split_asm prod.split_asm option.split_asm)

lemma script_commands:
  assumes "name \<in> {''EVAL'', ''EVALSHA'', ''EVAL_RO'', ''EVALSHA_RO''}"
  shows "map_of commands name = Some (ClassScript, kNone)"
proof -
  have "map_of commands ''EVAL'' = Some (ClassScript, kNone)"
    "map_of commands ''EVALSHA'' = Some (ClassScript, kNone)"
    "map_of commands ''EVAL_RO'' = Some (ClassScript, kNone)"
    "map_of commands ''EVALSHA_RO'' = Some (ClassScript, kNone)"
    by code_simp+
  with assms show ?thesis by blast
qed

text \<open>C27: The only script bodies that run as reads are the pinned ones: when a script command is
  classified as anything but \<^verbatim>\<open>ClassScript\<close> it is a read, the SHA-1 of its body (or the identifier it
  names) is on the allow-list, and that identifier is recorded with it.\<close>

theorem Classify_script_pinned:
  assumes "Classify args = Some c" and "c_name c \<in> {''EVAL'', ''EVALSHA'', ''EVAL_RO'', ''EVALSHA_RO''}"
    and "c_class c \<noteq> ClassScript"
  shows "c_class c = ClassRead \<and> allowed_script (c_script c) \<and> c_keys c = map script_ref (c_raw c) \<and>
    c_script c = (if HasPrefix (c_name c) ''EVALSHA'' then ToLower (args ! 1) else ScriptSHA (args ! 1))"
proof -
  have ne: "args \<noteq> []" using assms by (auto simp: Classify_def mk_command_def)
  have nm: "c_name c = ToUpper (hd args)"
    using assms(1) ne by (auto simp: Classify_def mk_command_def Let_def split: if_split_asm option.split_asm)
  let ?n = "c_name c"
  have tab: "map_of commands ?n = Some (ClassScript, kNone)" using assms(2) by (rule script_commands)
  moreover have "\<not> HasPrefix ?n ''JM.''" "classifySub ?n args = None"
    using assms(2) by (auto simp: classifySub_def)
  ultimately obtain cl keys raw sha where s: "classifyScript ?n args = Some (cl, keys, raw, sha)"
    "c = \<lparr>c_name = ?n, c_class = cl, c_keys = keys, c_raw = raw, c_script = sha\<rparr>"
    using assms(1) ne nm by (auto simp: Classify_def Let_def split: option.split_asm)
  from s(2) have f: "c_class c = cl" "c_keys c = keys" "c_raw c = raw" "c_script c = sha"
    by (metis command.simps)+
  from classifyScript_class [OF s(1)] f assms(3) show ?thesis by auto
qed

lemma upper_byte_Char [simp]:
  "upper_byte (Char a b c d e f g h) = (let n = (of_char (Char a b c d e f g h) :: nat) in
     if 97 \<le> n \<and> n \<le> 122 then char_of (n - 32) else Char a b c d e f g h)"
  by (simp add: upper_byte_def Let_def)

lemma lower_byte_Char [simp]:
  "lower_byte (Char a b c d e f g h) = (let n = (of_char (Char a b c d e f g h) :: nat) in
     if 65 \<le> n \<and> n \<le> 90 then char_of (n + 32) else Char a b c d e f g h)"
  by (simp add: lower_byte_def Let_def)

text \<open>Running the classifier on one pinned identifier, with a given key count.\<close>

definition lookup_sha :: string where "lookup_sha = ''8526c64984678fc27f67f44755c8ba7dcdf7ea60''"

lemma case_bytes:
  "ToUpper ''EVALSHA'' = ''EVALSHA''" "ToLower lookup_sha = lookup_sha" "allowed_script lookup_sha"
  by (simp_all add: lookup_sha_def upper_byte_def lower_byte_def allowed_script_def AllowedScripts_def)

lemma Classify_EVALSHA:
  "Classify [''EVALSHA'', lookup_sha, nk] =
     (case classifyScript ''EVALSHA'' [''EVALSHA'', lookup_sha, nk] of
        None \<Rightarrow> None
      | Some (cl', keys, raw, sha) \<Rightarrow>
          Some \<lparr>c_name = ''EVALSHA'', c_class = cl', c_keys = keys, c_raw = raw, c_script = sha\<rparr>)"
  using script_commands [of "''EVALSHA''"] by (simp add: Classify_def Let_def classifySub_def)

lemma Classify_EVALSHA_0:
  "Classify [''EVALSHA'', lookup_sha, ''0''] = Some \<lparr>c_name = ''EVALSHA'', c_class = ClassRead,
     c_keys = [], c_raw = [], c_script = lookup_sha\<rparr>"
proof -
  have "ParseInt ''0'' = (0, None)" using ParseInt_FormatUint [of 0] by (simp add: go_arith)
  then show ?thesis by (simp add: Classify_EVALSHA classifyScript_def case_bytes go_arith)
qed

theorem Classify_script_pinned_witness:
  "\<exists>c. Classify [''EVALSHA'', lookup_sha, ''0''] = Some c \<and> c_class c = ClassRead \<and> allowed_script (c_script c)"
  using Classify_script_pinned [OF Classify_EVALSHA_0] Classify_EVALSHA_0 by simp

text \<open>C39: A client can stop the proxy with one command: a script call that names a pinned identifier
  and a key count close to the largest integer passes the argument check, because the sum with the
  key count wraps below zero, and the slice of its keys panics.  The classifier runs before
  authentication and nothing recovers the panic.\<close>

theorem Classify_key_count_panics:
  "Classify [''EVALSHA'', lookup_sha, FormatUint 9223372036854775807] = None"
proof -
  have "ParseInt (FormatUint 9223372036854775807) = (9223372036854775807, None)"
    using ParseInt_FormatUint [of 9223372036854775807] by (simp add: go_arith del: FormatUint_numeral)
  then show ?thesis
    by (simp add: Classify_EVALSHA classifyScript_def case_bytes go_arith del: FormatUint_numeral)
qed

subsection \<open>Values\<close>

lemma be_value_u64: "length s \<le> 8 \<Longrightarrow> be_value s \<le> max_u64"
proof -
  assume "length s \<le> 8"
  then have "(256 :: nat) ^ length s \<le> 256 ^ 8" by (intro power_increasing) simp_all
  with be_value_bound [of s] show ?thesis by (simp add: go_arith)
qed

lemma attrParent_u64: "attrParent v = Some n \<Longrightarrow> n \<le> max_u64"
  by (auto simp: attrParent_def intro: be_value_u64 split: if_splits)

lemma entryInode_u64: "entryInode v = Some n \<Longrightarrow> n \<le> max_u64"
  by (auto simp: entryInode_def intro: be_value_u64 split: if_splits)

end
