(* ===== verification/Lease_Store.thy ===== *)
theory Lease_Store
  imports Classify_Props Proxy_Policy "HOL-Library.AList"
begin

section \<open>The persisted lease record (leases.go)\<close>

text \<open>
  A project's lease is kept under two Redis keys, the epoch counter \<^verbatim>\<open>jmlease:v1:epoch:<root>\<close> and the
  hash \<^verbatim>\<open>jmlease:v1:p:<root>\<close>, and is changed only by the Lua scripts of \<^verbatim>\<open>leases.go\<close>, translated here
  over the pair of keys: \<open>TYPE\<close>, \<open>GET\<close>, \<open>HGET\<close>, \<open>INCR\<close> and \<open>HSET\<close> act on it as Redis documents them, and
  a script runs atomically.  \<open>transition\<close> is the Go side of the call.  What the network does to it is
  the argument \<open>delivery\<close>: the reply arrives, the script never ran, or it ran and the reply was lost.
\<close>

fun kind_str :: "kind \<Rightarrow> string" where
  "kind_str KindMac = ''mac''"
| "kind_str KindFarm = ''farm''"
| "kind_str KindManager = ''manager''"
| "kind_str KindBG = ''bg''"
| "kind_str KindWebDAV = ''webdav''"
| "kind_str KindAdmin = ''admin''"

definition LeaseAuto :: string where "LeaseAuto = ''auto''"
definition LeaseCheckout :: string where "LeaseCheckout = ''checkout''"

text \<open>
  The kind is kept as text: a record read back holds whatever was stored.  \<open>l_hist\<close> is iterated, so
  it is an association list.
\<close>

record lease =
  l_proj :: nat
  l_holder :: string
  l_kind :: string
  l_host :: string
  l_epoch :: nat
  l_mode :: string
  l_grantedMs :: int
  l_lastWriteMs :: int
  l_lastHbMs :: int
  l_checkoutUntilMs :: int
  l_pending :: bool
  l_label :: string
  l_hist :: "(string \<times> nat) list"
  l_recent :: "(string \<times> int) list"
  l_dirty :: bool
  l_unresolved :: bool

definition held :: "lease \<Rightarrow> bool" where "held l \<longleftrightarrow> l_holder l \<noteq> []"

definition boolStr :: "bool \<Rightarrow> string" where "boolStr b = (if b then ''1'' else ''0'')"

definition LeaseKeyPrefix :: string where "LeaseKeyPrefix = ''jmlease:v1:p:''"
definition EpochKeyPrefix :: string where "EpochKeyPrefix = ''jmlease:v1:epoch:''"

definition leaseKey :: "nat \<Rightarrow> string" where "leaseKey proj = LeaseKeyPrefix @ FormatUint proj"
definition epochKey :: "nat \<Rightarrow> string" where "epochKey proj = EpochKeyPrefix @ FormatUint proj"

subsection \<open>Redis values under the two keys\<close>

datatype redis_val = RString string | RHash "(string \<times> string) list" | ROther string

record lease_keys =
  lk_counter :: "redis_val option"
  lk_hash :: "redis_val option"

fun redis_TYPE :: "redis_val option \<Rightarrow> string" where
  "redis_TYPE None = ''none''"
| "redis_TYPE (Some (RString s)) = ''string''"
| "redis_TYPE (Some (RHash h)) = ''hash''"
| "redis_TYPE (Some (ROther t)) = t"

fun redis_GET :: "redis_val option \<Rightarrow> string option" where
  "redis_GET (Some (RString s)) = Some s"
| "redis_GET _ = None"

fun redis_HGET :: "redis_val option \<Rightarrow> string \<Rightarrow> string option" where
  "redis_HGET (Some (RHash h)) f = map_of h f"
| "redis_HGET _ f = None"

definition redis_INCR :: "string option \<Rightarrow> string" where
  "redis_INCR v = FormatInt (1 + (case v of None \<Rightarrow> 0 | Some s \<Rightarrow> fst (ParseInt s)))"

definition redis_HSET :: "redis_val option \<Rightarrow> (string \<times> string) list \<Rightarrow> redis_val" where
  "redis_HSET v fvs =
     RHash (fold (\<lambda>(f, x). AList.update f x) fvs (case v of Some (RHash h) \<Rightarrow> h | _ \<Rightarrow> []))"

subsection \<open>The transition script\<close>

text \<open>The byte order of Lua strings.\<close>

fun lua_le :: "string \<Rightarrow> string \<Rightarrow> bool" where
  "lua_le [] t = True"
| "lua_le (a # s) [] = False"
| "lua_le (a # s) (b # t) =
     (if a = b then lua_le s t else (of_char a :: nat) < of_char b)"

definition lua_valid :: "string \<Rightarrow> bool" where
  "lua_valid s \<longleftrightarrow> s \<noteq> [] \<and> is_digit (hd s) \<and> hd s \<noteq> CHR ''0'' \<and> list_all is_digit (tl s) \<and>
     (length s < 19 \<or> (length s = 19 \<and> lua_le s ''9223372036854775807''))"

text \<open>The 13 arguments: operation, expected epoch and holder, then the fields of the new record.\<close>

definition lua_fields :: "string list \<Rightarrow> string \<Rightarrow> (string \<times> string) list" where
  "lua_fields argv counter =
     [(''holder'', argv ! 3), (''kind'', argv ! 4), (''host'', argv ! 5), (''epoch'', counter),
      (''mode'', argv ! 6), (''granted_ms'', argv ! 7), (''last_write_ms'', argv ! 8),
      (''last_hb_ms'', argv ! 9), (''checkout_until_ms'', argv ! 10), (''pending'', argv ! 11),
      (''label'', argv ! 12)]
     @ (if argv ! 0 = ''grant'' then [(''e:'' @ argv ! 3, counter)] else [])"

text \<open>What the script refuses before it writes.\<close>

definition lua_refuses :: "string list \<Rightarrow> lease_keys \<Rightarrow> string option" where
  "lua_refuses argv k =
     (let ct = redis_TYPE (lk_counter k); ht = redis_TYPE (lk_hash k);
          counter = redis_GET (lk_counter k); op = argv ! 0;
          hashEpoch = redis_HGET (lk_hash k) ''epoch''; hashHolder = redis_HGET (lk_hash k) ''holder'' in
      if (ct \<noteq> ''none'' \<and> ct \<noteq> ''string'') \<or> (ht \<noteq> ''none'' \<and> ht \<noteq> ''hash'') then Some ''lease key type mismatch''
      else if (case counter of Some c \<Rightarrow> \<not> lua_valid c | None \<Rightarrow> False) then Some ''invalid lease counter''
      else if ht = ''hash'' \<and>
          ((case hashEpoch of None \<Rightarrow> True | Some he \<Rightarrow> \<not> lua_valid he) \<or> counter = None \<or>
           hashEpoch \<noteq> counter \<or> hashHolder = None) then Some ''incoherent lease hash''
      else if (if ht = ''hash'' then hashEpoch \<noteq> Some (argv ! 1) \<or> hashHolder \<noteq> Some (argv ! 2)
               else argv ! 1 \<noteq> ''0'' \<or> argv ! 2 \<noteq> []) then Some ''lease changed''
      else if op = ''grant'' then
        (if ht = ''hash'' \<and> hashHolder \<noteq> Some [] then Some ''lease held''
         else if counter = Some ''9223372036854775807'' then Some ''lease epoch overflow'' else None)
      else if op = ''end'' \<or> op = ''renew'' then
        (if ht \<noteq> ''hash'' \<or> hashHolder = Some [] then Some ''lease not held''
         else if op = ''end'' \<and> counter = Some ''9223372036854775807'' then Some ''lease epoch overflow'' else None)
      else Some ''invalid lease transition'')"

definition leaseTransitionLua :: "string list \<Rightarrow> lease_keys \<Rightarrow> (string + string) \<times> lease_keys" where
  "leaseTransitionLua argv k =
     (case lua_refuses argv k of
        Some e \<Rightarrow> (Inl e, k)
      | None \<Rightarrow>
          let old = redis_GET (lk_counter k);
              counter = (if argv ! 0 = ''grant'' \<or> argv ! 0 = ''end'' then redis_INCR old
                         else (case old of Some c \<Rightarrow> c | None \<Rightarrow> []));
              k1 = (if argv ! 0 = ''grant'' \<or> argv ! 0 = ''end'' then k\<lparr>lk_counter := Some (RString counter)\<rparr> else k)
          in (Inr counter, k1\<lparr>lk_hash := Some (redis_HSET (lk_hash k1) (lua_fields argv counter))\<rparr>))"

text \<open>The touch fields of an unchanged tenure.\<close>

definition leaseFlushLua :: "string list \<Rightarrow> lease_keys \<Rightarrow> (string + int) \<times> lease_keys" where
  "leaseFlushLua argv k =
     (if redis_GET (lk_counter k) \<noteq> Some (argv ! 0) \<or> redis_HGET (lk_hash k) ''epoch'' \<noteq> Some (argv ! 0) \<or>
         redis_HGET (lk_hash k) ''holder'' \<noteq> Some (argv ! 1)
      then (Inl ''lease flush tenure changed'', k)
      else (Inr 1, k\<lparr>lk_hash := Some (redis_HSET (lk_hash k)
             [(''last_write_ms'', argv ! 2), (''last_hb_ms'', argv ! 3), (''pending'', argv ! 4)])\<rparr>))"

subsection \<open>The Go side of a transition\<close>

datatype delivery = Delivered | NotRun string | ReplyLost string

definition errProtocol :: string where "errProtocol = ''respproxy: protocol error''"

definition persistedLeaseEpoch :: "string \<Rightarrow> nat option" where
  "persistedLeaseEpoch raw =
     (case ParseInt raw of
        (n, None) \<Rightarrow> if 0 < n \<and> FormatInt n = raw then Some (nat n) else None
      | (n, Some e) \<Rightarrow> None)"

definition transition_args :: "string \<Rightarrow> lease \<Rightarrow> lease \<Rightarrow> string list" where
  "transition_args op old next =
     [op, FormatUint (l_epoch old), l_holder old, l_holder next, l_kind next, l_host next, l_mode next,
      FormatInt (l_grantedMs next), FormatInt (l_lastWriteMs next), FormatInt (l_lastHbMs next),
      FormatInt (l_checkoutUntilMs next), boolStr (l_pending next), l_label next]"

text \<open>A bulk reply is checked against the operation; epochs are \<^verbatim>\<open>uint64\<close>, and the sum wraps.\<close>

definition transition_reply :: "string \<Rightarrow> lease \<Rightarrow> string \<Rightarrow> string + nat" where
  "transition_reply op old s =
     (case persistedLeaseEpoch s of
        None \<Rightarrow> Inl errProtocol
      | Some ep \<Rightarrow>
          if op = ''renew'' then (if ep \<noteq> l_epoch old then Inl errProtocol else Inr ep)
          else if op = ''grant'' then
            (if l_epoch old \<noteq> 0 \<and> ep \<noteq> (l_epoch old + 1) mod 2 ^ 64 then Inl errProtocol else Inr ep)
          else if op = ''end'' then
            (if ep \<noteq> (l_epoch old + 1) mod 2 ^ 64 then Inl errProtocol else Inr ep)
          else Inl errProtocol)"

definition transition :: "delivery \<Rightarrow> string \<Rightarrow> lease \<Rightarrow> lease \<Rightarrow> lease_keys \<Rightarrow> (string + nat) \<times> lease_keys" where
  "transition d op old next k =
     (let (r, k') = leaseTransitionLua (transition_args op old next) k in
      case d of
        NotRun e \<Rightarrow> (Inl e, k)
      | ReplyLost e \<Rightarrow> (Inl e, k')
      | Delivered \<Rightarrow> (case r of Inl e \<Rightarrow> (Inl e, k') | Inr s \<Rightarrow> (transition_reply op old s, k')))"

subsection \<open>Epochs as text\<close>

lemma dec_value_acc: "dec_value acc s = acc * 10 ^ length s + dec_value 0 s"
proof (induction s arbitrary: acc)
  case (Cons c s)
  show ?case using Cons.IH [of "10 * acc + digit_val c"] Cons.IH [of "digit_val c"] by (simp add: algebra_simps)
qed simp

lemma dec_value_bound: "list_all is_digit s \<Longrightarrow> dec_value 0 s < 10 ^ length s"
proof (induction s)
  case (Cons c s)
  then have "digit_val c * 10 ^ length s + dec_value 0 s < (digit_val c + 1) * 10 ^ length s" by simp
  also have "\<dots> \<le> 10 * 10 ^ length s"
  proof (intro mult_le_mono1)
    have "digit_val c < 10" using Cons.prems by simp
    then show "digit_val c + 1 \<le> 10" by linarith
  qed
  finally show ?case using dec_value_acc [of "digit_val c" s] by simp
qed simp

lemma digit_val_eq: "is_digit a \<Longrightarrow> is_digit b \<Longrightarrow> digit_val a = digit_val b \<longleftrightarrow> a = b"
  by (metis digit_char_digit_val)

lemma lua_le_digits:
  "list_all is_digit s \<Longrightarrow> list_all is_digit t \<Longrightarrow> length s = length t \<Longrightarrow>
   lua_le s t \<longleftrightarrow> dec_value 0 s \<le> dec_value 0 t"
proof (induction s t rule: lua_le.induct)
  case (3 a s b t)
  then have d: "is_digit a" "is_digit b" "list_all is_digit s" "list_all is_digit t" "length s = length t" by auto
  have v: "dec_value 0 (a # s) = digit_val a * 10 ^ length t + dec_value 0 s"
    "dec_value 0 (b # t) = digit_val b * 10 ^ length t + dec_value 0 t"
    using dec_value_acc [of "digit_val a" s] dec_value_acc [of "digit_val b" t] d(5) by simp_all
  have lt: "dec_value 0 s < 10 ^ length t" "dec_value 0 t < 10 ^ length t"
    using dec_value_bound d by metis+
  have o: "(of_char a :: nat) < of_char b \<longleftrightarrow> digit_val a < digit_val b"
    using d(1,2) unfolding is_digit_def digit_val_def by linarith
  show ?case
  proof (cases "a = b")
    case True
    with 3 v d show ?thesis by simp
  next
    case False
    have mul: "x * k + u < y * k + w" if "x < y" "u < k" for x y k u w :: nat
    proof -
      have "x * k + u < (x + 1) * k" using that(2) by simp
      also have "\<dots> \<le> y * k" using that(1) by (intro mult_le_mono1) simp
      finally show ?thesis by simp
    qed
    from False d have "digit_val a \<noteq> digit_val b" by (simp add: digit_val_eq)
    then consider "digit_val a < digit_val b" | "digit_val b < digit_val a" by linarith
    then show ?thesis
    proof cases
      case 1
      with False o show ?thesis unfolding v using mul [OF 1 lt(1), of "dec_value 0 t"] by simp
    next
      case 2
      with False o show ?thesis unfolding v using mul [OF 2 lt(2), of "dec_value 0 s"] by simp
    qed
  qed
qed simp_all

lemma max_i64_digits:
  "list_all is_digit ''9223372036854775807''" "dec_value 0 ''9223372036854775807'' = 9223372036854775807"
  "''9223372036854775807'' = FormatUint 9223372036854775807"
  by (simp_all add: digit_val_def)

lemma lua_valid_iff: "lua_valid s \<longleftrightarrow> (\<exists>n. 0 < n \<and> int n \<le> max_i64 \<and> s = FormatUint n)"
proof
  assume v: "lua_valid s"
  then have d: "list_all is_digit s" "s \<noteq> []" "hd s \<noteq> CHR ''0''"
    by (cases s; auto simp: lua_valid_def)+
  then have f: "FormatUint (dec_value 0 s) = s" by (intro FormatUint_canonical) simp_all
  have "dec_value 0 s \<noteq> 0" using f d(3) by (metis FormatUint_numeral(1) list.sel(1))
  moreover have "dec_value 0 s \<le> 9223372036854775807"
  proof (cases "length s < 19")
    case True
    then have "length s \<le> 18" by simp
    then have "(10 :: nat) ^ length s \<le> 10 ^ 18" by (rule power_increasing) simp
    with dec_value_bound [OF d(1)] show ?thesis by simp
  next
    case False
    with v have "length s = 19" "lua_le s ''9223372036854775807''" by (simp_all add: lua_valid_def)
    with lua_le_digits [OF d(1) max_i64_digits(1)] show ?thesis by (simp add: max_i64_digits(2) del: dec_value.simps)
  qed
  ultimately show "\<exists>n. 0 < n \<and> int n \<le> max_i64 \<and> s = FormatUint n"
    using f by (intro exI [of _ "dec_value 0 s"]) (simp add: go_arith)
next
  assume "\<exists>n. 0 < n \<and> int n \<le> max_i64 \<and> s = FormatUint n"
  then obtain n where n: "0 < n" "n \<le> 9223372036854775807" "s = FormatUint n" by (auto simp: go_arith)
  have d: "list_all is_digit s" "s \<noteq> []" using n(3) FormatUint_digits by simp_all
  have h: "hd s \<noteq> CHR ''0''" using n(1,3) FormatUint_hd by simp
  have l: "length s \<le> 19" using n(2) FormatUint_length [of 19 n] n(3) by simp
  show "lua_valid s"
    unfolding lua_valid_def
  proof (intro conjI)
    show "is_digit (hd s)" "list_all is_digit (tl s)" using d by (cases s; simp)+
    show "length s < 19 \<or> length s = 19 \<and> lua_le s ''9223372036854775807''"
    proof (cases "length s < 19")
      case False
      with l have "length s = 19" by simp
      moreover from this have "lua_le s ''9223372036854775807''"
        using lua_le_digits [OF d(1) max_i64_digits(1)] n(2,3) by (simp add: max_i64_digits(2) del: dec_value.simps)
      ultimately show ?thesis by simp
    qed simp
  qed (use d h in simp_all)
qed

lemma persistedLeaseEpoch_FormatUint [simp]:
  assumes "0 < n" and "int n \<le> max_i64"
  shows "persistedLeaseEpoch (FormatUint n) = Some n"
  using assms ParseInt_FormatUint [of n] by (simp add: persistedLeaseEpoch_def FormatInt_def)

lemma redis_INCR_FormatUint [simp]:
  "int n \<le> max_i64 \<Longrightarrow> redis_INCR (Some (FormatUint n)) = FormatUint (Suc n)"
  using ParseInt_FormatUint [of n] by (simp add: redis_INCR_def FormatInt_def nat_add_distrib)

lemma redis_INCR_None [simp]: "redis_INCR None = FormatUint 1"
  by (simp add: redis_INCR_def FormatInt_def)

subsection \<open>A transition keeps memory and Redis in agreement\<close>

text \<open>What Redis holds for a project whose record in memory is settled.\<close>

definition epoch_range :: "nat \<Rightarrow> bool" where "epoch_range n \<longleftrightarrow> 0 < n \<and> int n \<le> max_i64"

definition keys_free :: "lease_keys \<Rightarrow> bool" where
  "keys_free k \<longleftrightarrow> lk_hash k = None \<and>
     (lk_counter k = None \<or> (\<exists>n. epoch_range n \<and> lk_counter k = Some (RString (FormatUint n))))"

definition keys_hold :: "nat \<Rightarrow> string \<Rightarrow> lease_keys \<Rightarrow> bool" where
  "keys_hold n holder k \<longleftrightarrow> epoch_range n \<and> lk_counter k = Some (RString (FormatUint n)) \<and>
     (\<exists>h. lk_hash k = Some (RHash h) \<and> distinct (map fst h) \<and> map_of h ''epoch'' = Some (FormatUint n) \<and> map_of h ''holder'' = Some holder)"

definition coherent :: "lease \<Rightarrow> lease_keys \<Rightarrow> bool" where
  "coherent l k \<longleftrightarrow> (if l_epoch l = 0 then l_holder l = [] \<and> keys_free k else keys_hold (l_epoch l) (l_holder l) k)"

lemma map_of_HSET:
  "redis_HGET (Some (redis_HSET v fvs)) f =
   (case map_of (rev fvs) f of Some x \<Rightarrow> Some x | None \<Rightarrow> redis_HGET v f)"
proof -
  have "map_of (fold (\<lambda>(f, x). AList.update f x) fvs h) f = (map_of h ++ map_of (rev fvs)) f" for h
    by (induction fvs arbitrary: h) (auto simp: update_conv')
  then show ?thesis
    by (cases v rule: redis_TYPE.cases) (auto simp: redis_HSET_def map_add_def split: option.splits)
qed

lemma lua_fields_read:
  "map_of (rev (lua_fields argv c)) ''epoch'' = Some c"
  "map_of (rev (lua_fields argv c)) ''holder'' = Some (argv ! 3)"
  by (simp_all add: lua_fields_def)

lemma epoch_range_Suc: "epoch_range n \<Longrightarrow> FormatUint n \<noteq> ''9223372036854775807'' \<Longrightarrow> epoch_range (Suc n)"
  unfolding max_i64_digits(3) FormatUint_inj by (simp add: epoch_range_def go_arith)

lemma epoch_range_one [simp]: "epoch_range (Suc 0)"
  by (simp add: epoch_range_def go_arith)

lemma lua_valid_epoch [simp]: "epoch_range n \<Longrightarrow> lua_valid (FormatUint n)"
  by (auto simp: lua_valid_iff epoch_range_def)

lemma redis_HSET_distinct:
  assumes "case v of Some (RHash h) \<Rightarrow> distinct (map fst h) | _ \<Rightarrow> True" and "redis_HSET v fvs = RHash h"
  shows "distinct (map fst h)"
proof -
  have "distinct (map fst (fold (\<lambda>(f, x). AList.update f x) fvs m))" if "distinct (map fst m)" for m :: "(string \<times> string) list"
    using that by (induction fvs arbitrary: m) (auto simp: distinct_update)
  with assms show ?thesis by (auto simp: redis_HSET_def split: option.split_asm redis_val.split_asm)
qed

lemma hold_after:
  assumes "epoch_range n" and "lk_counter k = Some (RString (FormatUint n))"
    and "case v of Some (RHash h) \<Rightarrow> distinct (map fst h) | _ \<Rightarrow> True"
  shows "keys_hold n (argv ! 3) (k\<lparr>lk_hash := Some (redis_HSET v (lua_fields argv (FormatUint n)))\<rparr>)"
proof -
  obtain h where h: "redis_HSET v (lua_fields argv (FormatUint n)) = RHash h" by (simp add: redis_HSET_def)
  have "map_of h ''epoch'' = Some (FormatUint n)" "map_of h ''holder'' = Some (argv ! 3)"
    using map_of_HSET [of v "lua_fields argv (FormatUint n)"] lua_fields_read [of argv "FormatUint n"]
    by (simp_all add: h)
  with assms h redis_HSET_distinct [OF assms(3) h] show ?thesis by (simp add: keys_hold_def)
qed

text \<open>Every way the script can end on keys that agree with the record it was called for.\<close>

lemma leaseTransitionLua_coherent:
  assumes co: "coherent old k" and args: "argv = transition_args op old nxt"
    and op: "op = ''grant'' \<and> l_holder old = [] \<or> op \<in> {''end'', ''renew''} \<and> held old"
  shows "(\<exists>e. leaseTransitionLua argv k = (Inl e, k)) \<or>
    (\<exists>n k'. leaseTransitionLua argv k = (Inr (FormatUint n), k') \<and> keys_hold n (l_holder nxt) k' \<and>
       (if op = ''renew'' then n = l_epoch old else l_epoch old \<noteq> 0 \<longrightarrow> n = Suc (l_epoch old)))"
proof (cases "lua_refuses argv k")
  case None
  have a: "argv ! 0 = op" "argv ! 3 = l_holder nxt" by (simp_all add: args transition_args_def)
  let ?inc = "op = ''grant'' \<or> op = ''end''"
  have nmax: "redis_GET (lk_counter k) \<noteq> Some ''9223372036854775807''" if ?inc
    using None that by (auto simp: lua_refuses_def Let_def a split: if_split_asm)
  obtain n where n: "epoch_range n" "(if op = ''renew'' then n = l_epoch old else l_epoch old \<noteq> 0 \<longrightarrow> n = Suc (l_epoch old))"
    "(if ?inc then redis_INCR (redis_GET (lk_counter k)) else (case redis_GET (lk_counter k) of Some c \<Rightarrow> c | None \<Rightarrow> [])) = FormatUint n"
    "\<not> ?inc \<longrightarrow> lk_counter k = Some (RString (FormatUint n))"
  proof (cases "l_epoch old = 0")
    case True
    then have f: "keys_free k" "\<not> held old" "op = ''grant''" using co op by (auto simp: coherent_def held_def)
    from f(1) show thesis
      unfolding keys_free_def
    proof (elim conjE disjE exE)
      assume "lk_counter k = None"
      then show thesis by (intro that [of 1]) (simp_all add: True f(3))
    next
      fix m assume m: "epoch_range m" "lk_counter k = Some (RString (FormatUint m))"
      with nmax f(3) have "epoch_range (Suc m)" by (intro epoch_range_Suc) auto
      with m show thesis by (intro that [of "Suc m"]) (simp_all add: True f(3) epoch_range_def)
    qed
  next
    case False
    then have h: "epoch_range (l_epoch old)" "lk_counter k = Some (RString (FormatUint (l_epoch old)))"
      using co by (simp_all add: coherent_def keys_hold_def)
    show thesis
    proof (cases "op = ''renew''")
      case True
      with h show thesis by (intro that [of "l_epoch old"]) simp_all
    next
      case False
      with op have ?inc by auto
      with nmax h have "epoch_range (Suc (l_epoch old))" by (intro epoch_range_Suc) auto
      with h False \<open>?inc\<close> show thesis by (intro that [of "Suc (l_epoch old)"]) (simp_all add: epoch_range_def)
    qed
  qed
  let ?k1 = "if ?inc then k\<lparr>lk_counter := Some (RString (FormatUint n))\<rparr> else k"
  have "lk_counter ?k1 = Some (RString (FormatUint n))" using n(4) by simp
  moreover have "case lk_hash ?k1 of Some (RHash h) \<Rightarrow> distinct (map fst h) | _ \<Rightarrow> True"
    using co by (auto simp: coherent_def keys_free_def keys_hold_def split: if_split_asm)
  ultimately
  have h: "keys_hold n (l_holder nxt) (?k1\<lparr>lk_hash := Some (redis_HSET (lk_hash ?k1) (lua_fields argv (FormatUint n)))\<rparr>)"
    using hold_after [OF n(1), of ?k1 "lk_hash ?k1" argv] by (simp add: a)
  have "leaseTransitionLua argv k =
      (Inr (FormatUint n), ?k1\<lparr>lk_hash := Some (redis_HSET (lk_hash ?k1) (lua_fields argv (FormatUint n)))\<rparr>)"
    unfolding leaseTransitionLua_def None option.case a(1) n(3) Let_def by simp
  with h n(2) show ?thesis by blast
qed (simp add: leaseTransitionLua_def)


lemma lua_accepts:
  assumes co: "coherent old k" and args: "argv = transition_args op old nxt"
    and op: "op = ''grant'' \<and> l_holder old = [] \<or> op \<in> {''end'', ''renew''} \<and> held old"
    and nmax: "redis_GET (lk_counter k) \<noteq> Some ''9223372036854775807''"
  shows "lua_refuses argv k = None"
proof -
  have a: "argv ! 0 = op" "argv ! Suc 0 = FormatUint (l_epoch old)" "argv ! 2 = l_holder old"
    by (simp_all add: args transition_args_def)
  show ?thesis
  proof (cases "l_epoch old = 0")
    case True
    then have f: "keys_free k" "l_holder old = []" "op = ''grant''" using co op by (auto simp: coherent_def held_def)
    then show ?thesis
      using nmax True by (auto simp: lua_refuses_def Let_def a keys_free_def)
  next
    case False
    then have h: "keys_hold (l_epoch old) (l_holder old) k" using co by (simp add: coherent_def)
    then obtain m where "epoch_range (l_epoch old)" "lk_counter k = Some (RString (FormatUint (l_epoch old)))"
      "lk_hash k = Some (RHash m)" "map_of m ''epoch'' = Some (FormatUint (l_epoch old))"
      "map_of m ''holder'' = Some (l_holder old)"
      by (auto simp: keys_hold_def)
    then show ?thesis
      using op nmax by (auto simp: lua_refuses_def Let_def a held_def)
  qed
qed

text \<open>The same for the whole call, whatever the network does with it.\<close>

lemma transition_coherent:
  assumes "coherent old k"
    and op: "op = ''grant'' \<and> l_holder old = [] \<or> op \<in> {''end'', ''renew''} \<and> held old"
    and tr: "transition d op old nxt k = (Inr n, k')"
  shows "keys_hold n (l_holder nxt) k' \<and> d = Delivered \<and>
    (if op = ''renew'' then n = l_epoch old else l_epoch old \<noteq> 0 \<longrightarrow> n = Suc (l_epoch old))"
proof -
  obtain r k1 where l: "leaseTransitionLua (transition_args op old nxt) k = (r, k1)" by force
  from tr l obtain s where d: "d = Delivered" "r = Inr s" "transition_reply op old s = Inr n" "k' = k1"
    by (auto simp: transition_def Let_def split: delivery.split_asm sum.split_asm)
  from leaseTransitionLua_coherent [OF assms(1) refl op, of nxt] l d(2) obtain m where
    m: "s = FormatUint m" "keys_hold m (l_holder nxt) k1"
    "(if op = ''renew'' then m = l_epoch old else l_epoch old \<noteq> 0 \<longrightarrow> m = Suc (l_epoch old))" by auto
  then have "n = m"
    using d(3) by (auto simp: transition_reply_def keys_hold_def epoch_range_def split: if_split_asm)
  with m d show ?thesis by simp
qed

lemma transition_succeeds:
  assumes co: "coherent old k"
    and op: "op = ''grant'' \<and> l_holder old = [] \<or> op \<in> {''end'', ''renew''} \<and> held old"
    and nmax: "redis_GET (lk_counter k) \<noteq> Some ''9223372036854775807''"
  obtains n k' where "transition Delivered op old nxt k = (Inr n, k')"
proof -
  note lua_accepts [OF co refl op nmax, of nxt]
  with leaseTransitionLua_coherent [OF co refl op, of nxt] obtain n k' where
    l: "leaseTransitionLua (transition_args op old nxt) k = (Inr (FormatUint n), k')" "epoch_range n"
    "(if op = ''renew'' then n = l_epoch old else l_epoch old \<noteq> 0 \<longrightarrow> n = Suc (l_epoch old))"
    by (auto simp: leaseTransitionLua_def Let_def keys_hold_def)
  have e: "held old \<Longrightarrow> l_epoch old \<noteq> 0" using co by (auto simp: coherent_def held_def split: if_split_asm)
  have "n < 2 ^ 64" using l(2) by (simp add: epoch_range_def go_arith)
  then have "transition_reply op old (FormatUint n) = Inr n"
    using l op e by (auto simp: transition_reply_def epoch_range_def)
  with l(1) show thesis by (intro that [of n k']) (simp add: transition_def)
qed

end
