(* ===== verification/Leases.thy ===== *)
theory Leases
  imports Lease_Store
begin

section \<open>The lease table (leases.go)\<close>

text \<open>
  The table in memory is the record \<open>lease_table\<close>; Redis holds a \<open>lease_keys\<close> per project.  Times are
  nanoseconds (\<^verbatim>\<open>time.Time\<close>) or milliseconds (the \<open>...Ms\<close> fields) as \<^verbatim>\<open>int\<close>, and int64 arithmetic wraps.
  Grant and end are split where the source releases \<^verbatim>\<open>e.mu\<close> around the Redis call: \<open>grant_begin\<close> marks
  the record unresolved, \<open>grant_finish\<close> replaces it once the reply is known.  Labels come from the
  ancestry and are an argument; the log text of a duration is Go's \<^verbatim>\<open>Duration.String\<close>, also an argument.
\<close>

definition ms :: "int \<Rightarrow> int" where "ms t = t div 1000000"

text \<open>\<^verbatim>\<open>Duration.Milliseconds\<close> truncates towards zero.\<close>

definition Milliseconds :: "int \<Rightarrow> int" where
  "Milliseconds d = (if d < 0 then - ((- d) div 1000000) else d div 1000000)"

definition Second :: int where "Second = 1000000000"
definition defaultIdle :: int where "defaultIdle = 4 * 3600 * Second"
definition defaultOrphan :: int where "defaultOrphan = 10 * 60 * Second"
definition defaultCheckoutMax :: int where "defaultCheckoutMax = 72 * 3600 * Second"
definition DirStatGrace :: int where "DirStatGrace = 5 * 60 * Second"

definition DefaultProjectDepth :: nat where "DefaultProjectDepth = 2"

definition ProjectDepth :: "string \<Rightarrow> nat" where
  "ProjectDepth v =
     (case ParseInt v of
        (n, None) \<Rightarrow> if n \<le> 0 \<or> 16 < n then DefaultProjectDepth else nat n
      | (n, Some e) \<Rightarrow> DefaultProjectDepth)"

definition liveMs :: "lease \<Rightarrow> int" where
  "liveMs l = (if l_lastHbMs l < l_lastWriteMs l then l_lastWriteMs l else l_lastHbMs l)"

record lease_snap =
  s_proj :: nat
  s_holder :: string
  s_kind :: string
  s_host :: string
  s_epoch :: nat
  s_mode :: string
  s_grantedMs :: int
  s_lastWriteMs :: int
  s_lastHbMs :: int
  s_checkoutUntilMs :: int
  s_pending :: bool
  s_label :: string

definition snap :: "lease \<Rightarrow> lease_snap" where
  "snap l = \<lparr>s_proj = l_proj l, s_holder = l_holder l, s_kind = l_kind l, s_host = l_host l,
     s_epoch = l_epoch l, s_mode = l_mode l, s_grantedMs = l_grantedMs l, s_lastWriteMs = l_lastWriteMs l,
     s_lastHbMs = l_lastHbMs l, s_checkoutUntilMs = l_checkoutUntilMs l, s_pending = l_pending l,
     s_label = l_label l\<rparr>"

definition empty_snap :: lease_snap where
  "empty_snap = \<lparr>s_proj = 0, s_holder = [], s_kind = [], s_host = [], s_epoch = 0, s_mode = [],
     s_grantedMs = 0, s_lastWriteMs = 0, s_lastHbMs = 0, s_checkoutUntilMs = 0, s_pending = False, s_label = []\<rparr>"

record lease_cfg =
  lc_idle :: int
  lc_orphan :: int
  lc_checkoutMax :: int
  lc_depth :: nat

definition defaultLeaseCfg :: lease_cfg where
  "defaultLeaseCfg = \<lparr>lc_idle = defaultIdle, lc_orphan = defaultOrphan, lc_checkoutMax = defaultCheckoutMax,
     lc_depth = DefaultProjectDepth\<rparr>"

definition foreignSince :: "lease \<Rightarrow> string \<Rightarrow> bool" where
  "foreignSince l who =
     (let mine = (case map_of (l_hist l) who of Some ep \<Rightarrow> ep | None \<Rightarrow> 0) in
      list_ex (\<lambda>(q, ep). q \<noteq> who \<and> mine < ep) (l_hist l))"

subsection \<open>The table and its log\<close>

record lease_table =
  t_leases :: "(nat \<times> lease) list"
  t_cfg :: lease_cfg
  t_depthFixed :: nat
  t_denyLast :: "(string \<times> int) list"
  t_logCh :: "string list list"
  t_logDropped :: nat

abbreviation lease_at :: "lease_table \<Rightarrow> nat \<Rightarrow> lease option" where
  "lease_at t proj \<equiv> map_of (t_leases t) proj"

definition put_lease :: "nat \<Rightarrow> lease \<Rightarrow> lease_table \<Rightarrow> lease_table" where
  "put_lease proj l t = t\<lparr>t_leases := AList.update proj l (t_leases t)\<rparr>"

definition new_lease :: "nat \<Rightarrow> lease" where
  "new_lease proj = \<lparr>l_proj = proj, l_holder = [], l_kind = [], l_host = [], l_epoch = 0, l_mode = [],
     l_grantedMs = 0, l_lastWriteMs = 0, l_lastHbMs = 0, l_checkoutUntilMs = 0, l_pending = False,
     l_label = [], l_hist = [], l_recent = [], l_dirty = False, l_unresolved = False\<rparr>"

definition leaseLocked :: "nat \<Rightarrow> lease_table \<Rightarrow> lease \<times> lease_table" where
  "leaseLocked proj t =
     (case lease_at t proj of
        Some l \<Rightarrow> (l, t)
      | None \<Rightarrow> (new_lease proj, put_lease proj (new_lease proj) t))"

definition expiresMs :: "lease_table \<Rightarrow> lease \<Rightarrow> int" where
  "expiresMs t l =
     (if \<not> held l then 0
      else if l_mode l = LeaseCheckout then l_checkoutUntilMs l
      else wrap64 (liveMs l + Milliseconds (lc_orphan (t_cfg t))))"

definition queueLog :: "string list \<Rightarrow> lease_table \<Rightarrow> lease_table" where
  "queueLog ent t =
     (if length (t_logCh t) < 4096 then t\<lparr>t_logCh := t_logCh t @ [ent]\<rparr>
      else t\<lparr>t_logDropped := t_logDropped t + 1\<rparr>)"

definition logEvent :: "int \<Rightarrow> string \<Rightarrow> lease_snap \<Rightarrow> string \<Rightarrow> string \<Rightarrow> lease_table \<Rightarrow> lease_table" where
  "logEvent now event s actor detail t =
     queueLog ([''event'', event, ''proj'', FormatUint (s_proj s), ''actor'', actor, ''holder'', s_holder s,
       ''host'', s_host s, ''epoch'', FormatUint (s_epoch s), ''mode'', s_mode s, ''ts_ms'', FormatInt (ms now)]
       @ (if detail \<noteq> [] then [''detail'', detail] else [])) t"

text \<open>One entry per second for a principal and project; the summary of the unit is an argument.\<close>

definition logDeny :: "int \<Rightarrow> principal \<Rightarrow> denial \<Rightarrow> mode \<Rightarrow> string \<Rightarrow> lease_table \<Rightarrow> lease_table" where
  "logDeny tm p d m summary t =
     (let event = (if m = ModeObserve then ''would_deny'' else ''deny'');
          key = event @ ''|'' @ p_name p @ ''|'' @ FormatUint (d_proj d); now = ms tm in
      if (case map_of (t_denyLast t) key of Some lst \<Rightarrow> wrap64 (now - lst) < 1000 | None \<Rightarrow> False) then t
      else queueLog [''event'', event, ''reason'', reason_str (d_reason d), ''proj'', FormatUint (d_proj d),
             ''actor'', p_name p, ''kind'', kind_str (p_kind p), ''holder'', d_holder d, ''host'', d_host d,
             ''epoch'', FormatUint (d_epoch d), ''unit'', summary, ''detail'', d_detail d, ''ts_ms'', FormatInt now]
           (t\<lparr>t_denyLast := AList.update key now (if 100000 < length (t_denyLast t) then [] else t_denyLast t)\<rparr>))"

subsection \<open>Configuration\<close>

definition cfg_field :: "string \<Rightarrow> string \<Rightarrow> lease_cfg \<Rightarrow> lease_cfg" where
  "cfg_field f v c =
     (case ParseInt v of
        (n, Some e) \<Rightarrow> c
      | (n, None) \<Rightarrow>
          if n \<le> 0 then c
          else if f = ''idle_s'' then c\<lparr>lc_idle := wrap64 (n * Second)\<rparr>
          else if f = ''orphan_s'' then c\<lparr>lc_orphan := wrap64 (n * Second)\<rparr>
          else if f = ''checkout_max_s'' then c\<lparr>lc_checkoutMax := wrap64 (n * Second)\<rparr>
          else if f = ''depth'' then c\<lparr>lc_depth := ProjectDepth v\<rparr>
          else c)"

fun cfg_fields :: "resp_value list \<Rightarrow> lease_cfg \<Rightarrow> lease_cfg" where
  "cfg_fields (f # v # r) c = cfg_fields r (cfg_field (v_str f) (v_str v) c)"
| "cfg_fields r c = c"

definition loadCfg :: "(string + resp_value) \<Rightarrow> lease_table \<Rightarrow> lease_table" where
  "loadCfg reply t =
     (case reply of
        Inl e \<Rightarrow> t
      | Inr v \<Rightarrow>
          let c = cfg_fields (v_elems v) defaultLeaseCfg in
          t\<lparr>t_cfg := (if t_depthFixed t \<noteq> 0 then c\<lparr>lc_depth := t_depthFixed t\<rparr> else c)\<rparr>)"

subsection \<open>Grant\<close>

text \<open>The operation and the record a grant asks for: a renewal by the holder, or a new tenure.\<close>

definition grant_next ::
    "lease_cfg \<Rightarrow> int \<Rightarrow> string \<Rightarrow> principal \<Rightarrow> string \<Rightarrow> int \<Rightarrow> lease \<Rightarrow> string \<times> lease" where
  "grant_next c now lbl p md ttl l =
     (if held l then
        let until = ms (now + ttl); limit = wrap64 (l_grantedMs l + Milliseconds (lc_checkoutMax c));
            l1 = l\<lparr>l_lastHbMs := ms now\<rparr> in
        (''renew'', if md = LeaseCheckout
                    then l1\<lparr>l_mode := LeaseCheckout, l_checkoutUntilMs := (if limit < until then limit else until)\<rparr>
                    else l1)
      else
        (''grant'', l\<lparr>l_holder := p_name p, l_kind := kind_str (p_kind p), l_host := host p, l_mode := md,
           l_grantedMs := ms now, l_lastWriteMs := ms now, l_lastHbMs := ms now,
           l_checkoutUntilMs := (if md = LeaseCheckout then ms (now + ttl) else 0),
           l_pending := False, l_label := (if lbl \<noteq> [] then lbl else l_label l),
           l_recent := AList.delete (p_name p) (l_recent l)\<rparr>))"

text \<open>A transition in flight: the operation, the record it was called for and the one it asks for.\<close>

record lease_call =
  lc_op :: string
  lc_old :: lease
  lc_next :: lease
  lc_foreign :: bool

definition unresolved_text :: "nat \<Rightarrow> string" where
  "unresolved_text proj = ''lease '' @ FormatUint proj @ '' transition unresolved''"

definition grant_begin ::
    "int \<Rightarrow> string \<Rightarrow> principal \<Rightarrow> nat \<Rightarrow> string \<Rightarrow> int \<Rightarrow> lease_table \<Rightarrow> (string + lease_snap + lease_call) \<times> lease_table" where
  "grant_begin now lbl p proj md ttl t =
     (let (l, t1) = leaseLocked proj t in
      if l_unresolved l then (Inl (unresolved_text proj), t1)
      else if held l \<and> l_holder l \<noteq> p_name p then (Inr (Inl (snap l)), t1)
      else
        let (op, nx) = grant_next (t_cfg t) now lbl p md ttl l in
        (Inr (Inr \<lparr>lc_op = op, lc_old = l, lc_next = nx, lc_foreign = foreignSince l (p_name p)\<rparr>),
         put_lease proj (l\<lparr>l_unresolved := True\<rparr>) t1))"

definition grant_finish ::
    "int \<Rightarrow> principal \<Rightarrow> nat \<Rightarrow> string \<Rightarrow> lease_call \<Rightarrow> (string + nat) \<Rightarrow> lease_table \<Rightarrow> (string + lease_snap \<times> bool) \<times> lease_table" where
  "grant_finish now p proj why c r t =
     (case r of
        Inl e \<Rightarrow> (Inl e, t)
      | Inr ep \<Rightarrow>
          let nx = (lc_next c)\<lparr>l_epoch := ep,
                     l_hist := (if lc_op c = ''grant'' then AList.update (p_name p) ep (l_hist (lc_next c)) else l_hist (lc_next c)),
                     l_unresolved := False\<rparr>;
              s = snap nx in
          (Inr (s, lc_foreign c), logEvent now (lc_op c) s (p_name p) why (put_lease proj nx t)))"

definition grantLocked ::
    "delivery \<Rightarrow> int \<Rightarrow> string \<Rightarrow> principal \<Rightarrow> nat \<Rightarrow> string \<Rightarrow> int \<Rightarrow> string \<Rightarrow> lease_table \<Rightarrow> lease_keys
     \<Rightarrow> (string + lease_snap \<times> bool) \<times> lease_table \<times> lease_keys" where
  "grantLocked d now lbl p proj md ttl why t k =
     (case grant_begin now lbl p proj md ttl t of
        (Inl e, t1) \<Rightarrow> (Inl e, t1, k)
      | (Inr (Inl s), t1) \<Rightarrow> (Inr (s, False), t1, k)
      | (Inr (Inr c), t1) \<Rightarrow>
          let (r, k') = transition d (lc_op c) (lc_old c) (lc_next c) k;
              (res, t2) = grant_finish now p proj why c r t1
          in (res, t2, k'))"

subsection \<open>End\<close>

definition end_next :: "int \<Rightarrow> lease \<Rightarrow> lease" where
  "end_next now l =
     l\<lparr>l_recent := AList.update (l_holder l) (ms now) (l_recent l), l_holder := [], l_kind := [], l_host := [],
       l_mode := [], l_checkoutUntilMs := 0, l_pending := False, l_dirty := False\<rparr>"

definition end_begin :: "int \<Rightarrow> nat \<Rightarrow> lease_table \<Rightarrow> (string + lease_call option) \<times> lease_table" where
  "end_begin now proj t =
     (case lease_at t proj of
        None \<Rightarrow> (Inr None, t)
      | Some l \<Rightarrow>
          if l_unresolved l then (Inl (unresolved_text proj), t)
          else if \<not> held l then (Inr None, t)
          else (Inr (Some \<lparr>lc_op = ''end'', lc_old = l, lc_next = end_next now l, lc_foreign = False\<rparr>),
                put_lease proj (l\<lparr>l_unresolved := True\<rparr>) t))"

text \<open>The result is the error, if any, the ended lease and the new epoch.\<close>

definition end_finish ::
    "int \<Rightarrow> nat \<Rightarrow> string \<Rightarrow> string \<Rightarrow> string \<Rightarrow> lease_call \<Rightarrow> (string + nat) \<Rightarrow> lease_table
     \<Rightarrow> (string option \<times> lease_snap \<times> nat) \<times> lease_table" where
  "end_finish now proj event actor why c r t =
     (case r of
        Inl e \<Rightarrow> ((Some e, snap (lc_old c), 0), t)
      | Inr ep \<Rightarrow>
          ((None, snap (lc_old c), ep),
           logEvent now event (snap (lc_old c)) actor why
             (put_lease proj ((lc_next c)\<lparr>l_epoch := ep, l_unresolved := False\<rparr>) t)))"

definition endLocked ::
    "delivery \<Rightarrow> int \<Rightarrow> nat \<Rightarrow> string \<Rightarrow> string \<Rightarrow> string \<Rightarrow> lease_table \<Rightarrow> lease_keys
     \<Rightarrow> (string option \<times> lease_snap \<times> nat) \<times> lease_table \<times> lease_keys" where
  "endLocked d now proj event actor why t k =
     (case end_begin now proj t of
        (Inl e, t1) \<Rightarrow> ((Some e, empty_snap, 0), t1, k)
      | (Inr None, t1) \<Rightarrow> ((None, empty_snap, 0), t1, k)
      | (Inr (Some c), t1) \<Rightarrow>
          let (r, k') = transition d (lc_op c) (lc_old c) (lc_next c) k;
              (res, t2) = end_finish now proj event actor why c r t1
          in (res, t2, k'))"

subsection \<open>Touches and heartbeats\<close>

definition touch1 :: "int \<Rightarrow> principal \<Rightarrow> nat \<Rightarrow> lease_table \<Rightarrow> lease_table" where
  "touch1 now p pr t =
     (case lease_at t pr of
        Some l \<Rightarrow>
          if \<not> l_unresolved l \<and> l_holder l = p_name p
          then put_lease pr (l\<lparr>l_lastWriteMs := ms now, l_dirty := True\<rparr>) t else t
      | None \<Rightarrow> t)"

definition touch :: "int \<Rightarrow> principal \<Rightarrow> nat list \<Rightarrow> lease_table \<Rightarrow> lease_table" where
  "touch now p projs t = fold (touch1 now p) projs t"

definition beat :: "int \<Rightarrow> principal \<Rightarrow> nat list \<Rightarrow> lease \<Rightarrow> lease" where
  "beat now p pending l =
     (if l_holder l = p_name p \<and> \<not> l_unresolved l
      then l\<lparr>l_lastHbMs := ms now, l_pending := (l_proj l \<in> set pending), l_dirty := True\<rparr> else l)"

text \<open>The held leases by project, and the projects of the caller that are lost.\<close>

definition heartbeat ::
    "int \<Rightarrow> principal \<Rightarrow> nat list \<Rightarrow> lease_table \<Rightarrow> (lease_snap list \<times> nat list) \<times> lease_table" where
  "heartbeat now p pending t =
     (let t1 = t\<lparr>t_leases := map (\<lambda>(pr, l). (pr, beat now p pending l)) (t_leases t)\<rparr>;
          mine = filter (\<lambda>l. l_holder l = p_name p) (map snd (t_leases t1)) in
      ((sort_key s_proj (map snap (filter (\<lambda>l. \<not> l_unresolved l) mine)),
        sort (map l_proj (filter l_unresolved mine)
          @ filter (\<lambda>pr. case lease_at t pr of None \<Rightarrow> True | Some l \<Rightarrow> l_holder l \<noteq> p_name p) pending)), t1))"

subsection \<open>Expiry\<close>

datatype expiry = CheckoutEnded | Orphaned int | Idle int

definition expiryReason :: "lease \<Rightarrow> int \<Rightarrow> lease_cfg \<Rightarrow> expiry option" where
  "expiryReason l now c =
     (if \<not> held l \<or> l_unresolved l then None
      else if l_mode l = LeaseCheckout then
        (if 0 < l_checkoutUntilMs l \<and> l_checkoutUntilMs l \<le> now then Some CheckoutEnded else None)
      else if Milliseconds (lc_orphan c) \<le> wrap64 (now - liveMs l) then Some (Orphaned (lc_orphan c))
      else if Milliseconds (lc_idle c) \<le> wrap64 (now - l_lastWriteMs l) \<and> \<not> l_pending l then Some (Idle (lc_idle c))
      else None)"

fun expiry_text :: "(int \<Rightarrow> string) \<Rightarrow> expiry \<Rightarrow> string" where
  "expiry_text dur CheckoutEnded = ''checkout ended''"
| "expiry_text dur (Orphaned d) = ''orphaned: no heartbeat or write for '' @ dur d"
| "expiry_text dur (Idle d) = ''idle '' @ dur d @ '' with no pending spool''"

text \<open>\<open>clk\<close> and \<open>ds\<close> are the clock and the network at the turn of each candidate.\<close>

definition sweep1 ::
    "(int \<Rightarrow> string) \<Rightarrow> (nat \<Rightarrow> int) \<Rightarrow> (nat \<Rightarrow> delivery) \<Rightarrow> lease_cfg \<Rightarrow> nat \<Rightarrow> lease_table \<times> (nat \<Rightarrow> lease_keys)
     \<Rightarrow> lease_table \<times> (nat \<Rightarrow> lease_keys)" where
  "sweep1 dur clk ds c pr ts =
     (case ts of (t, st) \<Rightarrow>
        case (case lease_at t pr of Some l \<Rightarrow> expiryReason l (ms (clk pr)) c | None \<Rightarrow> None) of
          None \<Rightarrow> (t, st)
        | Some why \<Rightarrow>
            (case endLocked (ds pr) (clk pr) pr ''expire'' ''-proxy'' (expiry_text dur why) t (st pr) of
               (res, t', k') \<Rightarrow> (t', st(pr := k'))))"

definition sweep ::
    "(int \<Rightarrow> string) \<Rightarrow> int \<Rightarrow> (nat \<Rightarrow> int) \<Rightarrow> (nat \<Rightarrow> delivery) \<Rightarrow> lease_table \<times> (nat \<Rightarrow> lease_keys)
     \<Rightarrow> lease_table \<times> (nat \<Rightarrow> lease_keys)" where
  "sweep dur now clk ds ts =
     (let c = t_cfg (fst ts);
          cands = sort (map fst (filter (\<lambda>(pr, l). expiryReason l (ms now) c \<noteq> None) (t_leases (fst ts)))) in
      fold (sweep1 dur clk ds c) cands ts)"

subsection \<open>Flush\<close>

definition flush_args :: "lease \<Rightarrow> string list" where
  "flush_args l = [FormatUint (l_epoch l), l_holder l, FormatInt (l_lastWriteMs l), FormatInt (l_lastHbMs l),
     boolStr (l_pending l)]"

text \<open>\<open>l0\<close> is the record as it was sent: a touch that came in between leaves the record dirty.\<close>

definition flush_finish :: "nat \<Rightarrow> lease \<Rightarrow> (string + int) \<Rightarrow> lease_table \<Rightarrow> lease_table" where
  "flush_finish pr l0 r t =
     (case lease_at t pr of
        None \<Rightarrow> t
      | Some l \<Rightarrow>
          if r \<noteq> Inr 1 then put_lease pr (l\<lparr>l_unresolved := True\<rparr>) t
          else if l_lastWriteMs l = l_lastWriteMs l0 \<and> l_lastHbMs l = l_lastHbMs l0 \<and> l_pending l = l_pending l0
          then put_lease pr (l\<lparr>l_dirty := False\<rparr>) t else t)"

definition flush1 :: "(nat \<Rightarrow> delivery) \<Rightarrow> nat \<Rightarrow> lease_table \<times> (nat \<Rightarrow> lease_keys) \<Rightarrow> lease_table \<times> (nat \<Rightarrow> lease_keys)" where
  "flush1 ds pr ts =
     (case ts of (t, st) \<Rightarrow>
        case lease_at t pr of
          None \<Rightarrow> (t, st)
        | Some l \<Rightarrow>
            if \<not> l_dirty l \<or> \<not> held l \<or> l_unresolved l then (t, st)
            else
              (let (r, k') = leaseFlushLua (flush_args l) (st pr) in
               case ds pr of
                 NotRun e \<Rightarrow> (flush_finish pr l (Inl e) t, st)
               | ReplyLost e \<Rightarrow> (flush_finish pr l (Inl e) t, st(pr := k'))
               | Delivered \<Rightarrow> (flush_finish pr l r t, st(pr := k'))))"

definition flushDirty :: "(nat \<Rightarrow> delivery) \<Rightarrow> lease_table \<times> (nat \<Rightarrow> lease_keys) \<Rightarrow> lease_table \<times> (nat \<Rightarrow> lease_keys)" where
  "flushDirty ds ts =
     fold (flush1 ds)
       (sort (map fst (filter (\<lambda>(pr, l). l_dirty l \<and> held l \<and> \<not> l_unresolved l) (t_leases (fst ts))))) ts"

definition heldWithin :: "int \<Rightarrow> principal \<Rightarrow> nat \<Rightarrow> int \<Rightarrow> lease_table \<Rightarrow> bool" where
  "heldWithin now p proj d t =
     (case lease_at t proj of
        None \<Rightarrow> False
      | Some l \<Rightarrow>
          if l_unresolved l then False
          else if l_holder l = p_name p then True
          else (case map_of (l_recent l) (p_name p) of
                  Some tm \<Rightarrow> wrap64 (ms now - tm) \<le> Milliseconds d
                | None \<Rightarrow> False))"

subsection \<open>Loading after a restart\<close>

definition bulk :: "string \<Rightarrow> resp_value" where "bulk s = Value CHR ''$'' s 0 [] False"

definition null_bulk :: resp_value where "null_bulk = Value CHR ''$'' [] 0 [] True"

text \<open>The answer of the read script; a key of another type makes the command in it fail.\<close>

definition loadLeaseRecordLua :: "lease_keys \<Rightarrow> resp_value" where
  "loadLeaseRecordLua k =
     (let ct = redis_TYPE (lk_counter k); ht = redis_TYPE (lk_hash k) in
      if (ct \<noteq> ''none'' \<and> ct \<noteq> ''string'') \<or> (ht \<noteq> ''none'' \<and> ht \<noteq> ''hash'')
      then Value CHR ''-'' ''WRONGTYPE Operation against a key holding the wrong kind of value'' 0 [] False
      else Value CHR ''*'' [] 0
        [case redis_GET (lk_counter k) of Some c \<Rightarrow> bulk c | None \<Rightarrow> null_bulk,
         Value CHR ''*'' [] 0
           (case lk_hash k of Some (RHash h) \<Rightarrow> concat (map (\<lambda>(f, v). [bulk f, bulk v]) h) | _ \<Rightarrow> []) False] False)"

definition is_bulk :: "resp_value \<Rightarrow> bool" where
  "is_bulk v \<longleftrightarrow> v_type v = CHR ''$'' \<and> \<not> v_null v"

text \<open>The one \<^verbatim>\<open>epoch\<close> field of the hash; \<^const>\<open>Inl\<close> is one of the source's refusals.\<close>

fun hash_epoch :: "resp_value list \<Rightarrow> nat option \<Rightarrow> string + nat option" where
  "hash_epoch (f # v # r) seen =
     (if \<not> is_bulk f \<or> \<not> is_bulk v then Inl ''malformed persisted hash''
      else if v_str f = ''epoch'' then
        (if seen \<noteq> None then Inl ''duplicate persisted epoch''
         else case persistedLeaseEpoch (v_str v) of
           None \<Rightarrow> Inl ''invalid persisted hash epoch''
         | Some n \<Rightarrow> hash_epoch r (Some n))
      else hash_epoch r seen)"
| "hash_epoch r seen = Inr seen"

definition loadLeaseRecord :: "nat \<Rightarrow> string + resp_value \<Rightarrow> string + resp_value list" where
  "loadLeaseRecord proj reply =
     (let bad = (\<lambda>t. Inl (''lease '' @ FormatUint proj @ '': '' @ t)) in
      case reply of
        Inl e \<Rightarrow> Inl e
      | Inr v \<Rightarrow>
          if v_type v \<noteq> CHR ''*'' \<or> length (v_elems v) \<noteq> 2 \<or> \<not> is_bulk (v_elems v ! 0) \<or>
             v_type (v_elems v ! 1) \<noteq> CHR ''*'' \<or> v_elems (v_elems v ! 1) = [] \<or> odd (length (v_elems (v_elems v ! 1)))
          then bad ''missing or malformed persisted epoch/hash''
          else case persistedLeaseEpoch (v_str (v_elems v ! 0)) of
            None \<Rightarrow> bad ''invalid persisted epoch counter''
          | Some counter \<Rightarrow>
              (case hash_epoch (v_elems (v_elems v ! 1)) None of
                 Inl e \<Rightarrow> bad e
               | Inr seen \<Rightarrow>
                   if seen \<noteq> Some counter then bad ''persisted hash/counter epoch mismatch''
                   else Inr (v_elems (v_elems v ! 1))))"

definition lease_field :: "string \<Rightarrow> string \<Rightarrow> lease \<Rightarrow> lease" where
  "lease_field f val l =
     (let n = fst (ParseInt val); u = nat (n mod 2 ^ 64) in
      if f = ''holder'' then l\<lparr>l_holder := val\<rparr>
      else if f = ''kind'' then l\<lparr>l_kind := val\<rparr>
      else if f = ''host'' then l\<lparr>l_host := val\<rparr>
      else if f = ''epoch'' then l\<lparr>l_epoch := u\<rparr>
      else if f = ''mode'' then l\<lparr>l_mode := val\<rparr>
      else if f = ''granted_ms'' then l\<lparr>l_grantedMs := n\<rparr>
      else if f = ''last_write_ms'' then l\<lparr>l_lastWriteMs := n\<rparr>
      else if f = ''last_hb_ms'' then l\<lparr>l_lastHbMs := n\<rparr>
      else if f = ''checkout_until_ms'' then l\<lparr>l_checkoutUntilMs := n\<rparr>
      else if f = ''pending'' then l\<lparr>l_pending := (val = ''1'')\<rparr>
      else if f = ''label'' then l\<lparr>l_label := val\<rparr>
      else if HasPrefix f ''e:'' then l\<lparr>l_hist := AList.update (drop 2 f) u (l_hist l)\<rparr>
      else l)"

fun lease_fields :: "resp_value list \<Rightarrow> lease \<Rightarrow> lease" where
  "lease_fields (f # v # r) l = lease_fields r (lease_field (v_str f) (v_str v) l)"
| "lease_fields r l = l"

definition load_lease :: "int \<Rightarrow> nat \<Rightarrow> resp_value list \<Rightarrow> lease" where
  "load_lease startMs proj h =
     (let l = lease_fields h (new_lease proj) in
      if held l \<and> l_lastHbMs l < startMs then l\<lparr>l_lastHbMs := startMs\<rparr> else l)"

definition TrimPrefix :: "string \<Rightarrow> string \<Rightarrow> string" where
  "TrimPrefix s p = (if HasPrefix s p then drop (length p) s else s)"

fun load_keys ::
    "(nat \<Rightarrow> string + resp_value) \<Rightarrow> int \<Rightarrow> resp_value list \<Rightarrow> (nat \<times> lease) list \<Rightarrow> string + (nat \<times> lease) list" where
  "load_keys rd startMs [] cands = Inr cands"
| "load_keys rd startMs (k # ks) cands =
     (case digits (TrimPrefix (v_str k) LeaseKeyPrefix) of
        None \<Rightarrow> Inl (''malformed persisted lease key'')
      | Some proj \<Rightarrow>
          if proj = 0 \<or> leaseKey proj \<noteq> v_str k then Inl (''malformed persisted lease key'')
          else case loadLeaseRecord proj (rd proj) of
            Inl e \<Rightarrow> Inl e
          | Inr h \<Rightarrow> load_keys rd startMs ks (AList.update proj (load_lease startMs proj h) cands))"

text \<open>The answers of the successive SCAN calls; \<^const>\<open>None\<close> is a scan that never returns to cursor 0.\<close>

partial_function (option) load_scan ::
    "(nat \<Rightarrow> string + resp_value) \<Rightarrow> (nat \<Rightarrow> string + resp_value) \<Rightarrow> int \<Rightarrow> nat \<Rightarrow> (nat \<times> lease) list
     \<Rightarrow> (string + (nat \<times> lease) list) option" where
  [code]: "load_scan scan rd startMs i cands =
     (case scan i of
        Inl e \<Rightarrow> Some (Inl e)
      | Inr v \<Rightarrow>
          if length (v_elems v) \<noteq> 2 then Some (Inl errProtocol)
          else case load_keys rd startMs (v_elems (v_elems v ! 1)) cands of
            Inl e \<Rightarrow> Some (Inl e)
          | Inr cands' \<Rightarrow>
              if v_str (v_elems v ! 0) = ''0'' then Some (Inr cands')
              else load_scan scan rd startMs (Suc i) cands')"

definition loadLeases ::
    "(nat \<Rightarrow> string + resp_value) \<Rightarrow> (nat \<Rightarrow> string + resp_value) \<Rightarrow> int \<Rightarrow> lease_table \<Rightarrow> (string option \<times> lease_table) option" where
  "loadLeases scan rd startMs t =
     (case load_scan scan rd startMs 0 [] of
        None \<Rightarrow> None
      | Some (Inl e) \<Rightarrow> Some (Some e, t)
      | Some (Inr cands) \<Rightarrow> Some (None, t\<lparr>t_leases := cands\<rparr>))"

end
