(* ===== verification/Smart_Views.thy ===== *)
theory Smart_Views
  imports Grants Leases
begin

section \<open>Smart-folder views (smartview.go)\<close>

text \<open>
  The one directory above the project depth that a principal other than the admin may remove: an
  empty view the Manager created under one of its smart roots.  Reads go through the side connection
  of the volume's database; what the source returns as a closure to run after the commit is a value of
  \<open>view_action\<close>.  The record of views is a set in Redis with a mirror in memory.
\<close>

definition smartPruneMax :: nat where "smartPruneMax = 4096"
definition smartViewSkew :: int where "smartViewSkew = 3600"
definition attrTimesFrom :: nat where "attrTimesFrom = 23"
definition attrNlinkAt :: nat where "attrNlinkAt = 47"
definition attrNlinkEnd :: nat where "attrNlinkEnd = 51"
definition attrMinLen :: nat where "attrMinLen = 72"
definition SmartViewsKey :: string where "SmartViewsKey = ''jmlease:v1:smartviews''"

definition smartViewDirStatHashes :: "string list" where
  "smartViewDirStatHashes = [''dirDataLength'', ''dirUsedSpace'', ''dirUsedInodes'', ''dirQuota'', ''dirQuotaUsedSpace'',
     ''dirQuotaUsedInodes'']"

datatype view_action = ViewRemoved nat string string | ViewCreated nat string string

definition rmdirCmdKey :: "(string \<Rightarrow> string) \<Rightarrow> string \<Rightarrow> string list \<Rightarrow> string" where
  "rmdirCmdKey quote name args = name @ concat (map (\<lambda>a. CHR 0x00 # quote a) args)"

text \<open>An empty text means the inode is \<open>p\<close>'s own.\<close>

definition ownedBy :: "principal \<Rightarrow> unit_env \<Rightarrow> nat \<Rightarrow> string" where
  "ownedBy p ue n =
     (case v_inodeOwner ue of
        None \<Rightarrow> ''no inode allocation record''
      | Some owner \<Rightarrow>
          (case owner n of
             Inl e \<Rightarrow> ''inode allocation record: '' @ e
           | Inr None \<Rightarrow> ''inode '' @ inoStr n @ '' has no recorded creator''
           | Inr (Some w) \<Rightarrow> if w \<noteq> p_name p then ''inode '' @ inoStr n @ '' was not created by '' @ p_name p else []))"

fun smart_root_named :: "nat \<Rightarrow> resp_value list \<Rightarrow> string list \<Rightarrow> string" where
  "smart_root_named dir (el # els) (r # rs) =
     (if \<not> v_null el \<and> entryType (v_str el) = Some typeDir \<and> entryInode (v_str el) = Some dir then r
      else smart_root_named dir els rs)"
| "smart_root_named dir els rs = []"

definition smartRootOf :: "side \<Rightarrow> int \<Rightarrow> string list \<Rightarrow> principal \<Rightarrow> unit_env \<Rightarrow> nat \<Rightarrow> string + string" where
  "smartRootOf side db roots p ue dir =
     (case side_do side db ([''HMGET'', ''d'' @ inoStr rootIno] @ roots) of
        Inl e \<Rightarrow> Inl ''cannot read the smart-folder roots''
      | Inr v \<Rightarrow>
          if length (v_elems v) \<noteq> length roots then Inl ''cannot read the smart-folder roots''
          else
            let root = smart_root_named dir (v_elems v) roots in
            if root = [] then Inl (''directory '' @ inoStr dir @ '' is not a smart-folder root'')
            else if ownedBy p ue dir \<noteq> [] then Inl (''smart-folder root '' @ root @ '': '' @ ownedBy p ue dir)
            else Inr root)"

definition rmdirParentAttr :: "bytes \<Rightarrow> bytes \<Rightarrow> bool" where
  "rmdirParentAttr old nx \<longleftrightarrow>
     attrMinLen \<le> length old \<and> length nx = length old \<and>
     take attrTimesFrom old = take attrTimesFrom nx \<and> drop attrNlinkEnd old = drop attrNlinkEnd nx \<and>
     (let was = be_value (take 4 (drop attrNlinkAt old)) in
      2 < was \<and> be_value (take 4 (drop attrNlinkAt nx)) = was - 1)"

text \<open>\<^verbatim>\<open>time.Unix(n, 0)\<close> as seconds from year 1 (int64, wrapping) and \<^verbatim>\<open>Time.Add\<close> of seconds (saturating).\<close>

definition time_unix :: "int \<Rightarrow> int" where "time_unix n = wrap64 (n + 62135596800)"

definition time_add :: "int \<Rightarrow> int \<Rightarrow> int" where
  "time_add t d = (if min_i64 \<le> t + d \<and> t + d \<le> max_i64 then t + d else if 0 < d then max_i64 else - max_i64)"

definition near_server :: "int \<Rightarrow> bytes \<Rightarrow> nat \<Rightarrow> bool" where
  "near_server now a at \<longleftrightarrow>
     (let t = time_unix (wrap64 (int (be_value (take 8 (drop at a))))); srv = time_unix now in
      time_add srv (- smartViewSkew) \<le> t \<and> t \<le> time_add srv smartViewSkew)"

definition attrTimesNow :: "side \<Rightarrow> int \<Rightarrow> bytes \<Rightarrow> string" where
  "attrTimesNow side db a =
     (case side_do side db [''TIME''] of
        Inl e \<Rightarrow> ''cannot read Redis TIME''
      | Inr v \<Rightarrow>
          if length (v_elems v) \<noteq> 2 then ''cannot read Redis TIME''
          else case ParseInt (v_str (v_elems v ! 0)) of
            (now, Some e) \<Rightarrow> ''cannot read Redis TIME''
          | (now, None) \<Rightarrow>
              if near_server now a attrTimesFrom \<and> near_server now a (attrTimesFrom + 12) then []
              else ''its times are not the server's current time'')"

subsection \<open>The removal of a view\<close>

text \<open>The commands of juicefs's rmdir without the trash, as a map from command to how often it is still expected.\<close>

definition rmdir_want :: "(string \<Rightarrow> string) \<Rightarrow> string \<Rightarrow> string \<Rightarrow> string \<Rightarrow> (string \<times> nat) list" where
  "rmdir_want quote pd nd name =
     fold (\<lambda>k. AList.update k 1)
       ([rmdirCmdKey quote ''HDEL'' [''d'' @ pd, name], rmdirCmdKey quote ''DEL'' [''i'' @ nd],
         rmdirCmdKey quote ''DEL'' [''x'' @ nd], rmdirCmdKey quote ''INCRBY'' [''usedSpace'', ''-4096''],
         rmdirCmdKey quote ''DECR'' [''totalInodes'']] @
        map (\<lambda>h. rmdirCmdKey quote ''HDEL'' [h, nd]) smartViewDirStatHashes) []"

text \<open>Crosses the commands off; the one \<^verbatim>\<open>SET\<close> of the parent's attributes is set aside.\<close>

fun rmdir_cmds ::
    "(string \<Rightarrow> string) \<Rightarrow> string \<Rightarrow> cmd list \<Rightarrow> bytes option \<Rightarrow> (string \<times> nat) list \<Rightarrow> string + bytes option \<times> (string \<times> nat) list" where
  "rmdir_cmds quote pd [] na want = Inr (na, want)"
| "rmdir_cmds quote pd (c # cs) na want =
     (if c_name (cmd_info c) = ''SET'' \<and> length (cmd_args c) = 3 \<and> cmd_args c ! 1 = ''i'' @ pd \<and> na = None
      then rmdir_cmds quote pd cs (Some (cmd_args c ! 2)) want
      else
        let k = rmdirCmdKey quote (c_name (cmd_info c)) (drop 1 (cmd_args c)) in
        (case map_of want k of
           Some (Suc n) \<Rightarrow> rmdir_cmds quote pd cs na (AList.update k n want)
         | _ \<Rightarrow> Inl (''the unit is not exactly an rmdir: '' @ sanitizeToken (c_name (cmd_info c)))))"

text \<open>The reads that confirm an empty recorded view.\<close>

definition view_stored :: "side \<Rightarrow> int \<Rightarrow> nat \<Rightarrow> string \<Rightarrow> nat \<Rightarrow> bytes \<Rightarrow> bytes \<Rightarrow> string option" where
  "view_stored side db dir name n stored newAttr =
     (let pd = inoStr dir; nd = inoStr n; rd = side_do side db in
      if (case rd [''HGET'', ''d'' @ pd, name] of Inl e \<Rightarrow> True | Inr v \<Rightarrow> v_null v \<or> v_str v \<noteq> stored) then Some ''the entry changed''
      else case rd [''GET'', ''i'' @ nd] of
        Inl e \<Rightarrow> Some (''cannot read inode '' @ nd)
      | Inr v \<Rightarrow>
          if v_null v then Some (''cannot read inode '' @ nd)
          else if (case parseAttr (v_str v) of None \<Rightarrow> True | Some ai \<Rightarrow> a_typ ai \<noteq> typeDir \<or> a_parent ai \<noteq> dir)
          then Some (''inode '' @ nd @ '' is not a directory in '' @ pd)
          else case rd [''HLEN'', ''d'' @ nd] of
            Inl e \<Rightarrow> Some (''cannot read directory '' @ nd)
          | Inr h \<Rightarrow>
              if v_type h \<noteq> CHR '':'' then Some (''cannot read directory '' @ nd)
              else if v_int h \<noteq> 0 then Some (''directory '' @ nd @ '' is not empty'')
              else case rd [''GET'', ''i'' @ pd] of
                Inl e \<Rightarrow> Some (''cannot read inode '' @ pd)
              | Inr o' \<Rightarrow>
                  if v_null o' then Some (''cannot read inode '' @ pd)
                  else if \<not> rmdirParentAttr (v_str o') newAttr
                  then Some (''the new attr of '' @ pd @ '' changes more than its link count and times'')
                  else if attrTimesNow side db newAttr \<noteq> [] then Some (''the new attr of '' @ pd @ '': '' @ attrTimesNow side db newAttr)
                  else None)"

definition smartViewRemoval ::
    "(string \<Rightarrow> string) \<Rightarrow> side \<Rightarrow> int \<Rightarrow> string list \<Rightarrow> principal \<Rightarrow> punit \<Rightarrow> unit_env \<Rightarrow> dentry_op \<Rightarrow> bytes \<Rightarrow> string + view_action" where
  "smartViewRemoval quote side db roots p u ue op stored =
     (if p_kind p \<noteq> KindManager then Inl ''not the manager principal''
      else if roots = [] then Inl ''no smart-folder roots configured''
      else if u_kind u \<noteq> UnitTxn \<or> u_db u \<noteq> db then Inl ''not a transaction on the volume''
      else case entryInode stored of
        None \<Rightarrow> Inl ''not the removal of a directory entry''
      | Some n \<Rightarrow>
          if \<not> op_del op \<or> op_trash op then Inl ''not the removal of a directory entry''
          else
            let pd = inoStr (op_dir op); nd = inoStr n in
            (case rmdir_cmds quote pd (u_cmds u) None (rmdir_want quote pd nd (op_name op)) of
               Inl why \<Rightarrow> Inl why
             | Inr (na, want) \<Rightarrow>
                 if list_ex (\<lambda>(k, c). c \<noteq> 0) want then Inl ''the unit is not exactly an rmdir''
                 else case na of
                   None \<Rightarrow> Inl (''the unit is not exactly an rmdir: no SET i'' @ pd)
                 | Some newAttr \<Rightarrow>
                     (case filter (\<lambda>k. k \<notin> set (u_watched u)) [''i'' @ pd, ''d'' @ pd, ''i'' @ nd, ''d'' @ nd] of
                        k # ks \<Rightarrow> Inl (k @ '' is not WATCHed'')
                      | [] \<Rightarrow>
                          (case v_beforeSide ue of
                             None \<Rightarrow> Inl ''no WATCH on the connection''
                           | Some (Some e) \<Rightarrow> Inl (''WATCH not confirmed before side read: '' @ e)
                           | Some None \<Rightarrow>
                               (case smartRootOf side db roots p ue (op_dir op) of
                                  Inl why \<Rightarrow> Inl why
                                | Inr root \<Rightarrow>
                                    (case view_stored side db (op_dir op) (op_name op) n stored newAttr of
                                       Some why \<Rightarrow> Inl why
                                     | None \<Rightarrow>
                                         if ownedBy p ue n \<noteq> [] then Inl (ownedBy p ue n)
                                         else case side_do side db [''SISMEMBER'', SmartViewsKey, nd] of
                                           Inl e \<Rightarrow> Inl ''cannot read the view record''
                                         | Inr v \<Rightarrow>
                                             if v_type v \<noteq> CHR '':'' then Inl ''cannot read the view record''
                                             else if v_int v \<noteq> 1 then Inl (''directory '' @ nd @ '' is not a recorded smart-folder view'')
                                             else Inr (ViewRemoved n root (op_name op))))))))"

subsection \<open>The creation of a view\<close>

definition smartViewCreation ::
    "side \<Rightarrow> int \<Rightarrow> string list \<Rightarrow> principal \<Rightarrow> punit \<Rightarrow> unit_env \<Rightarrow> unit_facts \<Rightarrow> ancestry \<Rightarrow> view_action option \<times> ancestry" where
  "smartViewCreation side db roots p u ue f a =
     (case f_dentries f of
        [op] \<Rightarrow>
          if roots = [] \<or> u_db u \<noteq> db \<or> op_del op \<or> op_trash op \<or> \<not> op_isDir op then (None, a)
          else if (case map_of (f_setAttr f) (op_ino op) of
                     None \<Rightarrow> True | Some at \<Rightarrow> a_typ at \<noteq> typeDir \<or> a_parent at \<noteq> op_dir op) then (None, a)
          else (case resolveDir side (op_dir op) a of
              (Inl e, a1) \<Rightarrow> (None, a1)
            | (Inr loc, a1) \<Rightarrow>
                if loc_kind loc \<noteq> NsRoot \<or> loc_depth loc \<noteq> 1 then (None, a1)
                else (case smartRootOf side db roots p ue (op_dir op) of
                    Inl why \<Rightarrow> (None, a1)
                  | Inr root \<Rightarrow>
                      if ownedBy p ue (op_ino op) \<noteq> [] then (None, a1)
                      else (case side_do side db [''EXISTS'', ''i'' @ inoStr (op_ino op)] of
                          Inl e \<Rightarrow> (None, a1)
                        | Inr v \<Rightarrow>
                            if v_int v \<noteq> 0 then (None, a1)
                            else (Some (ViewCreated (op_ino op) root (op_name op)), a1))))
      | _ \<Rightarrow> (None, a))"

subsection \<open>The record of views\<close>

record view_record =
  vr_mirror :: "nat list"
  vr_redis :: "nat list"

text \<open>An error of the side command leaves the mirror as it is; a lost reply leaves Redis changed.\<close>

definition dropSmartView :: "delivery \<Rightarrow> nat \<Rightarrow> view_record \<Rightarrow> view_record" where
  "dropSmartView d n r =
     (case d of
        NotRun e \<Rightarrow> r
      | ReplyLost e \<Rightarrow> r\<lparr>vr_redis := removeAll n (vr_redis r)\<rparr>
      | Delivered \<Rightarrow> r\<lparr>vr_redis := removeAll n (vr_redis r), vr_mirror := removeAll n (vr_mirror r)\<rparr>)"

definition addSmartView :: "delivery \<Rightarrow> nat \<Rightarrow> view_record \<Rightarrow> view_record" where
  "addSmartView d n r =
     (case d of
        NotRun e \<Rightarrow> r
      | ReplyLost e \<Rightarrow> r\<lparr>vr_redis := List.insert n (vr_redis r)\<rparr>
      | Delivered \<Rightarrow> r\<lparr>vr_redis := List.insert n (vr_redis r), vr_mirror := List.insert n (vr_mirror r)\<rparr>)"

definition forget_candidates :: "punit \<Rightarrow> nat list \<Rightarrow> nat list" where
  "forget_candidates u unlinked =
     unlinked @ map (\<lambda>w. k_ino (w_key w))
       (filter (\<lambda>w. k_shape (w_key w) = ShapeInode \<and> k_hasIno (w_key w) \<and>
          c_name (cmd_info (cmd_of u w)) \<in> {''DEL'', ''UNLINK'', ''GETDEL''}) (u_project u))"

definition forgetSmartViews :: "(nat \<Rightarrow> delivery) \<Rightarrow> punit \<Rightarrow> nat list \<Rightarrow> view_record \<Rightarrow> view_record" where
  "forgetSmartViews ds u unlinked r =
     fold (\<lambda>n. dropSmartView (ds n) n) (filter (\<lambda>n. n \<in> set (vr_mirror r)) (forget_candidates u unlinked)) r"

text \<open>The closures run once the unit committed, without their log entries.\<close>

fun run_view_action :: "(nat \<Rightarrow> delivery) \<Rightarrow> view_action \<Rightarrow> view_record \<Rightarrow> view_record" where
  "run_view_action ds (ViewRemoved n root name) r = dropSmartView (ds n) n r"
| "run_view_action ds (ViewCreated n root name) r = addSmartView (ds n) n r"

definition view_log :: "int \<Rightarrow> principal \<Rightarrow> view_action \<Rightarrow> string list" where
  "view_log now p act =
     (case act of
        ViewRemoved n root name \<Rightarrow>
          [''event'', ''smart_view_remove'', ''proj'', inoStr n, ''actor'', p_name p, ''kind'', kind_str (p_kind p),
           ''root'', sanitizeToken root, ''view'', sanitizeToken name, ''ts_ms'', FormatInt (ms now)]
      | ViewCreated n root name \<Rightarrow>
          [''event'', ''smart_view_create'', ''proj'', inoStr n, ''actor'', p_name p, ''kind'', kind_str (p_kind p),
           ''root'', sanitizeToken root, ''view'', sanitizeToken name, ''ts_ms'', FormatInt (ms now)])"

subsection \<open>Loading and pruning the record\<close>

text \<open>The pages of \<^verbatim>\<open>SSCAN\<close>; the flag says whether the scan ended.\<close>

partial_function (option) scan_views :: "side \<Rightarrow> int \<Rightarrow> string \<Rightarrow> nat list \<Rightarrow> (bool \<times> nat list) option" where
  "scan_views side db cursor views =
     (case side_do side db [''SSCAN'', SmartViewsKey, cursor, ''COUNT'', ''1000''] of
        Inl e \<Rightarrow> Some (False, views)
      | Inr v \<Rightarrow>
          if length (v_elems v) \<noteq> 2 then Some (False, views)
          else
            let views1 = fold (\<lambda>m vs. case digits (v_str m) of Some n \<Rightarrow> List.insert n vs | None \<Rightarrow> vs) (v_elems (v_elems v ! 1)) views;
                nxt = v_str (v_elems v ! 0)
            in if nxt = ''0'' then Some (True, views1) else scan_views side db nxt views1)"

definition smart_root_inodes :: "resp_value list \<Rightarrow> nat list" where
  "smart_root_inodes els =
     List.map_filter (\<lambda>el. if entryType (v_str el) = Some typeDir \<and> \<not> v_null el then entryInode (v_str el) else None) els"

definition view_current :: "side \<Rightarrow> int \<Rightarrow> string list \<Rightarrow> nat list \<Rightarrow> nat \<Rightarrow> bool option" where
  "view_current side db roots ins n =
     (case side_do side db [''GET'', ''i'' @ inoStr n] of
        Inl e \<Rightarrow> None
      | Inr v \<Rightarrow>
          Some (\<not> v_null v \<and>
            (case parseAttr (v_str v) of
               None \<Rightarrow> False | Some at \<Rightarrow> a_typ at = typeDir \<and> (roots = [] \<or> a_parent at \<in> set ins))))"

text \<open>One checked entry: dropped when its inode is gone or out of its root and the removal was confirmed.\<close>

definition prune_view :: "side \<Rightarrow> int \<Rightarrow> string list \<Rightarrow> nat list \<Rightarrow> (nat \<Rightarrow> delivery) \<Rightarrow> nat \<Rightarrow> view_record \<Rightarrow> view_record" where
  "prune_view side db roots ins ds n r =
     (if view_current side db roots ins n = Some False then dropSmartView (ds n) n r else r)"

text \<open>The order in which the map of views is ranged over is the argument \<open>order\<close>; \<^const>\<open>None\<close>: the scan never ended.\<close>

definition loadSmartViews ::
    "side \<Rightarrow> int \<Rightarrow> string list \<Rightarrow> (nat \<Rightarrow> delivery) \<Rightarrow> (nat list \<Rightarrow> nat list) \<Rightarrow> view_record \<Rightarrow> view_record option" where
  "loadSmartViews side db roots ds order r =
     (case scan_views side db ''0'' [] of
        None \<Rightarrow> None
      | Some (ended, views) \<Rightarrow>
          let r1 = r\<lparr>vr_mirror := views\<rparr> in
          if \<not> ended then Some r1
          else if roots = [] then Some (fold (prune_view side db roots [] ds) (take smartPruneMax (order views)) r1)
          else case side_do side db ([''HMGET'', ''d'' @ inoStr rootIno] @ roots) of
            Inl e \<Rightarrow> Some r1
          | Inr v \<Rightarrow> Some (fold (prune_view side db roots (smart_root_inodes (v_elems v)) ds) (take smartPruneMax (order views)) r1))"

end
