(* ===== verification/Decide.thy ===== *)
theory Decide
  imports Smart_Views
begin

section \<open>The lease decision (decide.go)\<close>

text \<open>
  The engine is the lease table with its durable record, the ancestry, the grant cache and the view
  record.  A call of \<open>Decide\<close> runs in a context: the side reads, the text functions, a clock and a
  network outcome for every transition it makes (by attempt and project), and \<open>x_other\<close>, what other
  goroutines do to the engine at the points where the call holds no fence.  Its answer is a ticket:
  the refusal, if any, and what the closures \<^verbatim>\<open>done\<close> and \<^verbatim>\<open>onTimeout\<close> capture.
\<close>

record engine =
  e_table :: lease_table
  e_keys :: "nat \<Rightarrow> lease_keys"
  e_anc :: ancestry
  e_grants :: grant_cache
  e_views :: view_record
  e_roots :: "string list"
  e_nAllow :: nat
  e_nDeny :: nat
  e_nGrant :: nat
  e_nFenceTimeout :: nat
  e_nLostKill :: nat

record decide_ctx =
  x_quote :: "string \<Rightarrow> string"
  x_side :: side
  x_summary :: string
  x_time :: int
  x_clk :: "nat \<Rightarrow> nat \<Rightarrow> int"
  x_ds :: "nat \<Rightarrow> nat \<Rightarrow> delivery"
  x_other :: "nat \<Rightarrow> nat \<Rightarrow> engine \<Rightarrow> engine"

record ticket =
  tk_facts :: unit_facts
  tk_topoW :: bool
  tk_fences :: "nat list"
  tk_epochs :: "(nat \<times> nat) list"
  tk_rootTouch :: bool
  tk_onCommit :: "view_action list"
  tk_deny :: "denial option"
  tk_released :: bool
  tk_timedOut :: bool

definition bypass :: "principal \<Rightarrow> punit \<Rightarrow> bool" where
  "bypass p u \<longleftrightarrow> p_kind p = KindAdmin \<or> p_kind p = KindBG \<or> u_mode u = ModePassthrough"

definition new_ticket :: "unit_facts \<Rightarrow> ticket" where
  "new_ticket f = \<lparr>tk_facts = f, tk_topoW = f_topology f, tk_fences = [], tk_epochs = [], tk_rootTouch = False,
     tk_onCommit = [], tk_deny = None, tk_released = False, tk_timedOut = False\<rparr>"

definition admit :: "ticket \<Rightarrow> engine \<Rightarrow> ticket \<times> engine" where
  "admit tk e = (tk, e\<lparr>e_nAllow := e_nAllow e + 1\<rparr>)"

definition deny :: "decide_ctx \<Rightarrow> principal \<Rightarrow> punit \<Rightarrow> denial \<Rightarrow> ticket \<Rightarrow> engine \<Rightarrow> ticket \<times> engine" where
  "deny cx p u d tk e =
     (tk\<lparr>tk_onCommit := [], tk_fences := [], tk_deny := Some d\<rparr>,
      e\<lparr>e_nDeny := e_nDeny e + 1, e_table := logDeny (x_time cx) p d (u_mode u) (x_summary cx) (e_table e)\<rparr>)"

definition leaseDenial :: "reason \<Rightarrow> nat \<Rightarrow> lease_table \<Rightarrow> denial" where
  "leaseDenial r proj t =
     (let d = (refuse r [])\<lparr>d_proj := proj\<rparr> in
      case lease_at t proj of
        Some l \<Rightarrow> if held l then d\<lparr>d_holder := l_holder l, d_host := l_host l, d_epoch := l_epoch l\<rparr> else d
      | None \<Rightarrow> d)"

subsection \<open>Rolling grants back\<close>

definition rollback1 :: "decide_ctx \<Rightarrow> principal \<Rightarrow> nat \<Rightarrow> engine \<Rightarrow> engine" where
  "rollback1 cx p pr e0 =
     (let e = x_other cx 4 pr e0 in
      if (case lease_at (e_table e) pr of Some l \<Rightarrow> l_holder l = p_name p | None \<Rightarrow> False) then
        (case endLocked (x_ds cx 4 pr) (x_clk cx 4 pr) pr ''release'' (p_name p) ''rollback: unit refused (all-or-none)''
            (e_table e) (e_keys e pr) of
           (r, t', k') \<Rightarrow> e\<lparr>e_table := t', e_keys := (e_keys e)(pr := k')\<rparr>)
      else e)"

definition rollback :: "decide_ctx \<Rightarrow> principal \<Rightarrow> nat list \<Rightarrow> engine \<Rightarrow> engine" where
  "rollback cx p granted e = fold (rollback1 cx p) granted e"

definition deny_rollback :: "decide_ctx \<Rightarrow> principal \<Rightarrow> punit \<Rightarrow> denial \<Rightarrow> nat list \<Rightarrow> ticket \<Rightarrow> engine \<Rightarrow> ticket \<times> engine" where
  "deny_rollback cx p u d granted tk e =
     (case deny cx p u d tk e of (tk1, e1) \<Rightarrow> (tk1, rollback cx p granted e1))"

subsection \<open>Rows of the accounting hashes\<close>

fun dirstat_locs :: "side \<Rightarrow> nat list \<Rightarrow> ancestry \<Rightarrow> (nat + location list) \<times> ancestry" where
  "dirstat_locs side [] a = (Inr [], a)"
| "dirstat_locs side (d # ds) a =
     (case resolveDir side d a of
        (Inl e, a1) \<Rightarrow> (Inl d, a1)
      | (Inr loc, a1) \<Rightarrow>
          (case dirstat_locs side ds a1 of
             (Inl x, a2) \<Rightarrow> (Inl x, a2)
           | (Inr locs, a2) \<Rightarrow> (Inr (loc # locs), a2)))"

definition projects_of :: "location list \<Rightarrow> nat list" where
  "projects_of locs = sort (remdups (map loc_proj (filter (\<lambda>l. loc_kind l = NsProject) locs)))"

definition unresolved_at :: "lease_table \<Rightarrow> nat \<Rightarrow> bool" where
  "unresolved_at t pr \<longleftrightarrow> (case lease_at t pr of Some l \<Rightarrow> l_unresolved l | None \<Rightarrow> False)"

definition unresolved_denial :: "nat \<Rightarrow> denial" where
  "unresolved_denial pr = (refuse ReasonLeaseHeld ''lease transition unresolved'')\<lparr>d_proj := pr\<rparr>"

fun dirstat_gate :: "decide_ctx \<Rightarrow> principal \<Rightarrow> lease_table \<Rightarrow> location list \<Rightarrow> denial option" where
  "dirstat_gate cx p t [] = None"
| "dirstat_gate cx p t (loc # locs) =
     (case loc_kind loc of
        NsRoot \<Rightarrow> dirstat_gate cx p t locs
      | NsDerivatives \<Rightarrow> dirstat_gate cx p t locs
      | NsProject \<Rightarrow>
          if heldWithin (x_time cx) p (loc_proj loc) DirStatGrace t then dirstat_gate cx p t locs
          else Some ((leaseDenial ReasonBGOnly (loc_proj loc) t)\<lparr>d_detail := ''dir-stat row of a project not held within 5m0s''\<rparr>)
      | k \<Rightarrow> Some (refuse ReasonBGOnly (''dir-stat row in '' @ ns_str k)))"

definition decide_dirstat :: "decide_ctx \<Rightarrow> principal \<Rightarrow> punit \<Rightarrow> ticket \<Rightarrow> engine \<Rightarrow> ticket \<times> engine" where
  "decide_dirstat cx p u tk e =
     (case dirstat_locs (x_side cx) (f_dirStat (tk_facts tk)) (e_anc e) of
        (Inl dir, a1) \<Rightarrow>
          deny cx p u (refuse ReasonBGOnly (''dir-stat row of an unresolvable directory '' @ inoStr dir)) tk (e\<lparr>e_anc := a1\<rparr>)
      | (Inr locs, a1) \<Rightarrow>
          let prs = projects_of locs; e1 = x_other cx 0 0 (e\<lparr>e_anc := a1\<rparr>); tk1 = tk\<lparr>tk_fences := prs\<rparr> in
          (case filter (unresolved_at (e_table e1)) prs of
             pr # _ \<Rightarrow> deny cx p u (unresolved_denial pr) tk1 e1
           | [] \<Rightarrow>
               if bypass p u then admit tk1 e1
               else case dirstat_gate cx p (e_table e1) locs of
                 Some d \<Rightarrow> deny cx p u d tk1 e1
               | None \<Rightarrow> admit tk1 e1))"

subsection \<open>Entries above the project depth\<close>

definition root_entry ::
    "decide_ctx \<Rightarrow> string list \<Rightarrow> principal \<Rightarrow> punit \<Rightarrow> unit_env \<Rightarrow> dentry_op \<Rightarrow> int \<Rightarrow> denial option \<times> view_action option" where
  "root_entry cx roots p u ue op db =
     (case side_do (x_side cx) db [''HGET'', ''d'' @ FormatUint (op_dir op), op_name op] of
        Inl e \<Rightarrow> (Some (refuse ReasonUnknownKey (''cannot read root entry '' @ op_name op)), None)
      | Inr v \<Rightarrow>
          if v_null v then (None, None)
          else if entryType (v_str v) \<noteq> Some typeDir then (None, None)
          else if op_del op \<or> op_val op \<noteq> v_str v then
            let proj = (case entryInode (v_str v) of Some n \<Rightarrow> n | None \<Rightarrow> 0);
                detail = ''renaming or removing directory '' @ x_quote cx (op_name op) @ '' above the project depth needs admin'';
                no = (\<lambda>dt. (Some ((refuse ReasonAdminOnly dt)\<lparr>d_proj := proj\<rparr>), None))
            in if op_del op \<and> p_kind p = KindManager then
                 (case smartViewRemoval (x_quote cx) (x_side cx) db roots p u ue op (v_str v) of
                    Inr act \<Rightarrow> (None, Some act)
                  | Inl why \<Rightarrow> no (detail @ '' (not an empty smart-folder view of '' @ p_name p @ '''s: '' @ why @ '')''))
               else no detail
          else (None, None))"

fun rootEntryGate ::
    "decide_ctx \<Rightarrow> string list \<Rightarrow> principal \<Rightarrow> punit \<Rightarrow> unit_env \<Rightarrow> dentry_op list \<Rightarrow> view_action option \<Rightarrow> ancestry
     \<Rightarrow> (denial + view_action option) \<times> ancestry" where
  "rootEntryGate cx roots p u ue [] acc a = (Inr acc, a)"
| "rootEntryGate cx roots p u ue (op # ops) acc a =
     (if op_trash op then rootEntryGate cx roots p u ue ops acc a
      else case resolveDir (x_side cx) (op_dir op) a of
        (Inl e, a1) \<Rightarrow> rootEntryGate cx roots p u ue ops acc a1
      | (Inr loc, a1) \<Rightarrow>
          if loc_kind loc \<noteq> NsRoot then rootEntryGate cx roots p u ue ops acc a1
          else (case root_entry cx roots p u ue op (an_db a1) of
              (Some d, _) \<Rightarrow> (Inl d, a1)
            | (None, Some act) \<Rightarrow> rootEntryGate cx roots p u ue ops (Some act) a1
            | (None, None) \<Rightarrow> rootEntryGate cx roots p u ue ops acc a1))"

subsection \<open>Leases of the projects of a unit\<close>

text \<open>How the table stands under the read fences: the last unresolved project, the first lease of
  someone else, the free projects, and the epochs of the projects the caller holds.\<close>

record lease_view =
  lv_unresolved :: nat
  lv_other :: "lease_snap option"
  lv_free :: "nat list"
  lv_epochs :: "(nat \<times> nat) list"

definition view_project :: "lease_table \<Rightarrow> principal \<Rightarrow> nat \<Rightarrow> lease_view \<Rightarrow> lease_view" where
  "view_project t p pr w =
     (case lease_at t pr of
        None \<Rightarrow> w\<lparr>lv_free := lv_free w @ [pr]\<rparr>
      | Some l \<Rightarrow>
          if l_unresolved l then w\<lparr>lv_unresolved := pr\<rparr>
          else if \<not> held l then w\<lparr>lv_free := lv_free w @ [pr]\<rparr>
          else if l_holder l \<noteq> p_name p then (if lv_other w = None then w\<lparr>lv_other := Some (snap l)\<rparr> else w)
          else w\<lparr>lv_epochs := AList.update pr (l_epoch l) (lv_epochs w)\<rparr>)"

definition view_projects :: "lease_table \<Rightarrow> principal \<Rightarrow> nat list \<Rightarrow> (nat \<times> nat) list \<Rightarrow> lease_view" where
  "view_projects t p prs epochs =
     fold (view_project t p) prs \<lparr>lv_unresolved = 0, lv_other = None, lv_free = [], lv_epochs = epochs\<rparr>"

definition held_denial :: "lease_snap \<Rightarrow> nat \<Rightarrow> denial" where
  "held_denial s n =
     \<lparr>d_reason = (if 1 < n then ReasonXProject else ReasonLeaseHeld), d_proj = s_proj s, d_holder = s_holder s,
      d_host = s_host s, d_epoch = s_epoch s,
      d_detail = ''project '' @ FormatUint (s_proj s) @ '' held by '' @ s_holder s @ '' ('' @ FormatUint n @ '' project(s) in unit)''\<rparr>"

text \<open>Grants the free projects one by one, each under its write fence.\<close>

fun grant_free ::
    "decide_ctx \<Rightarrow> principal \<Rightarrow> nat \<Rightarrow> nat list \<Rightarrow> nat list \<Rightarrow> engine \<Rightarrow> (denial + unit) \<times> nat list \<times> engine" where
  "grant_free cx p n [] granted e = (Inr (), granted, e)"
| "grant_free cx p n (pr # prs) granted e0 =
     (let e = x_other cx n pr e0 in
      case grantLocked (x_ds cx n pr) (x_clk cx n pr) (label (e_anc e) pr) p pr LeaseAuto 0
          (''implicit: first admitted write: '' @ x_summary cx) (e_table e) (e_keys e pr) of
        (r, t', k') \<Rightarrow>
          let e1 = e\<lparr>e_table := t', e_keys := (e_keys e)(pr := k')\<rparr> in
          (case r of
             Inl err \<Rightarrow> (Inl ((refuse ReasonLeaseHeld (''lease store unavailable: '' @ err))\<lparr>d_proj := pr\<rparr>), granted, e1)
           | Inr (s, fs) \<Rightarrow>
               if s_holder s = p_name p then grant_free cx p n prs (granted @ [pr]) (e1\<lparr>e_nGrant := e_nGrant e1 + 1\<rparr>)
               else grant_free cx p n prs granted e1))"

text \<open>The attempts; \<open>left\<close> counts down from 3, so that attempt 3 is the last.\<close>

fun decide_loop ::
    "decide_ctx \<Rightarrow> principal \<Rightarrow> punit \<Rightarrow> nat list \<Rightarrow> nat \<Rightarrow> nat list \<Rightarrow> ticket \<Rightarrow> engine \<Rightarrow> ticket \<times> engine" where
  "decide_loop cx p u prs left granted tk e0 =
     (let e = x_other cx (3 - left) 0 e0;
          w = view_projects (e_table e) p prs (tk_epochs tk);
          tk1 = tk\<lparr>tk_fences := prs, tk_epochs := lv_epochs w\<rparr> in
      if lv_unresolved w \<noteq> 0 then deny_rollback cx p u (unresolved_denial (lv_unresolved w)) granted tk1 e
      else if bypass p u then admit tk1 e
      else case lv_other w of
        Some s \<Rightarrow> deny_rollback cx p u (held_denial s (length prs)) granted tk1 e
      | None \<Rightarrow>
          if lv_free w = [] then admit tk1 (e\<lparr>e_table := touch (x_time cx) p prs (e_table e)\<rparr>)
          else
            let tk2 = tk1\<lparr>tk_fences := []\<rparr> in
            (case left of
               0 \<Rightarrow> deny_rollback cx p u
                     ((refuse ReasonLeaseHeld ''lease grant raced repeatedly'')\<lparr>d_proj := hd (lv_free w)\<rparr>) granted tk2 e
             | Suc k \<Rightarrow>
                 (case grant_free cx p (3 - left) (lv_free w) granted e of
                    (Inl d, granted1, e1) \<Rightarrow> deny_rollback cx p u d granted1 tk2 e1
                  | (Inr _, granted1, e1) \<Rightarrow> decide_loop cx p u prs k granted1 tk2 e1)))"

declare decide_loop.simps [simp del]

subsection \<open>The decision\<close>

text \<open>The places of a unit: trash is refused to a lease-checked principal, an unresolved anchor to all.\<close>

fun place_gate :: "bool \<Rightarrow> location list \<Rightarrow> denial option" where
  "place_gate byp [] = None"
| "place_gate byp (l # ls) =
     (case loc_kind l of
        NsTrash \<Rightarrow> if \<not> byp then Some (refuse ReasonBGOnly ''write in ns:trash'') else place_gate byp ls
      | NsUnknown \<Rightarrow> Some (refuse ReasonUnknownKey ''unresolved anchor'')
      | _ \<Rightarrow> place_gate byp ls)"

definition decide_leases ::
    "decide_ctx \<Rightarrow> principal \<Rightarrow> punit \<Rightarrow> unit_env \<Rightarrow> location list \<Rightarrow> ticket \<Rightarrow> engine \<Rightarrow> ticket \<times> engine" where
  "decide_leases cx p u ue locs tk e =
     (let f = tk_facts tk; (rt, a1) = touchesRoot (x_side cx) f (e_anc e);
          tk1 = tk\<lparr>tk_rootTouch := rt\<rparr>; e1 = e\<lparr>e_anc := a1\<rparr> in
      case place_gate (bypass p u) locs of
        Some d \<Rightarrow> deny cx p u d tk1 e1
      | None \<Rightarrow>
          (case (if p_kind p \<noteq> KindAdmin then rootEntryGate cx (e_roots e1) p u ue (f_dentries f) None a1 else (Inr None, a1)) of
             (Inl d, a2) \<Rightarrow> deny cx p u d tk1 (e1\<lparr>e_anc := a2\<rparr>)
           | (Inr removal, a2) \<Rightarrow>
               let (created, a3) = (if p_kind p = KindManager
                     then smartViewCreation (x_side cx) (an_db a2) (e_roots e1) p u ue f a2 else (None, a2));
                   tk2 = tk1\<lparr>tk_onCommit := List.map_filter id [removal, created]\<rparr>; e3 = e1\<lparr>e_anc := a3\<rparr>;
                   prs = projects_of locs
               in if prs = [] then admit tk2 e3 else decide_loop cx p u prs 3 [] tk2 e3))"

definition decide_place ::
    "decide_ctx \<Rightarrow> principal \<Rightarrow> punit \<Rightarrow> unit_env \<Rightarrow> ticket \<Rightarrow> engine \<Rightarrow> ticket \<times> engine" where
  "decide_place cx p u ue tk e =
     (case placeUnit (x_quote cx) (x_side cx) p u ue (tk_facts tk) (if bypass p u then PlaceBypass else PlaceStrict)
         (e_anc e, f_unlinked (tk_facts tk)) of
        (r, (a1, ul)) \<Rightarrow>
          let tk1 = tk\<lparr>tk_facts := (tk_facts tk)\<lparr>f_unlinked := ul\<rparr>\<rparr>; e1 = e\<lparr>e_anc := a1\<rparr> in
          (case r of
             Inl pd \<Rightarrow>
               deny cx p u (if d_reason pd = ReasonXProject \<and> d_proj pd \<noteq> 0
                            then (leaseDenial ReasonXProject (d_proj pd) (e_table e1))\<lparr>d_detail := d_detail pd\<rparr> else pd) tk1 e1
           | Inr locs \<Rightarrow> decide_leases cx p u ue locs tk1 e1))"

definition decide_granted ::
    "decide_ctx \<Rightarrow> principal \<Rightarrow> punit \<Rightarrow> unit_env \<Rightarrow> ticket \<Rightarrow> engine \<Rightarrow> ticket \<times> engine" where
  "decide_granted cx p u ue tk e =
     (if f_unresolvable (tk_facts tk) \<noteq> [] then
        deny cx p u (refuse ReasonUnknownKey (''unanchored project write: '' @ hd (f_unresolvable (tk_facts tk)))) tk e
      else if dirStatOnly (tk_facts tk) then decide_dirstat cx p u tk e
      else decide_place cx p u ue tk e)"

definition Decide :: "decide_ctx \<Rightarrow> principal \<Rightarrow> punit \<Rightarrow> unit_env \<Rightarrow> engine \<Rightarrow> ticket \<times> engine" where
  "Decide cx p u ue e =
     (let f = analyzeUnit u; tk = new_ticket f in
      if grantsApply p ue then
        (case grantCheck (x_quote cx) (x_side cx) p u ue f ((e_anc e, f_unlinked f), e_grants e) of
           (r, (a1, ul), gc1) \<Rightarrow>
             let tk1 = tk\<lparr>tk_facts := f\<lparr>f_unlinked := ul\<rparr>\<rparr>; e1 = e\<lparr>e_anc := a1, e_grants := gc1\<rparr> in
             (case r of Some d \<Rightarrow> deny cx p u d tk1 e1 | None \<Rightarrow> decide_granted cx p u ue tk1 e1))
      else decide_granted cx p u ue tk e)"

subsection \<open>The end of a unit\<close>

text \<open>
  \<^verbatim>\<open>killUpstream\<close>: \<open>listing i\<close> is what \<^verbatim>\<open>CLIENT LIST\<close> answers in round \<open>i\<close> and \<open>kills i c\<close> the error, if any,
  of \<^verbatim>\<open>CLIENT KILL ID c\<close> in that round.
\<close>

fun client_fields :: "string \<Rightarrow> string list \<Rightarrow> string \<times> bool \<Rightarrow> string \<times> bool" where
  "client_fields want [] r = r"
| "client_fields want (f # fs) (cid, named) =
     client_fields want fs (if HasPrefix f ''id='' then drop 3 f else cid, named \<or> f = want)"

definition upstreamIDs :: "string \<Rightarrow> string + resp_value \<Rightarrow> string + string list" where
  "upstreamIDs name reply =
     (case reply of
        Inl e \<Rightarrow> Inl e
      | Inr v \<Rightarrow>
          Inr (map fst (filter (\<lambda>(cid, named). named \<and> cid \<noteq> [])
            (map (\<lambda>line. client_fields (''name='' @ name) (Fields line) ([], False)) (split_on LF (v_str v))))))"

fun kill_ids :: "(string \<Rightarrow> string option) \<Rightarrow> string list \<Rightarrow> string option" where
  "kill_ids kill [] = None"
| "kill_ids kill (c # cs) =
     (case kill c of
        Some e \<Rightarrow> if \<not> Contains e ''No such client'' then Some e else kill_ids kill cs
      | None \<Rightarrow> kill_ids kill cs)"

fun kill_rounds :: "string \<Rightarrow> (nat \<Rightarrow> string + resp_value) \<Rightarrow> (nat \<Rightarrow> string \<Rightarrow> string option) \<Rightarrow> nat \<Rightarrow> string option" where
  "kill_rounds name listing kills 0 = Some (''respproxy: upstream '' @ name @ '' still listed after CLIENT KILL'')"
| "kill_rounds name listing kills (Suc n) =
     (case upstreamIDs name (listing (4 - n)) of
        Inl e \<Rightarrow> Some e
      | Inr [] \<Rightarrow> None
      | Inr ids \<Rightarrow> (case kill_ids (kills (4 - n)) ids of Some e \<Rightarrow> Some e | None \<Rightarrow> kill_rounds name listing kills n))"

definition killUpstream :: "string \<Rightarrow> (nat \<Rightarrow> string + resp_value) \<Rightarrow> (nat \<Rightarrow> string \<Rightarrow> string option) \<Rightarrow> string option" where
  "killUpstream name listing kills =
     (if name = [] then Some ''respproxy: unit has no upstream name'' else kill_rounds name listing kills 5)"

definition UpstreamName :: "string \<Rightarrow> nat \<Rightarrow> string" where
  "UpstreamName who conn = ''p:'' @ who @ '':'' @ FormatUint conn"

definition upName :: "principal \<Rightarrow> unit_env \<Rightarrow> nat \<Rightarrow> string" where
  "upName p ue conn =
     (if conn = 0 \<or> conn = v_connID ue
      then (if v_upstreamName ue \<noteq> [] then v_upstreamName ue else UpstreamName (p_name p) (v_connID ue))
      else UpstreamName (p_name p) conn)"

definition releaseLocked :: "ticket \<Rightarrow> ticket" where
  "releaseLocked tk = (if tk_released tk then tk else tk\<lparr>tk_released := True, tk_fences := []\<rparr>)"

definition bump_grants :: "engine \<Rightarrow> engine" where
  "bump_grants e = e\<lparr>e_grants := (e_grants e)\<lparr>gc_epoch := (gc_epoch (e_grants e) + 1) mod 2 ^ 64\<rparr>\<rparr>"

definition run_on_commit :: "int \<Rightarrow> (nat \<Rightarrow> delivery) \<Rightarrow> principal \<Rightarrow> view_action \<Rightarrow> engine \<Rightarrow> engine" where
  "run_on_commit now ds p act e =
     (let e1 = e\<lparr>e_views := run_view_action ds act (e_views e)\<rparr> in
      case act of
        ViewRemoved n root name \<Rightarrow> e1\<lparr>e_table := queueLog (view_log now p act) (e_table e1)\<rparr>
      | ViewCreated n root name \<Rightarrow>
          if ds n = Delivered then e1\<lparr>e_table := queueLog (view_log now p act) (e_table e1)\<rparr> else e1)"

text \<open>\<open>kill\<close> is the outcome of \<^verbatim>\<open>killUpstream\<close> for the unit's connection, read only when it is called.\<close>

definition done_learn :: "int \<Rightarrow> (nat \<Rightarrow> delivery) \<Rightarrow> principal \<Rightarrow> outcome \<Rightarrow> ticket \<Rightarrow> engine \<Rightarrow> engine" where
  "done_learn now ds p oc tk e =
     (if tk_timedOut tk then e
      else if Lost oc then e\<lparr>e_anc := forget (tk_facts tk) (e_anc e)\<rparr>
      else if Committed oc then
        fold (run_on_commit now ds p) (tk_onCommit tk) (e\<lparr>e_anc := learnCommitted (tk_facts tk) (e_anc e)\<rparr>)
      else e)"

definition done_unit ::
    "int \<Rightarrow> (nat \<Rightarrow> delivery) \<Rightarrow> string option \<Rightarrow> principal \<Rightarrow> punit \<Rightarrow> outcome \<Rightarrow> ticket \<Rightarrow> engine \<Rightarrow> ticket \<times> engine" where
  "done_unit now ds kill p u oc tk e =
     (if tk_released tk \<and> \<not> tk_timedOut tk then (tk, e)
      else if Lost oc \<and> \<not> tk_released tk \<and> kill \<noteq> None then (tk, e)
      else
        let e0 = (if Lost oc \<and> \<not> tk_released tk then e\<lparr>e_nLostKill := e_nLostKill e + 1\<rparr> else e);
            e1 = done_learn now ds p oc tk e0;
            e2 = (if tk_timedOut tk \<or> Lost oc \<or> Committed oc
                  then e1\<lparr>e_views := forgetSmartViews ds u (f_unlinked (tk_facts tk)) (e_views e1)\<rparr> else e1);
            e3 = (if tk_rootTouch tk \<and> \<not> tk_timedOut tk \<and> (Lost oc \<or> Committed oc) then bump_grants e2 else e2)
        in (releaseLocked (tk\<lparr>tk_timedOut := False\<rparr>), e3))"

definition onTimeout :: "int \<Rightarrow> string \<Rightarrow> string option \<Rightarrow> principal \<Rightarrow> ticket \<Rightarrow> engine \<Rightarrow> ticket \<times> engine" where
  "onTimeout now summary kill p tk e =
     (if tk_released tk \<or> kill \<noteq> None then (tk, e)
      else
        let e1 = e\<lparr>e_nFenceTimeout := e_nFenceTimeout e + 1,
               e_table := queueLog [''event'', ''fence_timeout'', ''actor'', p_name p, ''unit'', summary, ''ts_ms'', FormatInt (ms now)] (e_table e),
               e_anc := forget (tk_facts tk) (e_anc e)\<rparr>;
            e2 = (if tk_rootTouch tk then bump_grants e1 else e1)
        in (releaseLocked (tk\<lparr>tk_timedOut := True\<rparr>), e2))"

end
