(* ===== verification/Lease_Cmd.thy ===== *)
theory Lease_Cmd
  imports Decide
begin

section \<open>The lease commands (leasecmd.go)\<close>

text \<open>
  \<^verbatim>\<open>JM.LEASE\<close> is answered by the engine itself.  A call runs in a context: the side reads, Go's
  \<^verbatim>\<open>strconv.Quote\<close>, the upper case of an unknown subcommand as it is echoed, the clock, the network outcome
  of the transition, and \<open>lx_other\<close>, what other goroutines do to the engine between the points where
  the command holds a lock: when it takes the fence (stage 0), and when it looks at the table again
  after giving the fence up (stage 1); the project is the second argument.  \<^const>\<open>None\<close> is the run-time
  panic of an empty command.
\<close>

record local_ctx =
  lx_quote :: "string \<Rightarrow> string"
  lx_echo :: "string \<Rightarrow> string"
  lx_side :: side
  lx_now :: int
  lx_ds :: delivery
  lx_other :: "nat \<Rightarrow> nat \<Rightarrow> engine \<Rightarrow> engine"

subsection \<open>Frames\<close>

definition frame_arr :: "nat \<Rightarrow> bytes" where "frame_arr n = ''*'' @ FormatUint n @ CRLF"

definition frame_simple :: "string \<Rightarrow> bytes" where "frame_simple s = ''+'' @ s @ CRLF"

definition frame_integer :: "int \<Rightarrow> bytes" where "frame_integer n = '':'' @ FormatInt n @ CRLF"

definition frame_bulk :: "string \<Rightarrow> bytes" where "frame_bulk s = ''$'' @ FormatUint (length s) @ CRLF @ s @ CRLF"

definition errFrame :: "string \<Rightarrow> bytes" where
  "errFrame msg = ''-ERR '' @ map (\<lambda>c. if c = CR \<or> c = LF then CHR '' '' else c) msg @ CRLF"

definition holderStr :: "string \<Rightarrow> string \<Rightarrow> string" where
  "holderStr name hst = (if name = [] then [] else name @ ''@'' @ hst)"

text \<open>\<^verbatim>\<open>int64(u)\<close> of a uint64, and the flag \<^verbatim>\<open>map[bool]int64{true: 1}[b]\<close>.\<close>

definition int64_of :: "nat \<Rightarrow> int" where "int64_of n = wrap64 (int n)"

definition flag :: "bool \<Rightarrow> int" where "flag b = (if b then 1 else 0)"

text \<open>\<^verbatim>\<open>strings.EqualFold\<close> with an ASCII word: the letters \<^verbatim>\<open>K\<close> and \<^verbatim>\<open>S\<close> also fold with \<^verbatim>\<open>U+212A\<close> and \<^verbatim>\<open>U+017F\<close>.\<close>

fun fold_ascii :: "string \<Rightarrow> string" where
  "fold_ascii [] = []"
| "fold_ascii (a # s) =
     (if a = CHR 0xC5 \<and> take 1 s = [CHR 0xBF] then CHR ''S'' # fold_ascii (drop 1 s)
      else if a = CHR 0xE2 \<and> take 2 s = [CHR 0x84, CHR 0xAA] then CHR ''K'' # fold_ascii (drop 2 s)
      else upper_byte a # fold_ascii s)"

subsection \<open>Projects\<close>

fun fields_slash :: "string \<Rightarrow> string \<Rightarrow> string list" where
  "fields_slash [] w = (if w = [] then [] else [w])"
| "fields_slash (c # s) w =
     (if c = CHR ''/'' then (if w = [] then fields_slash s [] else w # fields_slash s []) else fields_slash s (w @ [c]))"

fun path_walk :: "local_ctx \<Rightarrow> int \<Rightarrow> string \<Rightarrow> string list \<Rightarrow> nat \<Rightarrow> string + nat" where
  "path_walk cx db spec [] cur = Inr cur"
| "path_walk cx db spec (name # names) cur =
     (case side_do (lx_side cx) db [''HGET'', ''d'' @ FormatUint cur, name] of
        Inl e \<Rightarrow> Inl (''cannot read '' @ spec)
      | Inr v \<Rightarrow>
          if v_null v then Inl (spec @ '': no such directory '' @ lx_quote cx name)
          else case entryInode (v_str v) of
            None \<Rightarrow> Inl (spec @ '': '' @ lx_quote cx name @ '' is not a directory'')
          | Some n \<Rightarrow>
              if entryType (v_str v) \<noteq> Some typeDir then Inl (spec @ '': '' @ lx_quote cx name @ '' is not a directory'')
              else path_walk cx db spec names n)"

definition resolve_ino :: "local_ctx \<Rightarrow> string \<Rightarrow> ancestry \<Rightarrow> (string + nat) \<times> ancestry" where
  "resolve_ino cx spec a =
     (case digits (drop 4 spec) of
        None \<Rightarrow> (Inl (''bad inode '' @ lx_quote cx spec), a)
      | Some n \<Rightarrow>
          if n = 0 then (Inl (''bad inode '' @ lx_quote cx spec), a)
          else if isTrashIno n then (Inl ''inode is in the trash'', a)
          else case resolveInode (lx_side cx) n a of
            (Inl e, a1) \<Rightarrow> (Inl (''cannot resolve '' @ spec @ '': '' @ e), a1)
          | (Inr [], a1) \<Rightarrow> (Inl (spec @ '' is not inside a project ('' @ ns_str NsUnknown @ '')''), a1)
          | (Inr (l # ls), a1) \<Rightarrow>
              if loc_kind l \<noteq> NsProject then (Inl (spec @ '' is not inside a project ('' @ ns_str (loc_kind l) @ '')''), a1)
              else (Inr (loc_proj l), a1))"

definition resolve_path :: "local_ctx \<Rightarrow> string \<Rightarrow> ancestry \<Rightarrow> (string + nat) \<times> ancestry" where
  "resolve_path cx spec a =
     (let parts = fields_slash (drop 5 spec) [] in
      if length parts < an_depth a then (Inl (spec @ '' is above the project depth''), a)
      else case path_walk cx (an_db a) spec (take (an_depth a) parts) rootIno of
        Inl e \<Rightarrow> (Inl e, a)
      | Inr cur \<Rightarrow>
          (case resolveDir (lx_side cx) cur a of
             (Inl e, a1) \<Rightarrow> (Inl (spec @ '' is not a project''), a1)
           | (Inr l, a1) \<Rightarrow> if loc_kind l \<noteq> NsProject then (Inl (spec @ '' is not a project''), a1) else (Inr (loc_proj l), a1)))"

definition resolveProj :: "local_ctx \<Rightarrow> string \<Rightarrow> ancestry \<Rightarrow> (string + nat) \<times> ancestry" where
  "resolveProj cx spec a =
     (if HasPrefix spec ''ino:'' then resolve_ino cx spec a
      else if HasPrefix spec ''path:'' then resolve_path cx spec a
      else (Inl ''project must be ino:<n> or path:<p>'', a))"

text \<open>The project of a command, with the ancestry in the engine.\<close>

definition proj_of :: "local_ctx \<Rightarrow> string \<Rightarrow> engine \<Rightarrow> (string + nat) \<times> engine" where
  "proj_of cx spec e = (case resolveProj cx spec (e_anc e) of (r, a1) \<Rightarrow> (r, e\<lparr>e_anc := a1\<rparr>))"

subsection \<open>ACQUIRE\<close>

text \<open>The requested time to live: \<^verbatim>\<open>time.Duration(n) * time.Second\<close> is int64 arithmetic.\<close>

definition acquire_ttl :: "lease_cfg \<Rightarrow> bytes list \<Rightarrow> string + int" where
  "acquire_ttl c a =
     (if length a \<noteq> 3 then Inr (lc_checkoutMax c)
      else case ParseInt (a ! 2) of
        (n, Some e) \<Rightarrow> Inl ''ttl_s must be a positive integer''
      | (n, None) \<Rightarrow>
          if n \<le> 0 then Inl ''ttl_s must be a positive integer''
          else let d = wrap64 (n * Second) in Inr (if d < lc_checkoutMax c then d else lc_checkoutMax c))"

definition acquire_reply :: "string \<Rightarrow> lease_snap \<Rightarrow> int \<Rightarrow> bool \<Rightarrow> bytes" where
  "acquire_reply status s until fs =
     frame_arr 5 @ frame_simple status @ frame_integer (int64_of (s_epoch s)) @ frame_bulk (holderStr (s_holder s) (s_host s))
     @ frame_integer until @ frame_integer (flag fs)"

definition acquire_status :: "principal \<Rightarrow> lease_snap \<Rightarrow> bool \<Rightarrow> string" where
  "acquire_status p s wasMine =
     (if s_holder s \<noteq> p_name p then ''HELD'' else if wasMine then ''RENEWED'' else ''GRANTED'')"

definition acquire_locked :: "local_ctx \<Rightarrow> principal \<Rightarrow> string \<Rightarrow> int \<Rightarrow> nat \<Rightarrow> engine \<Rightarrow> bytes \<times> engine" where
  "acquire_locked cx p md ttl proj e =
     (let (l, t1) = leaseLocked proj (e_table e); wasMine = (held l \<and> l_holder l = p_name p) in
      case grantLocked (lx_ds cx) (lx_now cx) (label (e_anc e) proj) p proj md ttl (''JM.LEASE ACQUIRE '' @ md) t1 (e_keys e proj) of
        (r, t2, k') \<Rightarrow>
          let e1 = e\<lparr>e_table := t2, e_keys := (e_keys e)(proj := k')\<rparr> in
          (case r of
             Inl err \<Rightarrow> (errFrame (''lease store unavailable: '' @ err), e1)
           | Inr (s, fs) \<Rightarrow>
               let until = (case lease_at t2 proj of Some l2 \<Rightarrow> expiresMs t2 l2 | None \<Rightarrow> 0);
                   status = acquire_status p s wasMine in
               (acquire_reply status s until fs,
                if status = ''GRANTED'' then e1\<lparr>e_nGrant := e_nGrant e1 + 1\<rparr> else e1)))"

definition cmdAcquire :: "local_ctx \<Rightarrow> principal \<Rightarrow> bytes list \<Rightarrow> engine \<Rightarrow> bytes \<times> engine" where
  "cmdAcquire cx p a e =
     (if length a < 2 \<or> 3 < length a then (errFrame ''usage: JM.LEASE ACQUIRE <proj> <auto|checkout> [ttl_s]'', e)
      else if p_kind p = KindWebDAV then (Reply (refuse ReasonPrincipalReadonly ''acquire''), e)
      else
        let md = ToLower (a ! 1) in
        if md \<noteq> LeaseAuto \<and> md \<noteq> LeaseCheckout then (errFrame ''mode must be auto or checkout'', e)
        else case acquire_ttl (t_cfg (e_table e)) a of
          Inl msg \<Rightarrow> (errFrame msg, e)
        | Inr ttl \<Rightarrow>
            (case proj_of cx (a ! 0) e of
               (Inl msg, e1) \<Rightarrow> (errFrame msg, e1)
             | (Inr proj, e1) \<Rightarrow> acquire_locked cx p md ttl proj (lx_other cx 0 proj e1)))"

subsection \<open>HEARTBEAT\<close>

fun proj_list :: "local_ctx \<Rightarrow> bytes list \<Rightarrow> engine \<Rightarrow> (string + nat list) \<times> engine" where
  "proj_list cx [] e = (Inr [], e)"
| "proj_list cx (spec # specs) e =
     (case proj_of cx spec e of
        (Inl msg, e1) \<Rightarrow> (Inl msg, e1)
      | (Inr proj, e1) \<Rightarrow>
          (case proj_list cx specs e1 of
             (Inl msg, e2) \<Rightarrow> (Inl msg, e2)
           | (Inr projs, e2) \<Rightarrow> (Inr (List.insert proj projs), e2)))"

definition beat_entry :: "nat \<Rightarrow> nat \<Rightarrow> string \<Rightarrow> string \<Rightarrow> bytes" where
  "beat_entry proj ep state md =
     frame_arr 4 @ frame_integer (int64_of proj) @ frame_integer (int64_of ep) @ frame_simple state @ frame_bulk md"

text \<open>The lost projects are looked up one by one, each under the lock of the table only.\<close>

fun lost_entries :: "local_ctx \<Rightarrow> nat list \<Rightarrow> engine \<Rightarrow> bytes \<times> engine" where
  "lost_entries cx [] e = ([], e)"
| "lost_entries cx (pr # prs) e =
     (let e1 = lx_other cx 1 pr e; ep = (case lease_at (e_table e1) pr of Some l \<Rightarrow> l_epoch l | None \<Rightarrow> 0) in
      case lost_entries cx prs e1 of (b, e2) \<Rightarrow> (beat_entry pr ep ''lost'' [] @ b, e2))"

definition cmdHeartbeat :: "local_ctx \<Rightarrow> principal \<Rightarrow> bytes list \<Rightarrow> engine \<Rightarrow> bytes \<times> engine" where
  "cmdHeartbeat cx p a e =
     (case proj_list cx a e of
        (Inl msg, e1) \<Rightarrow> (errFrame msg, e1)
      | (Inr pending, e1) \<Rightarrow>
          let e2 = lx_other cx 0 0 e1 in
          (case heartbeat (lx_now cx) p pending (e_table e2) of
             ((hs, lost), t1) \<Rightarrow>
               (case lost_entries cx lost (e2\<lparr>e_table := t1\<rparr>) of
                  (b, e3) \<Rightarrow>
                    (frame_arr (length hs + length lost)
                       @ concat (map (\<lambda>s. beat_entry (s_proj s) (s_epoch s) ''held'' (s_mode s)) hs) @ b, e3))))"

subsection \<open>RELEASE\<close>

definition release_status :: "principal \<Rightarrow> nat \<Rightarrow> lease option \<Rightarrow> string" where
  "release_status p ep ol =
     (case ol of
        None \<Rightarrow> ''NOT_HOLDER''
      | Some l \<Rightarrow>
          if \<not> held l \<or> l_holder l \<noteq> p_name p then ''NOT_HOLDER''
          else if l_epoch l \<noteq> ep then ''STALE_EPOCH'' else ''RELEASED'')"

definition release_reply :: "string \<Rightarrow> nat \<Rightarrow> bytes" where
  "release_reply status ep = frame_arr 2 @ frame_simple status @ frame_integer (int64_of ep)"

definition release_locked :: "local_ctx \<Rightarrow> principal \<Rightarrow> nat \<Rightarrow> nat \<Rightarrow> engine \<Rightarrow> bytes \<times> engine" where
  "release_locked cx p ep proj e =
     (let ol = lease_at (e_table e) proj; status = release_status p ep ol in
      if (case ol of Some l \<Rightarrow> l_unresolved l | None \<Rightarrow> False) then (errFrame ''lease transition unresolved'', e)
      else if status \<noteq> ''RELEASED'' then
        (release_reply status (case ol of Some l \<Rightarrow> l_epoch l | None \<Rightarrow> 0), e)
      else
        (case endLocked (lx_ds cx) (lx_now cx) proj ''release'' (p_name p) ''JM.LEASE RELEASE'' (e_table e) (e_keys e proj) of
           ((err, old, ne), t1, k') \<Rightarrow>
             let e1 = e\<lparr>e_table := t1, e_keys := (e_keys e)(proj := k')\<rparr> in
             (case err of
                Some x \<Rightarrow> (errFrame (''lease store unavailable: '' @ x), e1)
              | None \<Rightarrow> (release_reply status ne, e1))))"

definition cmdRelease :: "local_ctx \<Rightarrow> principal \<Rightarrow> bytes list \<Rightarrow> engine \<Rightarrow> bytes \<times> engine" where
  "cmdRelease cx p a e =
     (if length a \<noteq> 2 then (errFrame ''usage: JM.LEASE RELEASE <proj> <epoch>'', e)
      else case digits (a ! 1) of
        None \<Rightarrow> (errFrame ''epoch must be an integer'', e)
      | Some ep \<Rightarrow>
          (case proj_of cx (a ! 0) e of
             (Inl msg, e1) \<Rightarrow> (errFrame msg, e1)
           | (Inr proj, e1) \<Rightarrow> release_locked cx p ep proj (lx_other cx 0 proj e1)))"

subsection \<open>STATUS\<close>

definition record_frame :: "lease_snap \<Rightarrow> int \<Rightarrow> bytes" where
  "record_frame s until =
     frame_arr 30
     @ frame_bulk ''proj'' @ frame_integer (int64_of (s_proj s))
     @ frame_bulk ''epoch'' @ frame_integer (int64_of (s_epoch s))
     @ frame_bulk ''state'' @ frame_bulk (if s_holder s \<noteq> [] then ''held'' else ''free'')
     @ frame_bulk ''holder'' @ frame_bulk (s_holder s)
     @ frame_bulk ''host'' @ frame_bulk (s_host s)
     @ frame_bulk ''kind'' @ frame_bulk (s_kind s)
     @ frame_bulk ''mode'' @ frame_bulk (s_mode s)
     @ frame_bulk ''granted_ms'' @ frame_integer (s_grantedMs s)
     @ frame_bulk ''last_write_ms'' @ frame_integer (s_lastWriteMs s)
     @ frame_bulk ''last_hb_ms'' @ frame_integer (s_lastHbMs s)
     @ frame_bulk ''checkout_until_ms'' @ frame_integer (s_checkoutUntilMs s)
     @ frame_bulk ''expires_ms'' @ frame_integer until
     @ frame_bulk ''pending'' @ frame_integer (flag (s_pending s))
     @ frame_bulk ''label'' @ frame_bulk (s_label s)
     @ frame_bulk ''held'' @ frame_integer (flag (s_holder s \<noteq> []))"

definition writeRecord :: "nat \<Rightarrow> engine \<Rightarrow> bytes option" where
  "writeRecord proj e =
     (let ol = lease_at (e_table e) proj in
      if (case ol of Some l \<Rightarrow> l_unresolved l | None \<Rightarrow> False) then None
      else
        let (s, until) = (case ol of Some l \<Rightarrow> (snap l, expiresMs (e_table e) l) | None \<Rightarrow> (empty_snap\<lparr>s_proj := proj\<rparr>, 0)) in
        Some (record_frame (if s_label s = [] then s\<lparr>s_label := label (e_anc e) proj\<rparr> else s) until))"

fun write_records :: "local_ctx \<Rightarrow> nat list \<Rightarrow> engine \<Rightarrow> bytes option \<times> engine" where
  "write_records cx [] e = (Some [], e)"
| "write_records cx (pr # prs) e =
     (let e1 = lx_other cx 0 pr e in
      case writeRecord pr e1 of
        None \<Rightarrow> (None, e1)
      | Some b \<Rightarrow> (case write_records cx prs e1 of (None, e2) \<Rightarrow> (None, e2) | (Some bs, e2) \<Rightarrow> (Some (b @ bs), e2)))"

text \<open>The insertion sort of \<^verbatim>\<open>sortU64\<close>: element \<open>x\<close> sinks from the right end of the sorted prefix.\<close>

fun sink :: "nat \<Rightarrow> nat list \<Rightarrow> nat list" where
  "sink x [] = [x]"
| "sink x (y # ys) = (if x < y then y # sink x ys else x # y # ys)"

fun sortU64_from :: "nat list \<Rightarrow> nat list \<Rightarrow> nat list" where
  "sortU64_from pre [] = rev pre"
| "sortU64_from pre (x # xs) = sortU64_from (sink x pre) xs"

definition sortU64 :: "nat list \<Rightarrow> nat list" where "sortU64 xs = sortU64_from [] xs"

definition cmdStatus :: "local_ctx \<Rightarrow> bytes list \<Rightarrow> engine \<Rightarrow> bytes \<times> engine" where
  "cmdStatus cx a e =
     (if 1 < length a then (errFrame ''usage: JM.LEASE STATUS [<proj>|*]'', e)
      else if a \<noteq> [] \<and> hd a \<noteq> ''*'' then
        (case proj_of cx (hd a) e of
           (Inl msg, e1) \<Rightarrow> (errFrame msg, e1)
         | (Inr proj, e1) \<Rightarrow>
             let e2 = lx_other cx 0 proj e1 in
             (case writeRecord proj e2 of
                None \<Rightarrow> (errFrame ''lease transition unresolved'', e2)
              | Some b \<Rightarrow> (b, e2)))
      else
        let projs = sortU64 (map fst (t_leases (e_table e))) in
        (case write_records cx projs e of
           (None, e1) \<Rightarrow> (errFrame ''lease transition unresolved'', e1)
         | (Some bs, e1) \<Rightarrow> (frame_arr (length projs) @ bs, e1)))"

subsection \<open>BREAK\<close>

definition cmdBreak :: "local_ctx \<Rightarrow> principal \<Rightarrow> bytes list \<Rightarrow> engine \<Rightarrow> bytes \<times> engine" where
  "cmdBreak cx p a e =
     (if p_kind p \<noteq> KindAdmin then (Reply (refuse ReasonAdminOnly ''JM.LEASE BREAK''), e)
      else if length a \<noteq> 1 then (errFrame ''usage: JM.LEASE BREAK <proj>'', e)
      else case proj_of cx (a ! 0) e of
        (Inl msg, e1) \<Rightarrow> (errFrame msg, e1)
      | (Inr proj, e1) \<Rightarrow>
          let e2 = lx_other cx 0 proj e1 in
          (case endLocked (lx_ds cx) (lx_now cx) proj ''break'' (p_name p) (''JM.LEASE BREAK by '' @ p_name p) (e_table e2) (e_keys e2 proj) of
             ((err, old, ep), t1, k') \<Rightarrow>
               let e3 = e2\<lparr>e_table := t1, e_keys := (e_keys e2)(proj := k')\<rparr> in
               (case err of
                  Some x \<Rightarrow> (errFrame (''lease store unavailable: '' @ x), e3)
                | None \<Rightarrow>
                    if s_holder old = [] then
                      let e4 = lx_other cx 1 proj e3;
                          ep1 = (case lease_at (e_table e4) proj of Some l \<Rightarrow> l_epoch l | None \<Rightarrow> ep) in
                      (frame_arr 3 @ frame_simple ''FREE'' @ frame_integer (int64_of ep1) @ frame_bulk (holderStr (s_holder old) (s_host old)), e4)
                    else
                      (frame_arr 3 @ frame_simple ''BROKEN'' @ frame_integer (int64_of ep) @ frame_bulk (holderStr (s_holder old) (s_host old)), e3))))"

subsection \<open>The command\<close>

definition HandleLocal :: "local_ctx \<Rightarrow> principal \<Rightarrow> bytes list \<Rightarrow> engine \<Rightarrow> bytes option \<times> engine" where
  "HandleLocal cx p args e =
     (if args = [] then (None, e)
      else if length args < 2 \<or> fold_ascii (hd args) \<noteq> ''JM.LEASE'' then
        (Some (errFrame (''unknown command '' @ [CHR 0x27] @ sanitizeToken (hd args) @ [CHR 0x27])), e)
      else
        let sub = ToUpper (args ! 1); rest = drop 2 args; some = (\<lambda>(b, e'). (Some b, e')) in
        if sub = ''ACQUIRE'' then some (cmdAcquire cx p rest e)
        else if sub = ''HEARTBEAT'' then some (cmdHeartbeat cx p rest e)
        else if sub = ''RELEASE'' then some (cmdRelease cx p rest e)
        else if sub = ''STATUS'' then some (cmdStatus cx rest e)
        else if sub = ''BREAK'' then some (cmdBreak cx p rest e)
        else (Some (errFrame (''unknown JM.LEASE subcommand '' @ [CHR 0x27] @ sanitizeToken (lx_echo cx (args ! 1)) @ [CHR 0x27])), e))"

end
