(* ===== verification/Ancestry_Props.thy ===== *)
theory Ancestry_Props
  imports Ancestry
begin

section \<open>The caches never change an answer\<close>

text \<open>
  \<open>locate\<close> is the location of a directory by definition: follow the stored parents to the root and
  read the project off the path.  It uses no cache.  \<open>cache_ok\<close> relates the caches to the stored tree:
  every cached parent and every memoised location is the true one, except for directories that were
  removed, whose numbers are never used again (\<open>gone\<close>).
\<close>

definition dir_parent :: "side \<Rightarrow> int \<Rightarrow> nat \<Rightarrow> string + nat" where
  "dir_parent side db d =
     (case getAttr side db d of
        Inl e \<Rightarrow> Inl e
      | Inr None \<Rightarrow> Inl errUnresolved
      | Inr (Some ai) \<Rightarrow> if a_typ ai \<noteq> typeDir \<or> a_parent ai = 0 then Inl errUnresolved else Inr (a_parent ai))"

function walk :: "(nat \<Rightarrow> string + nat) \<Rightarrow> nat list \<Rightarrow> string + nat list option" where
  "walk par chain =
     (if hd chain = rootIno then Inr (Some chain)
      else if 4096 < length chain then Inl errUnresolved
      else case par (hd chain) of
        Inl e \<Rightarrow> Inl e
      | Inr p \<Rightarrow> if isTrashIno p then Inr None else walk par (p # chain))"
  by pat_completeness auto
termination
  by (relation "measure (\<lambda>(par, chain). 4097 - length chain)") auto

declare walk.simps [simp del]

definition proj_loc :: "nat \<Rightarrow> nat \<Rightarrow> int \<Rightarrow> location" where
  "proj_loc deriv root depth =
     \<lparr>loc_kind = (if deriv \<noteq> 0 \<and> root = deriv then NsDerivatives else NsProject), loc_proj = root,
      loc_depth = depth, loc_dir = 0\<rparr>"

definition locate :: "(nat \<Rightarrow> string + nat) \<Rightarrow> nat \<Rightarrow> nat \<Rightarrow> nat \<Rightarrow> string + location" where
  "locate par depth deriv d =
     (if isTrashIno d then Inr trash_loc
      else if d = rootIno then Inr (root_loc 0 rootIno)
      else case walk par [d] of
        Inl e \<Rightarrow> Inl e
      | Inr None \<Rightarrow> Inr trash_loc
      | Inr (Some chain) \<Rightarrow>
          if length chain - 1 < depth then Inr (root_loc (int (length chain - 1)) d)
          else Inr (proj_loc deriv (chain ! depth) (int (length chain - 1))))"

definition cache_ok :: "(nat \<Rightarrow> string + nat) \<Rightarrow> nat set \<Rightarrow> ancestry \<Rightarrow> bool" where
  "cache_ok par gone a \<longleftrightarrow> 1 \<le> an_depth a \<and>
     (\<forall>d p. d \<notin> gone \<longrightarrow> d \<noteq> rootIno \<longrightarrow> map_of (an_dirParent a) d = Some p \<longrightarrow> par d = Inr p) \<and>
     (\<forall>d loc. d \<notin> gone \<longrightarrow> memo_get d (an_memo a) = Some loc \<longrightarrow>
        locate par (an_depth a) (an_derivRoot a) d = Inr loc)"

text \<open>A removed directory was empty: no directory in use has it as parent.\<close>

definition tree_ok :: "(nat \<Rightarrow> string + nat) \<Rightarrow> nat set \<Rightarrow> bool" where
  "tree_ok par gone \<longleftrightarrow> (\<forall>d p. d \<notin> gone \<longrightarrow> par d = Inr p \<longrightarrow> p \<notin> gone)"

subsection \<open>The walk\<close>

lemma walk_visits:
  assumes "walk par (x # ys) = Inr (Some c)" and "\<not> isTrashIno x"
  shows "\<exists>pre. c = pre @ x # ys \<and> (\<forall>zs. length zs \<le> length ys \<longrightarrow> walk par (x # zs) = Inr (Some (pre @ x # zs))) \<and>
    (\<forall>q y r. pre = q @ y # r \<longrightarrow> walk par [y] = Inr (Some (q @ [y])) \<and> \<not> isTrashIno y)"
  using assms
proof (induction "4097 - length ys" arbitrary: x ys rule: less_induct)
  case less
  show ?case
  proof (cases "x = rootIno")
    case True
    with less.prems show ?thesis by (intro exI [of _ "[]"]) (simp add: walk.simps)
  next
    case False
    from less.prems(1) False obtain p where p: "par x = Inr p" "\<not> isTrashIno p" "length ys < 4096"
      and w: "walk par (p # x # ys) = Inr (Some c)"
      by (subst (asm) walk.simps) (auto split: if_split_asm sum.split_asm)
    have "4097 - length (x # ys) < 4097 - length ys" using p(3) by simp
    from less.hyps [OF this w p(2)] obtain pre where pre: "c = pre @ p # x # ys"
      "\<forall>zs. length zs \<le> length (x # ys) \<longrightarrow> walk par (p # zs) = Inr (Some (pre @ p # zs))"
      "\<forall>q y r. pre = q @ y # r \<longrightarrow> walk par [y] = Inr (Some (q @ [y])) \<and> \<not> isTrashIno y"
      by blast
    have "walk par (x # zs) = Inr (Some ((pre @ [p]) @ x # zs))" if "length zs \<le> length ys" for zs
      using that p False pre(2) by (subst walk.simps) simp
    moreover have "walk par [y] = Inr (Some (q @ [y])) \<and> \<not> isTrashIno y" if "pre @ [p] = q @ y # r" for q y r
    proof (cases r rule: rev_cases)
      case Nil
      with that have "q = pre" "y = p" by simp_all
      with pre(2) p(2) show ?thesis by simp
    next
      case (snoc r' z)
      with that have "pre = q @ y # r'" by simp
      with pre(3) show ?thesis by blast
    qed
    ultimately show ?thesis using pre(1) by (intro exI [of _ "pre @ [p]"]) simp
  qed
qed

text \<open>Every directory of the path has the location the walk memoises for it.\<close>

lemma locate_on_path:
  assumes w: "walk par [d] = Inr (Some chain)" and d: "\<not> isTrashIno d" and j: "depth \<le> j" "j < length chain" "1 \<le> depth"
  shows "locate par depth deriv (chain ! j) = Inr (proj_loc deriv (chain ! depth) (int j))"
proof -
  obtain pre where pre: "chain = pre @ [d]" "walk par [d] = Inr (Some (pre @ [d]))"
    "\<forall>q y r. pre = q @ y # r \<longrightarrow> walk par [y] = Inr (Some (q @ [y])) \<and> \<not> isTrashIno y"
    using walk_visits [OF w d] by auto
  have y: "walk par [chain ! j] = Inr (Some (take (Suc j) chain)) \<and> \<not> isTrashIno (chain ! j)"
  proof (cases "j = length pre")
    case True
    then show ?thesis using pre d by simp
  next
    case False
    then have lt: "j < length pre" using j(2) pre(1) by simp
    then have "pre = take j pre @ pre ! j # drop (Suc j) pre" by (simp add: id_take_nth_drop)
    with pre(3) have "walk par [pre ! j] = Inr (Some (take j pre @ [pre ! j])) \<and> \<not> isTrashIno (pre ! j)" by blast
    with lt show ?thesis by (simp add: pre(1) nth_append take_Suc_conv_app_nth)
  qed
  moreover have "chain ! j \<noteq> rootIno"
  proof
    assume "chain ! j = rootIno"
    then have "walk par [chain ! j] = Inr (Some [chain ! j])" by (simp add: walk.simps)
    with y have "take (Suc j) chain = [chain ! j]" by simp
    then have "length (take (Suc j) chain) = 1" by simp
    with j show False by simp
  qed
  ultimately show ?thesis using j by (simp add: locate_def)
qed

subsection \<open>Resolution with caches\<close>

lemma memo_put_get:
  "memo_get x (memo_put d loc gen c) = Some l \<Longrightarrow> memo_get x c = Some l \<or> x = d \<and> l = loc"
  by (auto simp: memo_get_def memo_put_def update_conv' split: if_split_asm option.split_asm)

lemma memoise_ok:
  assumes "cache_ok par gone a" and "d \<notin> gone \<longrightarrow> locate par (an_depth a) (an_derivRoot a) d = Inr loc"
  shows "cache_ok par gone (memoise d loc gen a)"
  using assms unfolding cache_ok_def memoise_def by (auto dest: memo_put_get)

lemma memoise_same [simp]:
  "an_depth (memoise d loc gen a) = an_depth a" "an_derivRoot (memoise d loc gen a) = an_derivRoot a"
  "an_db (memoise d loc gen a) = an_db a" "an_files (memoise d loc gen a) = an_files a" "an_tomb (memoise d loc gen a) = an_tomb a"
  by (simp_all add: memoise_def)

definition same_frame :: "ancestry \<Rightarrow> ancestry \<Rightarrow> bool" where
  "same_frame a b \<longleftrightarrow> an_db b = an_db a \<and> an_depth b = an_depth a \<and> an_derivRoot b = an_derivRoot a \<and> an_files b = an_files a"

lemma same_frame_refl [simp]: "same_frame a a"
  by (simp add: same_frame_def)

lemma same_frame_trans: "same_frame a b \<Longrightarrow> same_frame b c \<Longrightarrow> same_frame a c"
  by (simp add: same_frame_def)

lemma cacheDir_ok:
  assumes "cache_ok par gone a" and "d \<notin> gone \<longrightarrow> par d = Inr p"
  shows "cache_ok par gone (cacheDir d p start a) \<and> same_frame a (cacheDir d p start a)"
  using assms by (auto simp: cache_ok_def cacheDir_def same_frame_def update_conv' split: if_split_asm)

text \<open>The parent the caches give: the stored one, or for a removed directory what is still cached.\<close>

definition eff :: "(nat \<Rightarrow> string + nat) \<Rightarrow> nat set \<Rightarrow> ancestry \<Rightarrow> nat \<Rightarrow> string + nat" where
  "eff par gone a d =
     (if d \<in> gone then (case map_of (an_dirParent a) d of Some p \<Rightarrow> Inr p | None \<Rightarrow> par d) else par d)"

lemma parentOfDir_ok:
  assumes "cache_ok (dir_parent side (an_db a)) gone a" and "d \<noteq> rootIno" and "parentOfDir side d a = (r, a')"
  shows "r = eff (dir_parent side (an_db a)) gone a d \<and> cache_ok (dir_parent side (an_db a)) gone a' \<and> same_frame a a' \<and>
    eff (dir_parent side (an_db a)) gone a' = eff (dir_parent side (an_db a)) gone a"
proof (cases "map_of (an_dirParent a) d")
  case (Some p)
  with assms show ?thesis by (auto simp: parentOfDir_def cache_ok_def eff_def)
next
  case None
  let ?par = "dir_parent side (an_db a)"
  from assms(3) None consider "r = ?par d" "a' = a"
    | p where "r = Inr p" "?par d = Inr p" "a' = cacheDir d p (tb_seq (an_tomb a)) a"
    by (auto simp: parentOfDir_def dir_parent_def split: sum.split_asm option.split_asm if_split_asm)
  then show ?thesis
  proof cases
    case 1
    with assms(1) None show ?thesis by (simp add: eff_def)
  next
    case 2
    have "eff ?par gone a' = eff ?par gone a"
      using 2 None by (auto simp: eff_def cacheDir_def update_conv' fun_eq_iff)
    with 2 None cacheDir_ok [OF assms(1), of d p] show ?thesis by (simp add: eff_def)
  qed
qed

lemma climb_ok:
  assumes "cache_ok (dir_parent side db) gone a" and "an_db a = db" and "climb side chain a = (r, a')"
  shows "r = walk (eff (dir_parent side db) gone a) chain \<and> cache_ok (dir_parent side db) gone a' \<and> same_frame a a'"
  using assms
proof (induction side chain a arbitrary: r a' rule: climb.induct)
  case (1 side chain a)
  let ?par = "eff (dir_parent side db) gone a"
  note step = "1.prems"(3) [unfolded climb.simps [of side chain a]]
  show ?case
  proof (cases "hd chain = rootIno \<or> 4096 < length chain")
    case True
    with step "1.prems"(1) show ?thesis
      by (subst walk.simps) (auto split: if_split_asm)
  next
    case False
    obtain q a1 where q: "parentOfDir side (hd chain) a = (q, a1)" by force
    have ok: "q = ?par (hd chain)" "cache_ok (dir_parent side db) gone a1" "same_frame a a1" "eff (dir_parent side db) gone a1 = ?par"
      using parentOfDir_ok [of side a gone "hd chain" q a1] "1.prems"(1,2) False q by auto
    show ?thesis
    proof (cases "\<exists>p. q = Inr p \<and> \<not> isTrashIno p")
      case True
      then obtain p where p: "q = Inr p" "\<not> isTrashIno p" by blast
      with step False q have "climb side (p # chain) a1 = (r, a')" by simp
      then have "r = walk (eff (dir_parent side db) gone a1) (p # chain) \<and> cache_ok (dir_parent side db) gone a' \<and> same_frame a1 a'"
        using ok(2,3) "1.prems"(2) False q p
        by (intro "1.IH" [OF _ _ q [symmetric] p(1) p(2)]) (auto simp: same_frame_def)
      moreover have "walk ?par (p # chain) = walk ?par chain"
        using False p ok(1) by (subst (2) walk.simps) (auto split: sum.split)
      ultimately show ?thesis using ok(3,4) same_frame_trans by auto
    next
      case False2: False
      with step False q ok show ?thesis
        by (subst walk.simps) (auto split: sum.split_asm if_split_asm)
    qed
  qed
qed

text \<open>From a directory in use the walk meets only directories in use.\<close>

lemma walk_eff:
  assumes "tree_ok par gone" and "hd chain \<notin> gone"
  shows "walk (eff par gone a) chain = walk par chain"
  using assms
proof (induction par chain rule: walk.induct)
  case (1 par chain)
  have e: "eff par gone a (hd chain) = par (hd chain)" using "1.prems"(2) by (simp add: eff_def)
  show ?case
  proof (cases "hd chain = rootIno \<or> 4096 < length chain \<or> (\<nexists>p. par (hd chain) = Inr p \<and> \<not> isTrashIno p)")
    case True
    then show ?thesis using e by (auto simp: walk.simps [of _ chain] split: sum.split)
  next
    case False
    then obtain p where p: "par (hd chain) = Inr p" "\<not> isTrashIno p" by blast
    have "p \<notin> gone" using "1.prems" p(1) by (auto simp: tree_ok_def)
    with "1.IH" [OF _ _ p] "1.prems"(1) False have "walk (eff par gone a) (p # chain) = walk par (p # chain)" by simp
    then show ?thesis using False p e by (simp add: walk.simps [of _ chain])
  qed
qed

lemma locate_eff:
  "tree_ok par gone \<Longrightarrow> d \<notin> gone \<Longrightarrow> locate (eff par gone a) depth deriv d = locate par depth deriv d"
  by (simp add: locate_def walk_eff)

lemma projectLoc_eq: "projectLoc a root depth = proj_loc (an_derivRoot a) root depth"
  by (simp add: projectLoc_def proj_loc_def)

lemma memoise_all_ok:
  assumes "cache_ok par gone a"
    and "\<forall>j \<in> set js. f j \<notin> gone \<longrightarrow> locate par (an_depth a) (an_derivRoot a) (f j) = Inr (g j)"
  shows "cache_ok par gone (fold (\<lambda>j. memoise (f j) (g j) gen) js a) \<and>
    same_frame a (fold (\<lambda>j. memoise (f j) (g j) gen) js a)"
  using assms
proof (induction js arbitrary: a)
  case (Cons j js)
  have "cache_ok par gone (memoise (f j) (g j) gen a)" using Cons.prems by (intro memoise_ok) auto
  from Cons.IH [OF this] Cons.prems(2) show ?case by (simp add: same_frame_def)
qed simp

lemma resolveDir_ok:
  assumes ok: "cache_ok (dir_parent side (an_db a)) gone a" "tree_ok (dir_parent side (an_db a)) gone"
    and r: "resolveDir side d a = (r, a')"
  shows "(d \<notin> gone \<longrightarrow> r = locate (dir_parent side (an_db a)) (an_depth a) (an_derivRoot a) d) \<and>
    cache_ok (dir_parent side (an_db a)) gone a' \<and> same_frame a a'"
proof (cases "isTrashIno d \<or> d = rootIno \<or> memo_get d (an_memo a) \<noteq> None")
  case True
  with r ok show ?thesis by (auto simp: resolveDir_def locate_def cache_ok_def split: if_split_asm)
next
  case False
  let ?par = "dir_parent side (an_db a)" and ?gen = "pc_gen (an_memo a)"
  let ?eff = "eff ?par gone a"
  obtain q a1 where q: "climb side [d] a = (q, a1)" by force
  have c: "q = walk ?eff [d]" "cache_ok ?par gone a1" "same_frame a a1"
    using climb_ok [OF ok(1) refl q] by simp_all
  have f: "an_depth a1 = an_depth a" "an_derivRoot a1 = an_derivRoot a" "an_db a1 = an_db a"
    using c(3) by (simp_all add: same_frame_def)
  have loc: "locate ?eff (an_depth a) (an_derivRoot a) d = (case q of
        Inl e \<Rightarrow> Inl e | Inr None \<Rightarrow> Inr trash_loc
      | Inr (Some chain) \<Rightarrow> if length chain - 1 < an_depth a then Inr (root_loc (int (length chain - 1)) d)
          else Inr (proj_loc (an_derivRoot a) (chain ! an_depth a) (int (length chain - 1))))"
    using False c(1) by (simp add: locate_def)
  have eq: "d \<notin> gone \<Longrightarrow> locate ?eff (an_depth a) (an_derivRoot a) d = locate ?par (an_depth a) (an_derivRoot a) d"
    by (rule locate_eff [OF ok(2)])
  note c = c(2,3) and w = c(1) [symmetric]
  note res = r [unfolded resolveDir_def Let_def]
  consider (err) e where "q = Inl e" | (trash) "q = Inr None" | (path) chain where "q = Inr (Some chain)"
    by (metis option.exhaust sum.exhaust)
  then show ?thesis
  proof cases
    case err
    with res False q c loc eq show ?thesis by simp
  next
    case trash
    with res False q have "r = Inr trash_loc" "a' = memoise d trash_loc ?gen a1" by simp_all
    with trash c loc eq f memoise_ok [OF c(1), of d trash_loc ?gen] show ?thesis by (simp add: same_frame_def)
  next
    case path
    show ?thesis
    proof (cases "length chain - 1 < an_depth a")
      case True
      with path res False q f have "r = Inr (root_loc (int (length chain - 1)) d)"
        "a' = memoise d (root_loc (int (length chain - 1)) d) ?gen a1" by simp_all
      with True path c loc eq f memoise_ok [OF c(1), of d "root_loc (int (length chain - 1)) d" ?gen] show ?thesis
        by (simp add: same_frame_def)
    next
      case deep: False
      let ?root = "chain ! an_depth a" and ?js = "rev [an_depth a ..< Suc (length chain - 1)]"
      have ne: "length chain - 1 < length chain" "1 \<le> an_depth a"
        using deep ok(1) by (auto simp: cache_ok_def)
      have "\<forall>j \<in> set ?js. locate ?eff (an_depth a1) (an_derivRoot a1) (chain ! j) = Inr (projectLoc a1 ?root (int j))"
        using w path False ne by (auto simp: f projectLoc_eq intro!: locate_on_path)
      then have "\<forall>j \<in> set ?js. chain ! j \<notin> gone \<longrightarrow>
          locate ?par (an_depth a1) (an_derivRoot a1) (chain ! j) = Inr (projectLoc a1 ?root (int j))"
        using locate_eff [OF ok(2)] by auto
      note m = memoise_all_ok [OF c(1) this, of ?gen]
      from path res False q f deep have "r = Inr (projectLoc a1 ?root (int (length chain - 1)))"
        "a' = fold (\<lambda>j. memoise (chain ! j) (projectLoc a1 ?root (int j)) ?gen) ?js a1"
        by simp_all
      with m deep path c loc eq f show ?thesis by (simp add: projectLoc_eq same_frame_def)
    qed
  qed
qed

subsection \<open>Placements with caches\<close>

text \<open>A cached file parent is the one its attributes name; \<open>stored_place\<close> reads them without any cache.\<close>

definition files_ok :: "side \<Rightarrow> int \<Rightarrow> nat set \<Rightarrow> file_lru \<Rightarrow> bool" where
  "files_ok side db gone l \<longleftrightarrow>
     (\<forall>n p. n \<notin> gone \<longrightarrow> map_of (fl_cur l) n = Some p \<or> map_of (fl_old l) n = Some p \<longrightarrow>
        (\<exists>ai. getAttr side db n = Inr (Some ai) \<and> a_typ ai \<noteq> typeDir \<and> a_parent ai = p \<and> p \<noteq> 0))"

definition stored_place :: "side \<Rightarrow> int \<Rightarrow> nat \<Rightarrow> string + placement" where
  "stored_place side db n =
     (if n = rootIno then Inr \<lparr>pl_exists = True, pl_isDir = True, pl_parent = rootIno, pl_parents = []\<rparr>
      else case getAttr side db n of
        Inl e \<Rightarrow> Inl e
      | Inr None \<Rightarrow> Inr \<lparr>pl_exists = False, pl_isDir = False, pl_parent = 0, pl_parents = []\<rparr>
      | Inr (Some ai) \<Rightarrow>
          if a_parent ai = 0 then
            (case linkParents side db n of
               Inl e \<Rightarrow> Inl e
             | Inr ps \<Rightarrow> Inr \<lparr>pl_exists = True, pl_isDir = (a_typ ai = typeDir), pl_parent = 0, pl_parents = ps\<rparr>)
          else Inr \<lparr>pl_exists = True, pl_isDir = (a_typ ai = typeDir), pl_parent = a_parent ai, pl_parents = [a_parent ai]\<rparr>)"

lemma putLocked_files:
  "map_of (fl_cur (putLocked n p l)) x = Some q \<or> map_of (fl_old (putLocked n p l)) x = Some q \<Longrightarrow>
   x = n \<and> q = p \<or> map_of (fl_cur l) x = Some q \<or> map_of (fl_old l) x = Some q"
  by (auto simp: putLocked_def Let_def update_conv' split: if_split_asm)

lemma putLocked_ok:
  assumes "files_ok side db gone l"
    and "n \<notin> gone \<Longrightarrow> \<exists>ai. getAttr side db n = Inr (Some ai) \<and> a_typ ai \<noteq> typeDir \<and> a_parent ai = p \<and> p \<noteq> 0"
  shows "files_ok side db gone (putLocked n p l)"
  unfolding files_ok_def
proof (intro allI impI)
  fix x q assume x: "x \<notin> gone" and "map_of (fl_cur (putLocked n p l)) x = Some q \<or> map_of (fl_old (putLocked n p l)) x = Some q"
  from putLocked_files [OF this(2)] assms x
  show "\<exists>ai. getAttr side db x = Inr (Some ai) \<and> a_typ ai \<noteq> typeDir \<and> a_parent ai = q \<and> q \<noteq> 0"
    unfolding files_ok_def by blast
qed

lemma lru_get_ok:
  assumes "files_ok side db gone l" and "lru_get n l = (r, l')"
  shows "files_ok side db gone l' \<and> (\<forall>p. n \<notin> gone \<longrightarrow> r = Some p \<longrightarrow>
    (\<exists>ai. getAttr side db n = Inr (Some ai) \<and> a_typ ai \<noteq> typeDir \<and> a_parent ai = p \<and> p \<noteq> 0))"
proof -
  have f: "n \<notin> gone \<Longrightarrow> map_of (fl_cur l) n = Some p \<or> map_of (fl_old l) n = Some p \<Longrightarrow>
    \<exists>ai. getAttr side db n = Inr (Some ai) \<and> a_typ ai \<noteq> typeDir \<and> a_parent ai = p \<and> p \<noteq> 0" for p
    using assms(1) unfolding files_ok_def by blast
  show ?thesis
  proof (cases "map_of (fl_cur l) n")
    case (Some p)
    with assms(2) have "r = Some p" "l' = l" by (simp_all add: lru_get_def)
    with f Some assms(1) show ?thesis by simp
  next
    case cur: None
    show ?thesis
    proof (cases "map_of (fl_old l) n")
      case None
      with assms cur show ?thesis by (simp add: lru_get_def)
    next
      case (Some p)
      with assms(2) cur have "r = Some p" "l' = putLocked n p l" by (simp_all add: lru_get_def)
      with f Some putLocked_ok [OF assms(1), of n p] show ?thesis by simp
    qed
  qed
qed

lemma placementOf_ok:
  assumes ok: "cache_ok (dir_parent side (an_db a)) gone a" "files_ok side (an_db a) gone (an_files a)"
    and r: "placementOf side n a = (r, a')"
  shows "(n \<notin> gone \<longrightarrow> r = stored_place side (an_db a) n) \<and> cache_ok (dir_parent side (an_db a)) gone a' \<and>
    files_ok side (an_db a) gone (an_files a') \<and>
    an_db a' = an_db a \<and> an_depth a' = an_depth a \<and> an_derivRoot a' = an_derivRoot a"
proof (cases "n = rootIno \<or> map_of (an_dirParent a) n \<noteq> None")
  case True
  have "stored_place side (an_db a) n = Inr \<lparr>pl_exists = True, pl_isDir = True, pl_parent = p, pl_parents = [p]\<rparr>"
    if "n \<notin> gone" "n \<noteq> rootIno" "map_of (an_dirParent a) n = Some p" for p
  proof -
    from that ok(1) have "dir_parent side (an_db a) n = Inr p" unfolding cache_ok_def by blast
    then show ?thesis using that(2)
      by (auto simp: dir_parent_def stored_place_def split: sum.split_asm option.split_asm if_split_asm)
  qed
  with True r ok show ?thesis by (auto simp: placementOf_def stored_place_def split: if_split_asm option.split_asm)
next
  case False
  then have nn: "n \<noteq> rootIno" "map_of (an_dirParent a) n = None" by simp_all
  obtain q fl where q: "lru_get n (an_files a) = (q, fl)" by force
  note l = lru_get_ok [OF ok(2) q]
  have cf: "cache_ok (dir_parent side (an_db a)) gone (a\<lparr>an_files := x\<rparr>)" for x
    using ok(1) by (simp add: cache_ok_def)
  show ?thesis
  proof (cases q)
    case (Some p)
    with nn q r have "r = Inr \<lparr>pl_exists = True, pl_isDir = False, pl_parent = p, pl_parents = [p]\<rparr>" "a' = a\<lparr>an_files := fl\<rparr>"
      by (simp_all add: placementOf_def)
    with l Some nn(1) cf show ?thesis by (auto simp: stored_place_def)
  next
    case None
    note r = r [unfolded placementOf_def Let_def, simplified nn q None, simplified]
    consider (same) "r = stored_place side (an_db a) n" "a' = a"
      | (dir) p where "r = stored_place side (an_db a) n" "dir_parent side (an_db a) n = Inr p"
          "a' = cacheDir n p (tb_seq (an_tomb a)) a"
      | (reg) ai where "r = stored_place side (an_db a) n" "getAttr side (an_db a) n = Inr (Some ai)" "a_typ ai \<noteq> typeDir"
          "a_parent ai \<noteq> 0" "a' = cacheFile n (a_parent ai) (tb_seq (an_tomb a)) a"
      using r nn by (auto simp: stored_place_def dir_parent_def split: sum.split_asm option.split_asm if_split_asm)
    then show ?thesis
    proof cases
      case same
      with ok show ?thesis by simp
    next
      case dir
      with cacheDir_ok [OF ok(1), of n p "tb_seq (an_tomb a)"] ok(2) show ?thesis by (simp add: same_frame_def)
    next
      case reg
      with putLocked_ok [OF ok(2), of n "a_parent ai"] ok cf show ?thesis by (simp add: cacheFile_def)
    qed
  qed
qed

subsection \<open>Following the tree\<close>

text \<open>The directory entries a unit sets, and the tree after it committed: directories without such an
  entry keep their parent, unless the unit removed them.\<close>

definition dir_edge :: "unit_edge list \<Rightarrow> nat \<Rightarrow> nat option" where
  "dir_edge es = map_of (rev (map (\<lambda>e. (ue_child e, ue_parent e)) (filter ue_isDir es)))"

definition tree_after ::
    "unit_facts \<Rightarrow> (nat \<Rightarrow> string + nat) \<Rightarrow> nat set \<Rightarrow> (nat \<Rightarrow> string + nat) \<Rightarrow> nat set \<Rightarrow> bool" where
  "tree_after f par gone par' gone' \<longleftrightarrow> gone \<subseteq> gone' \<and> tree_ok par' gone' \<and>
     (\<forall>d. d \<notin> gone' \<longrightarrow> par' d = (case dir_edge (f_edges f) d of Some p \<Rightarrow> Inr p | None \<Rightarrow> par d))"

text \<open>A unit without a directory move only creates directories or keeps them where they are.\<close>

definition only_creates :: "unit_facts \<Rightarrow> (nat \<Rightarrow> string + nat) \<Rightarrow> ancestry \<Rightarrow> bool" where
  "only_creates f par a \<longleftrightarrow> (\<forall>d p. dir_edge (f_edges f) d = Some p \<longrightarrow>
     par d = Inr p \<or> ((\<exists>e. par d = Inl e) \<and> memo_get d (an_memo a) = None))"

lemma learn_edge_facts:
  "map_of (an_dirParent (fst (learn_edge e (a, c)))) =
     (if ue_isDir e then (map_of (an_dirParent a))(ue_child e \<mapsto> ue_parent e) else map_of (an_dirParent a))"
  "an_memo (fst (learn_edge e (a, c))) = an_memo a" "an_depth (fst (learn_edge e (a, c))) = an_depth a"
  "c \<longrightarrow> snd (learn_edge e (a, c))"
  "\<not> snd (learn_edge e (a, c)) \<longrightarrow> an_derivRoot (fst (learn_edge e (a, c))) = an_derivRoot a"
  by (simp_all add: learn_edge_def Let_def update_conv')

lemma learn_edges_facts:
  assumes "fold learn_edge es (a, c) = (a', c')"
  shows "map_of (an_dirParent a') d = (case dir_edge es d of Some p \<Rightarrow> Some p | None \<Rightarrow> map_of (an_dirParent a) d)
    \<and> an_memo a' = an_memo a \<and> an_depth a' = an_depth a \<and> (c \<longrightarrow> c') \<and> (\<not> c' \<longrightarrow> an_derivRoot a' = an_derivRoot a)"
  using assms
proof (induction es arbitrary: a c)
  case Nil
  then show ?case by (simp add: dir_edge_def)
next
  case (Cons e es)
  obtain a1 c1 where e: "learn_edge e (a, c) = (a1, c1)" by force
  have "fold learn_edge es (a1, c1) = (a', c')" using Cons.prems e by simp
  note ih = Cons.IH [OF this] and le = learn_edge_facts [where e = e and a = a and c = c, unfolded e fst_conv snd_conv]
  have "dir_edge (e # es) d = (case dir_edge es d of Some p \<Rightarrow> Some p
      | None \<Rightarrow> if ue_isDir e \<and> ue_child e = d then Some (ue_parent e) else None)"
    by (auto simp: dir_edge_def map_add_def split: option.split)
  then show ?case using ih le by (auto split: option.split)
qed

lemma invalidate_same [simp]:
  "an_dirParent (invalidate ns a) = an_dirParent a" "an_memo (invalidate ns a) = an_memo a"
  "an_depth (invalidate ns a) = an_depth a" "an_derivRoot (invalidate ns a) = an_derivRoot a"
  by (simp_all add: invalidate_def)

lemma memo_get_bump [simp]: "memo_get d (memo_bump c) = None"
  by (simp add: memo_get_def memo_bump_def)

lemma walk_cong:
  assumes "walk par chain = Inr r" and "hd chain \<notin> gone'" and "tree_ok par' gone'"
    and "\<forall>y p. y \<notin> gone' \<longrightarrow> par y = Inr p \<longrightarrow> par' y = Inr p"
  shows "walk par' chain = Inr r"
  using assms
proof (induction par chain rule: walk.induct)
  case (1 par chain)
  note w = "1.prems"(1) [unfolded walk.simps [of par chain]]
  show ?case
  proof (cases "hd chain = rootIno")
    case True
    with w show ?thesis by (subst walk.simps) simp
  next
    case False
    with w obtain p where p: "\<not> 4096 < length chain" "par (hd chain) = Inr p" by (auto split: if_split_asm sum.split_asm)
    then have p': "par' (hd chain) = Inr p" using "1.prems"(2,4) by blast
    then have "p \<notin> gone'" using "1.prems"(2,3) by (auto simp: tree_ok_def)
    with False w p have "\<not> isTrashIno p \<Longrightarrow> walk par' (p # chain) = Inr r"
      using "1.prems" by (intro "1.IH") auto
    with False w p p' show ?thesis by (subst walk.simps) (auto split: if_split_asm)
  qed
qed

lemma locate_cong:
  assumes "locate par depth deriv d = Inr loc" and "d \<notin> gone'" and "tree_ok par' gone'"
    and "\<forall>y p. y \<notin> gone' \<longrightarrow> par y = Inr p \<longrightarrow> par' y = Inr p"
  shows "locate par' depth deriv d = Inr loc"
proof (cases "isTrashIno d \<or> d = rootIno")
  case True
  with assms(1) show ?thesis by (auto simp: locate_def)
next
  case False
  with assms(1) obtain r where "walk par [d] = Inr r" by (auto simp: locate_def split: sum.split_asm)
  moreover from walk_cong [OF this _ assms(3,4)] assms(2) have "walk par' [d] = Inr r" by simp
  ultimately show ?thesis using assms(1) False by (simp add: locate_def)
qed

lemma learnCommitted_ok:
  assumes ok: "cache_ok par gone a" and ta: "tree_after f par gone par' gone'"
    and f: "f_topology f \<or> only_creates f par a"
  shows "cache_ok par' gone' (learnCommitted f a)"
proof -
  obtain a1 c where e: "fold learn_edge (f_edges f) (invalidate (f_touched f) a, False) = (a1, c)" by force
  note ef = learn_edges_facts [OF e]
  have dp: "par' d = Inr p" if "d \<notin> gone'" "d \<noteq> rootIno" "map_of (an_dirParent a1) d = Some p" for d p
    using that ef [of d] ok ta by (auto simp: cache_ok_def tree_after_def split: option.split_asm)
  have mm: "locate par' (an_depth a) (an_derivRoot a) d = Inr loc"
    if "only_creates f par a" "d \<notin> gone'" "memo_get d (an_memo a) = Some loc" for d loc
  proof (rule locate_cong)
    show "locate par (an_depth a) (an_derivRoot a) d = Inr loc" using that(2,3) ok ta by (auto simp: cache_ok_def tree_after_def)
    show "\<forall>y p. y \<notin> gone' \<longrightarrow> par y = Inr p \<longrightarrow> par' y = Inr p"
    proof (intro allI impI)
      fix y p assume y: "y \<notin> gone'" "par y = Inr p"
      show "par' y = Inr p"
      proof (cases "dir_edge (f_edges f) y")
        case (Some q)
        with that(1) y(2) have "q = p" unfolding only_creates_def by fastforce
        with Some ta y(1) show ?thesis by (simp add: tree_after_def)
      qed (use ta y in \<open>simp add: tree_after_def\<close>)
    qed
  qed (use that ta in \<open>auto simp: tree_after_def\<close>)
  show ?thesis
    using ok dp mm f ef by (auto simp: learnCommitted_def e cache_ok_def)
qed

lemma delete_all: "map_of (fold (\<lambda>n. if n \<noteq> rootIno then AList.delete n else id) ns m) d = Some p \<Longrightarrow>
    map_of m d = Some p \<and> (d = rootIno \<or> d \<notin> set ns)"
proof (induction ns arbitrary: m)
  case (Cons n ns)
  from Cons.IH [of "(if n \<noteq> rootIno then AList.delete n else id) m"] Cons.prems show ?case
    by (auto simp: delete_conv' split: if_split_asm)
qed simp

lemma forget_ok:
  assumes "cache_ok par gone a" and "gone \<subseteq> gone'" and "\<forall>d. d \<notin> gone' \<longrightarrow> par' d = par d \<or> d \<in> set (f_touched f)"
  shows "cache_ok par' gone' (forget f a)"
  using assms by (fastforce simp: cache_ok_def forget_def Let_def dest: delete_all)

subsection \<open>Properties\<close>

text \<open>A small volume: directory 5 in the root and directory 7 in it; attributes are 72 bytes.\<close>

definition dir_attr :: "char \<Rightarrow> bytes" where
  "dir_attr p = [CHR 0x00, CHR 0x20] @ replicate 61 (CHR 0x00) @ replicate 7 (CHR 0x00) @ [p] @ [CHR 0x00]"

definition dir_entry :: "char \<Rightarrow> bytes" where
  "dir_entry n = [CHR 0x02, CHR 0x00, CHR 0x00, CHR 0x00, CHR 0x00, CHR 0x00, CHR 0x00, CHR 0x00, n]"

text \<open>Directory 7 in directory 5, which is the entry \<open>v\<close> of the root.\<close>

definition sample_side :: side where
  "sample_side db args =
     Inr (if args = [''GET'', ''i5''] then Value CHR ''$'' (dir_attr (CHR 0x01)) 0 [] False
          else if args = [''GET'', ''i7''] then Value CHR ''$'' (dir_attr (CHR 0x05)) 0 [] False
          else if args = [''HGET'', ''d1'', ''v''] then Value CHR ''$'' (dir_entry (CHR 0x05)) 0 [] False
          else Value CHR ''_'' [] 0 [] True)"

text \<open>C8: Caching never changes where a directory is: for every directory in use, \<^verbatim>\<open>resolveDir\<close> with its
  parent cache and memo returns exactly what following the stored parents from that directory would
  return, error or location, and leaves the caches true to the stored tree.\<close>

theorem resolveDir_refines:
  assumes "cache_ok (dir_parent side (an_db a)) gone a" and "tree_ok (dir_parent side (an_db a)) gone" and "d \<notin> gone"
  shows "fst (resolveDir side d a) = locate (dir_parent side (an_db a)) (an_depth a) (an_derivRoot a) d \<and>
    cache_ok (dir_parent side (an_db a)) gone (snd (resolveDir side d a))"
  using resolveDir_ok [OF assms(1,2) surjective_pairing] assms(3) by blast

theorem resolveDir_refines_witness:
  "fst (resolveDir sample_side 7 (newAncestry 1 2 16)) = locate (dir_parent sample_side 1) 2 0 7"
  using resolveDir_refines [of sample_side "newAncestry 1 2 16" "{}" 7]
  by (simp add: cache_ok_def tree_ok_def newAncestry_def newProjCache_def memo_get_def rootIno_def)


text \<open>Moving directory 7 from 5 to the root.\<close>

definition move_facts :: unit_facts where
  "move_facts = no_facts\<lparr>f_edges := [\<lparr>ue_parent = 1, ue_child = 7, ue_isDir = True, ue_name = ''x''\<rparr>],
     f_topology := True, f_touched := [5, 1, 7]\<rparr>"


text \<open>C30: A read that raced an invalidation is never cached: when a unit that names an inode ends after a
  side read of it began, the parent that read found is dropped, also after further units ended, as
  long as the sequence of invalidations has not wrapped around.\<close>

theorem stale_read_is_dropped:
  assumes "n \<in> set ns" and "start \<le> tb_seq (an_tomb a)" and "tb_seq (an_tomb a) + 1 + length later < 2 ^ 64"
  shows "cacheDir n p start (fold invalidate later (invalidate ns a)) = fold invalidate later (invalidate ns a) \<and>
    cacheFile n p start (fold invalidate later (invalidate ns a)) = fold invalidate later (invalidate ns a)"
proof -
  have upd: "map_of (fold (\<lambda>n. AList.update n s) xs m) n = (if n \<in> set xs then Some s else map_of m n)" for xs m and s :: nat
    by (induction xs arbitrary: m) (auto simp: update_conv')
  have kill: "\<not> tomb_fresh n start (tomb_kill ns t)" if "start \<le> tb_seq t" "tb_seq t + 1 < 2 ^ 64" for t
    using that assms(1) by (auto simp: tomb_fresh_def tomb_kill_def Let_def upd)
  have mono: "\<not> tomb_fresh n start (tomb_kill ms t) \<and> start < tb_seq (tomb_kill ms t) \<and> tb_seq (tomb_kill ms t) \<le> tb_seq t + 1"
    if "\<not> tomb_fresh n start t" "start < tb_seq t" "tb_seq t + 1 < 2 ^ 64" for ms t
    using that by (auto simp: tomb_fresh_def tomb_kill_def Let_def upd split: option.split if_split_asm)
  have seq: "start < tb_seq (tomb_kill ns t) \<and> tb_seq (tomb_kill ns t) \<le> tb_seq t + 1" if "start \<le> tb_seq t" "tb_seq t + 1 < 2 ^ 64" for t
    using that assms(1) by (auto simp: tomb_kill_def Let_def)
  have "\<not> tomb_fresh n start (an_tomb (fold invalidate later b))"
    if "\<not> tomb_fresh n start (an_tomb b)" "start < tb_seq (an_tomb b)" "tb_seq (an_tomb b) + length later < 2 ^ 64" for b
    using that
  proof (induction later arbitrary: b)
    case (Cons ms later)
    from mono [of "an_tomb b" ms] Cons.prems have "\<not> tomb_fresh n start (an_tomb (invalidate ms b)) \<and>
        start < tb_seq (an_tomb (invalidate ms b)) \<and> tb_seq (an_tomb (invalidate ms b)) + length later < 2 ^ 64"
      by (auto simp: invalidate_def)
    with Cons.IH show ?case by simp
  qed simp
  moreover have "\<not> tomb_fresh n start (an_tomb (invalidate ns a)) \<and> start < tb_seq (an_tomb (invalidate ns a)) \<and>
      tb_seq (an_tomb (invalidate ns a)) + length later < 2 ^ 64"
    using kill [of "an_tomb a"] seq [of "an_tomb a"] assms(2,3) by (auto simp: invalidate_def)
  ultimately show ?thesis by (simp add: cacheDir_def cacheFile_def)
qed

theorem stale_read_is_dropped_witness:
  "cacheDir 7 5 0 (invalidate [7] (newAncestry 1 2 16)) = invalidate [7] (newAncestry 1 2 16)"
  using stale_read_is_dropped [of 7 "[7]" 0 "newAncestry 1 2 16" "[]" 5] by (simp add: newAncestry_def)

text \<open>C37: A directory moved to the trash keeps its old project in the memo: a committed unit whose only
  directory entry lies in the trash does not start a new memo generation, so a directory that had been
  resolved before still resolves to its project afterwards, although its cached parent is now the
  trash directory.\<close>

theorem trashed_directory_keeps_project:
  assumes "memo_get d (an_memo a) = Some loc" and "\<not> isTrashIno d" and "d \<noteq> rootIno" and "isTrashIno trash"
    and "f_edges f = [\<lparr>ue_parent = trash, ue_child = d, ue_isDir = True, ue_name = nm\<rparr>]" and "\<not> f_topology f"
  shows "fst (resolveDir side d (learnCommitted f a)) = Inr loc \<and>
    map_of (an_dirParent (learnCommitted f a)) d = Some trash"
  using assms by (simp add: learnCommitted_def learn_edge_def resolveDir_def update_conv' Let_def)

text \<open>The unit of a juicefs rmdir with the trash on: the entry leaves directory 5 for a trash directory.\<close>

definition trash_entry :: bytes where "trash_entry = dir_entry (CHR 0x07)"

definition rmdir_unit :: punit where
  "rmdir_unit =
     (let c1 = \<lparr>cmd_args = [''HDEL'', ''d5'', ''x''], cmd_info = mk_command ''HDEL'' ClassWrite\<rparr>;
          c2 = \<lparr>cmd_args = [''HSET'', ''d9223372032828243969'', ''5-7-x'', trash_entry], cmd_info = mk_command ''HSET'' ClassWrite\<rparr>;
          dk = (\<lambda>n. (plain_ref ShapeDentry GDentry)\<lparr>k_ino := n, k_hasIno := True, k_trash := isTrashIno n\<rparr>);
          w1 = \<lparr>w_cmd = 0, w_key = dk 5, w_raw = ''d5'', w_class = KCProject\<rparr>;
          w2 = \<lparr>w_cmd = 1, w_key = dk (TrashInode + 1), w_raw = ''d9223372032828243969'', w_class = KCProject\<rparr> in
      \<lparr>u_kind = UnitTxn, u_db = 1, u_cmds = [c1, c2], u_watched = [], u_writes = [w1, w2], u_project = [w1, w2],
       u_refInodes = [], u_trashAlloc = 0, u_rewrite = None, u_mode = ModeEnforce\<rparr>)"

definition memo_ancestry :: ancestry where
  "memo_ancestry = memoise 7 (proj_loc 0 7 2) 0 (newAncestry 1 2 16)"

lemma rmdir_facts:
  "f_edges (analyzeUnit rmdir_unit) = [\<lparr>ue_parent = TrashInode + 1, ue_child = 7, ue_isDir = True, ue_name = ''5-7-x''\<rparr>]"
  "\<not> f_topology (analyzeUnit rmdir_unit)"
proof -
  have e: "entryInode trash_entry = Some 7" "entryType trash_entry = Some 2"
    by (simp_all add: trash_entry_def dir_entry_def entryInode_def entryType_def be_value_def)
  show "f_edges (analyzeUnit rmdir_unit) = [\<lparr>ue_parent = TrashInode + 1, ue_child = 7, ue_isDir = True, ue_name = ''5-7-x''\<rparr>]"
    "\<not> f_topology (analyzeUnit rmdir_unit)"
    by (simp_all add: analyzeUnit_def rmdir_unit_def Let_def analyze_write_def analyze_dentry_def plain_ref_def cmd_of_def mk_command_def
        isHSet_def e typeDir_def no_facts_def touch_ino_def drop_created_def isTrashIno_def TrashInode_def dentry_del_def)
qed

theorem trashed_directory_keeps_project_witness:
  "fst (resolveDir sample_side 7 (learnCommitted (analyzeUnit rmdir_unit) memo_ancestry)) = Inr (proj_loc 0 7 2) \<and>
   map_of (an_dirParent (learnCommitted (analyzeUnit rmdir_unit) memo_ancestry)) 7 = Some (TrashInode + 1)"
  by (rule trashed_directory_keeps_project [OF _ _ _ _ rmdir_facts])
    (simp_all add: memo_ancestry_def memoise_def memo_put_def memo_get_def newAncestry_def newProjCache_def update_conv'
      isTrashIno_def TrashInode_def rootIno_def memoMax_def)

end
