(* ===== verification/Placement_Props.thy ===== *)
theory Placement_Props
  imports Placement Ancestry_Props
begin

section \<open>Every place a unit touches is reported\<close>

text \<open>
  \<open>pok Inv m Q\<close> is a contract of a placing computation: it keeps \<open>Inv\<close> of the ancestry, and a result
  satisfies \<open>Q\<close>.  What \<open>placeUnit\<close> relies on from the ancestry is the locale \<open>tree_reader\<close>: a lookup
  answers what the stored tree says and keeps the invariant.
\<close>

definition pok :: "(ancestry \<Rightarrow> bool) \<Rightarrow> 'a placing \<Rightarrow> ('a \<Rightarrow> bool) \<Rightarrow> bool" where
  "pok Inv m Q \<longleftrightarrow> (\<forall>st. Inv (fst st) \<longrightarrow> Inv (fst (snd (m st))) \<and> (\<forall>x. fst (m st) = Inr x \<longrightarrow> Q x))"

named_theorems pok_intro \<open>contracts of the building blocks\<close>

lemma pok_pret [pok_intro]: "Q x \<Longrightarrow> pok Inv (pret x) Q"
  by (simp add: pok_def pret_def)

lemma pok_pfail [pok_intro]: "pok Inv (pfail d) Q"
  by (simp add: pok_def pfail_def)

lemma pok_bind:
  assumes "pok Inv m P" and "\<And>x. P x \<Longrightarrow> pok Inv (k x) Q"
  shows "pok Inv (pbind m k) Q"
  unfolding pok_def
proof (intro allI impI)
  fix st :: place_st assume i: "Inv (fst st)"
  note m = assms(1) [unfolded pok_def, rule_format, OF i, THEN conjunct1]
    assms(1) [unfolded pok_def, rule_format, OF i, THEN conjunct2, rule_format]
  obtain r st1 where eq: "m st = (r, st1)" by (rule prod.exhaust)
  show "Inv (fst (snd (pbind m k st))) \<and> (\<forall>x. fst (pbind m k st) = Inr x \<longrightarrow> Q x)"
  proof (cases r)
    case (Inl d)
    with eq m(1) show ?thesis by (simp add: pbind_def)
  next
    case (Inr x)
    have "pok Inv (k x) Q" by (rule assms(2)) (use m(2) [of x] eq Inr in simp)
    moreover have "Inv (fst st1)" using m(1) eq by simp
    ultimately have "Inv (fst (snd (k x st1))) \<and> (\<forall>y. fst (k x st1) = Inr y \<longrightarrow> Q y)"
      unfolding pok_def by blast
    with eq Inr show ?thesis by (simp add: pbind_def)
  qed
qed

lemma pok_weaken: "pok Inv m P \<Longrightarrow> (\<And>x. P x \<Longrightarrow> Q x) \<Longrightarrow> pok Inv m Q"
  by (auto simp: pok_def)

lemma pok_try: "(\<And>a. Inv a \<Longrightarrow> Inv (snd (f a)) \<and> Q (fst (f a))) \<Longrightarrow> pok Inv (ptry f) Q"
  by (simp add: pok_def ptry_def case_prod_beta)

lemma pok_entry: "pok Inv (pentry side d nm) (\<lambda>_. True)"
  by (simp add: pok_def pentry_def)

lemma pok_unlink: "pok Inv (punlink n) (\<lambda>_. True)"
  by (simp add: pok_def punlink_def)

lemma pok_prefuse: "pok Inv (prefuse md r t) (\<lambda>_. md = PlaceBypass \<and> r \<noteq> ReasonUnknownKey)"
  by (auto simp: prefuse_def pok_def pret_def pfail_def)

lemma pok_punknown: "pok Inv (punknown md t) (\<lambda>_. False)"
  unfolding punknown_def by (rule pok_weaken [OF pok_prefuse]) simp

lemma pok_guard: "pok Inv m P \<Longrightarrow> pok Inv (pguard b m) (\<lambda>x. b \<longrightarrow> P x)"
  by (auto simp: pguard_def pok_def pret_def)

lemma pok_pdeny: "pok Inv (pdeny d) (\<lambda>_. d = None)"
  by (auto simp: pdeny_def pok_def pret_def pfail_def split: option.split)

text \<open>A loop keeps \<open>P\<close> of its accumulator and establishes \<open>R\<close> for every element it has passed.\<close>

lemma pok_fold:
  assumes "P s" and "\<And>x s. x \<in> set xs \<Longrightarrow> P s \<Longrightarrow> pok Inv (f x s) (\<lambda>s'. P s' \<and> R x s' \<and> ext s s')"
    and "\<And>x s s'. R x s \<Longrightarrow> ext s s' \<Longrightarrow> R x s'" and "\<And>s. ext s s" and "\<And>s t v. ext s t \<Longrightarrow> ext t v \<Longrightarrow> ext s v"
  shows "pok Inv (pfold f xs s) (\<lambda>s'. P s' \<and> (\<forall>x \<in> set xs. R x s') \<and> ext s s')"
  using assms(1,2)
proof (induction xs arbitrary: s)
  case Nil
  then show ?case by (simp add: pok_pret assms(4))
next
  case (Cons x xs)
  show ?case unfolding pfold.simps
  proof (rule pok_bind)
    show "pok Inv (f x s) (\<lambda>s'. P s' \<and> R x s' \<and> ext s s')" using Cons.prems by simp
    fix s1 assume s1: "P s1 \<and> R x s1 \<and> ext s s1"
    have "pok Inv (pfold f xs s1) (\<lambda>s'. P s' \<and> (\<forall>x \<in> set xs. R x s') \<and> ext s1 s')"
      using Cons.IH [of s1] Cons.prems(2) s1 by simp
    then show "pok Inv (pfold f xs s1) (\<lambda>s'. P s' \<and> (\<forall>y \<in> set (x # xs). R y s') \<and> ext s s')"
      by (rule pok_weaken) (use s1 assms(3,5) in \<open>auto\<close>)
  qed
qed

subsection \<open>What placing needs from the tree\<close>

text \<open>
  \<open>live\<close> are the numbers in use, \<open>loc_of\<close> is the location of a directory and \<open>stored\<close> the placement of
  an inode, both by the stored tree.  The answers on removed numbers are not constrained.
\<close>

definition covers_project :: "location list \<Rightarrow> nat \<Rightarrow> bool" where
  "covers_project locs pr \<longleftrightarrow> (\<exists>l \<in> set locs. loc_kind l = NsProject \<and> loc_proj l = pr)"

lemma covers_mono: "covers_project ls pr \<Longrightarrow> set ls \<subseteq> set ms \<Longrightarrow> covers_project ms pr"
  by (auto simp: covers_project_def)

definition number_owned :: "principal \<Rightarrow> unit_env \<Rightarrow> nat \<Rightarrow> bool" where
  "number_owned p ue n \<longleftrightarrow> (\<exists>ow. v_inodeOwner ue = Some ow \<and> (ow n = Inr (Some (p_name p)) \<or>
     ow n = Inr None \<and> (\<exists>mark. v_inodeMark ue = Some (Inr mark) \<and> n \<le> mark)))"

text \<open>The unit writes a key of the inode (rather than only an entry for it).\<close>

definition named :: "unit_facts \<Rightarrow> nat \<Rightarrow> bool" where
  "named f n \<longleftrightarrow> map_of (f_why f) n \<notin> {None, Some []}"

lemma newInodeGate_None: "newInodeGate p ue n newHere attrs = None \<Longrightarrow> number_owned p ue n"
  by (auto simp: newInodeGate_def number_owned_def split: option.split_asm sum.split_asm if_split_asm)

locale tree_reader =
  fixes side :: side and Inv :: "ancestry \<Rightarrow> bool" and live :: "nat \<Rightarrow> bool" and loc_of :: "nat \<Rightarrow> string + location"
    and stored :: "nat \<Rightarrow> string + placement"
  assumes resolve: "Inv a \<Longrightarrow> (live d \<longrightarrow> fst (resolveDir side d a) = loc_of d) \<and> Inv (snd (resolveDir side d a))"
    and place: "Inv a \<Longrightarrow> (live n \<longrightarrow> fst (placementOf side n a) = stored n) \<and> Inv (snd (placementOf side n a))"
begin

lemma pok_resolve: "pok Inv (ptry (resolveDir side d)) (\<lambda>r. live d \<longrightarrow> r = loc_of d)"
  by (rule pok_try) (use resolve in blast)

lemma pok_place: "pok Inv (ptry (placementOf side n)) (\<lambda>r. live n \<longrightarrow> r = stored n)"
  by (rule pok_try) (use place in blast)

text \<open>A child of a directory of a project is in that project.\<close>

definition child_ok :: "nat \<Rightarrow> string + location \<Rightarrow> bool" where
  "child_ok d r \<longleftrightarrow> (\<forall>l. r = Inr l \<longrightarrow> live d \<longrightarrow> (\<exists>lp. loc_of d = Inr lp \<and>
     (loc_kind lp = NsProject \<longrightarrow> loc_kind l = NsProject \<and> loc_proj l = loc_proj lp)))"

lemma child_place:
  assumes "Inv a"
  shows "Inv (snd (childLocP side d n isDir b a)) \<and> child_ok d (fst (childLocP side d n isDir b a))"
proof -
  obtain r a1 where r: "resolveDir side d a = (r, a1)" by force
  with resolve [OF assms, of d] have "live d \<longrightarrow> r = loc_of d" "Inv a1" by simp_all
  with r show ?thesis by (cases r; cases "loc_of d") (auto simp: childLocP_def child_ok_def split: ns_kind.split)
qed

lemma pok_child: "pok Inv (ptry (childLocP side d n isDir b)) (child_ok d)"
  by (rule pok_try) (use child_place in blast)

text \<open>The places of a stored inode: a directory's own location, a file's parents.\<close>

definition at_ok :: "nat \<Rightarrow> bool \<Rightarrow> nat \<Rightarrow> location \<Rightarrow> bool" where
  "at_ok n isDir q l \<longleftrightarrow> (if isTrashIno q then l = trash_loc
     else if isDir then live n \<longrightarrow> loc_of n = Inr l else child_ok q (Inr l))"

lemma locsOf_place:
  assumes "Inv a"
  shows "Inv (snd (locsOf_parents side n isDir ps a)) \<and>
    (\<forall>ls. fst (locsOf_parents side n isDir ps a) = Inr ls \<longrightarrow> list_all2 (at_ok n isDir) ps ls)"
  using assms
proof (induction ps arbitrary: a)
  case (Cons q ps)
  define x where "x = (if isTrashIno q then (Inr trash_loc, a) else if isDir then resolveDir side n a else childLoc side q n False a)"
  have x: "Inv (snd x) \<and> (\<forall>l. fst x = Inr l \<longrightarrow> at_ok n isDir q l)"
    using Cons.prems resolve [of a n] child_place [of a q n False False] by (auto simp: x_def childLoc_def at_ok_def)
  obtain r a1 where r: "x = (r, a1)" by force
  show ?case
  proof (cases r)
    case (Inl e)
    with r x show ?thesis by (simp add: x_def [symmetric])
  next
    case (Inr l)
    from r x Inr have i: "Inv a1" "at_ok n isDir q l" by simp_all
    obtain r2 a2 where r2: "locsOf_parents side n isDir ps a1 = (r2, a2)" by force
    from Cons.IH [OF i(1)] r2 have IH: "Inv a2" "\<forall>ls. r2 = Inr ls \<longrightarrow> list_all2 (at_ok n isDir) ps ls" by simp_all
    with r Inr r2 i(2) show ?thesis by (cases r2) (simp_all add: x_def [symmetric])
  qed
qed simp

lemma pok_locs: "pok Inv (ptry (locsOf side n pl)) (\<lambda>r. \<forall>ls. r = Inr ls \<longrightarrow> list_all2 (at_ok n (pl_isDir pl)) (pl_parents pl) ls)"
  by (rule pok_try) (use locsOf_place in \<open>simp add: locsOf_def\<close>)

subsection \<open>The phases\<close>

definition grows :: "place_acc \<Rightarrow> place_acc \<Rightarrow> bool" where
  "grows s s' \<longleftrightarrow> set (pa_locs s) \<subseteq> set (pa_locs s') \<and> set (pa_order s) \<subseteq> set (pa_order s')"

lemma grows_refl: "grows s s"
  by (simp add: grows_def)

lemma grows_trans: "grows s t \<Longrightarrow> grows t v \<Longrightarrow> grows s v"
  by (auto simp: grows_def)

definition true_stored :: "place_acc \<Rightarrow> bool" where
  "true_stored s \<longleftrightarrow> (\<forall>n pl. map_of (pa_stored s) n = Some pl \<longrightarrow> live n \<longrightarrow> stored n = Inr pl)"

definition anchored :: "location list \<Rightarrow> dentry_op \<Rightarrow> bool" where
  "anchored locs op \<longleftrightarrow> (\<not> op_trash op \<longrightarrow> live (op_dir op) \<longrightarrow> (\<exists>l \<in> set locs. loc_of (op_dir op) = Inr l))"

lemma note_ino_simps [simp]:
  "pa_locs (note_ino n s) = pa_locs s" "pa_stored (note_ino n s) = pa_stored s" "set (pa_order (note_ino n s)) = insert n (set (pa_order s))"
  by (auto simp: note_ino_def)

lemma place_entry_ok:
  assumes "true_stored s"
  shows "pok Inv (place_entry quote side md i op s) (\<lambda>s'. true_stored s' \<and> grows s s')"
  unfolding place_entry_def
  by (auto simp: grows_def true_stored_def assms [unfolded true_stored_def] split: sum.split option.split
      intro!: pok_pret pok_bind [OF pok_entry] pok_bind [OF pok_punknown] pok_bind [OF pok_unlink])

lemma place_dentry_ok:
  assumes "true_stored s"
  shows "pok Inv (place_dentry quote side md (i, op) s) (\<lambda>s'. true_stored s' \<and> anchored (pa_locs s') op \<and> grows s s')"
  unfolding place_dentry_def prod.case
proof (rule pok_bind [OF pok_guard [OF pok_prefuse]], rule pok_bind [OF pok_guard [OF pok_prefuse]])
  show "pok Inv (if op_trash op then place_entry quote side md i op s
      else pbind (ptry (resolveDir side (op_dir op))) (\<lambda>r. case r of
        Inl e \<Rightarrow> pbind (punknown md (''unresolved directory '' @ inoStr (op_dir op) @ '': '' @ e)) (\<lambda>_. pret s)
      | Inr l \<Rightarrow> place_entry quote side md i op (add_loc l s)))
    (\<lambda>s'. true_stored s' \<and> anchored (pa_locs s') op \<and> grows s s')"
  proof (cases "op_trash op")
    case True
    with pok_weaken [OF place_entry_ok [OF assms, of quote md i op], of "\<lambda>s'. true_stored s' \<and> anchored (pa_locs s') op \<and> grows s s'"]
    show ?thesis by (simp add: anchored_def)
  next
    case False
    have "pok Inv (place_entry quote side md i op (add_loc l s)) (\<lambda>s'. true_stored s' \<and> anchored (pa_locs s') op \<and> grows s s')"
      if "live (op_dir op) \<longrightarrow> Inr l = loc_of (op_dir op)" for l
    proof (rule pok_weaken [OF place_entry_ok])
      show "true_stored (add_loc l s)" using assms by (simp add: true_stored_def add_loc_def)
      show "true_stored s' \<and> anchored (pa_locs s') op \<and> grows s s'" if "true_stored s' \<and> grows (add_loc l s) s'" for s'
        using that \<open>live (op_dir op) \<longrightarrow> Inr l = loc_of (op_dir op)\<close>
        by (auto simp: grows_def add_loc_def anchored_def intro!: bexI [of _ l])
    qed
    then show ?thesis using False
      by (auto split: sum.split intro!: pok_bind [OF pok_resolve] pok_bind [OF pok_punknown])
  qed
qed


lemma notes_simps [simp]:
  "pa_locs (fold note_ino ns s) = pa_locs s" "pa_stored (fold note_ino ns s) = pa_stored s"
  "set (pa_order (fold note_ino ns s)) = set ns \<union> set (pa_order s)"
  by (induction ns arbitrary: s) auto

definition known :: "place_acc \<Rightarrow> nat \<Rightarrow> bool" where
  "known s n \<longleftrightarrow> isTrashIno n \<or> map_of (pa_stored s) n \<noteq> None"

lemma place_stored_ok:
  assumes "true_stored s"
  shows "pok Inv (place_stored side md n s) (\<lambda>s'. true_stored s' \<and> known s' n \<and>
    (pa_locs s' = pa_locs s \<and> pa_order s' = pa_order s \<and> (\<forall>x. known s x \<longrightarrow> known s' x)))"
  using assms unfolding place_stored_def
  by (auto simp: true_stored_def known_def update_conv' split: sum.split if_split_asm
      intro!: pok_pret pok_bind [OF pok_place] pok_bind [OF pok_punknown])

lemma trash_entry_added_ok: "pok Inv (trash_entry_added quote side md op) (\<lambda>_. True)"
  unfolding trash_entry_added_def
  by (auto split: sum.split option.split intro!: pok_pret pok_bind [OF pok_entry] pok_weaken [OF pok_punknown]
      pok_weaken [OF pok_guard [OF pok_prefuse]])

lemma entry_replaced_ok:
  assumes "true_stored s" and "\<forall>x \<in> set (pa_order s). known s x"
  shows "pok Inv (entry_replaced quote side md op s) (\<lambda>s'. true_stored s' \<and> (\<forall>x \<in> set (pa_order s'). known s' x) \<and> grows s s')"
  using assms unfolding entry_replaced_def Let_def
  by (auto simp: grows_def true_stored_def known_def update_conv' split: sum.split option.split if_split_asm
      intro!: pok_pret pok_bind [OF pok_entry] pok_bind [OF pok_punknown] pok_bind [OF pok_unlink] pok_bind [OF pok_place];
      fastforce)

subsection \<open>One inode\<close>

text \<open>The projects an inode is stored in are among the locations.\<close>

definition housed :: "location list \<Rightarrow> nat \<Rightarrow> placement \<Rightarrow> bool" where
  "housed locs n pl \<longleftrightarrow> (\<forall>q \<in> set (pl_parents pl). \<not> isTrashIno q \<longrightarrow>
     (if pl_isDir pl then live n \<longrightarrow> (\<exists>l. loc_of n = Inr l \<and> (loc_kind l = NsTrash \<or> l \<in> set locs))
      else live q \<longrightarrow> (\<exists>lp. loc_of q = Inr lp \<and> (loc_kind lp = NsProject \<longrightarrow> covers_project locs (loc_proj lp)))))"

lemma housed_mono: "housed ls n pl \<Longrightarrow> set ls \<subseteq> set ms \<Longrightarrow> housed ms n pl"
  unfolding housed_def using covers_mono [of ls _ ms] by (cases "pl_isDir pl") (simp_all, blast+)

lemma place_now_ok:
  "pok Inv (place_now md n why gone newer pls) (\<lambda>ls. set ls = snd ` {x \<in> set pls. loc_kind (snd x) \<noteq> NsTrash})"
proof (induction pls)
  case (Cons x pls)
  obtain q l where x: "x = (q, l)" by force
  show ?case
  proof (cases "loc_kind l = NsTrash")
    case True
    have e: "{y \<in> set ((q, l) # pls). loc_kind (snd y) \<noteq> NsTrash} = {y \<in> set pls. loc_kind (snd y) \<noteq> NsTrash}"
      using True by auto
    show ?thesis using True Cons.IH unfolding x e by (auto intro: pok_bind [OF pok_guard [OF pok_prefuse]])
  next
    case False
    have e: "{y \<in> set ((q, l) # pls). loc_kind (snd y) \<noteq> NsTrash} = insert (q, l) {y \<in> set pls. loc_kind (snd y) \<noteq> NsTrash}"
      using False by auto
    show ?thesis unfolding x e using False by (simp del: set_simps image_insert) (rule pok_bind [OF Cons.IH], rule pok_pret, simp)
  qed
qed (simp add: pok_pret)

lemma housed_now:
  assumes "list_all2 (at_ok n (pl_isDir pl)) (pl_parents pl) sl"
    and "snd ` {x \<in> set (zip (pl_parents pl) sl). loc_kind (snd x) \<noteq> NsTrash} \<subseteq> set ls"
  shows "housed ls n pl"
  unfolding housed_def
proof (intro ballI impI)
  fix q assume q: "q \<in> set (pl_parents pl)" "\<not> isTrashIno q"
  then obtain i where i: "i < length (pl_parents pl)" "q = pl_parents pl ! i" by (auto simp: in_set_conv_nth)
  define l where "l = sl ! i"
  have at: "at_ok n (pl_isDir pl) q l" using assms(1) i by (simp add: list_all2_conv_all_nth l_def)
  have "(q, l) \<in> set (zip (pl_parents pl) sl)"
    using assms(1) i by (auto simp: in_set_zip list_all2_conv_all_nth l_def intro!: exI [of _ i])
  then have l: "loc_kind l = NsTrash \<or> l \<in> set ls" using assms(2) by force
  show "if pl_isDir pl then live n \<longrightarrow> (\<exists>l. loc_of n = Inr l \<and> (loc_kind l = NsTrash \<or> l \<in> set ls))
      else live q \<longrightarrow> (\<exists>lp. loc_of q = Inr lp \<and> (loc_kind lp = NsProject \<longrightarrow> covers_project ls (loc_proj lp)))"
    using at l q(2) by (fastforce simp: at_ok_def child_ok_def covers_project_def)
qed

lemma place_now_housed:
  assumes "list_all2 (at_ok n (pl_isDir pl)) (pl_parents pl) sl"
  shows "pok Inv (place_now md n why gone newer (zip (pl_parents pl) sl)) (\<lambda>ls. housed ls n pl)"
  by (rule pok_weaken [OF place_now_ok]) (use housed_now [OF assms] in simp)

lemma place_new_ok: "pok Inv (place_new side md n isDir q ls) (\<lambda>_. True)"
  unfolding place_new_def
  by (auto split: sum.split intro!: pok_bind [OF pok_child] pok_bind [OF pok_punknown] pok_pret)

lemma pok_fold_True: "(\<And>x s. pok Inv (f x s) (\<lambda>_. True)) \<Longrightarrow> pok Inv (pfold f xs s) (\<lambda>_. True)"
  by (rule pok_weaken [OF pok_fold [where P = "\<lambda>_. True" and R = "\<lambda>_ _. True" and ext = "\<lambda>_ _. True"]]) simp_all

lemma pok_True: "pok Inv m Q \<Longrightarrow> pok Inv m (\<lambda>_. True)"
  by (erule pok_weaken) simp

lemma pok_deny_if: "pok Inv (if c then pdeny d else pret ()) (\<lambda>_. True)"
  by (simp add: pok_pret pok_True [OF pok_pdeny])

lemma place_moved_ok: "pok Inv (place_moved side md n pl gone newHere sl) (\<lambda>_. True)"
proof (cases "newHere = []")
  case True
  then show ?thesis by (simp add: place_moved_def pok_pret pok_bind [OF pok_pdeny])
next
  case False
  then show ?thesis unfolding place_moved_def Let_def
    by (simp only: if_True not_False_eq_True simp_thms)
      (intro pok_bind [OF pok_True [OF pok_guard [OF pok_punknown]]] pok_bind [OF pok_fold_True [OF place_new_ok]]
        pok_bind [OF pok_deny_if] pok_pret TrueI)
qed

lemma place_link_ok: "pok Inv (place_link side md n lp ls) (\<lambda>_. True)"
  unfolding place_link_def childLoc_def
  by (auto split: sum.split intro!: pok_bind [OF pok_child] pok_bind [OF pok_punknown] pok_pret)

lemma place_kept_ok:
  "pok Inv (place_kept side md f n pl why s) (\<lambda>s'. housed (pa_locs s') n pl \<and> pa_stored s' = pa_stored s \<and> grows s s')"
  unfolding place_kept_def Let_def
proof (rule pok_bind [OF pok_locs], goal_cases)
  case (1 r)
  then show ?case
    by (auto split: sum.split simp: grows_def intro!: pok_bind [OF pok_punknown] pok_bind [OF place_now_housed]
        pok_bind [OF place_moved_ok] pok_bind [OF pok_fold_True [OF place_link_ok]] pok_bind [OF pok_guard [OF pok_punknown]] pok_pret
        elim: housed_mono)
qed


lemma place_created_ok:
  "pok Inv (place_created side md p u ue f n why s)
    (\<lambda>s'. (md \<noteq> PlaceBypass \<longrightarrow> named f n \<longrightarrow> number_owned p ue n) \<and> pa_stored s' = pa_stored s \<and> grows s s')"
  (is "pok Inv _ ?Q")
proof -
  let ?here = "slice_at (pa_placed s) n"
  have gate: "pok Inv (if md = PlaceBypass then pret () else pdeny (newInodeGate p ue n (nonTrash ?here) (f_setAttr f)))
      (\<lambda>_. md \<noteq> PlaceBypass \<longrightarrow> number_owned p ue n)"
    by (auto intro!: pok_pret pok_weaken [OF pok_pdeny] dest: newInodeGate_None)
  show ?thesis
  proof (cases "nonTrash ?here = []")
    case True
    then show ?thesis unfolding place_created_def Let_def
      by (auto simp: named_def grows_refl intro!: pok_pret pok_bind [OF pok_punknown])
  next
    case False
    then have ne: "?here \<noteq> []" by (auto simp: nonTrash_def)
    show ?thesis unfolding place_created_def Let_def using False ne
      by (simp only: simp_thms if_False if_True)
        (intro pok_bind [OF pok_fold_True [OF place_new_ok]] pok_bind [OF pok_True [OF pok_guard [OF pok_punknown]]]
          pok_bind [OF gate] pok_pret; simp add: grows_def)
  qed
qed

definition inode_ok :: "place_mode \<Rightarrow> principal \<Rightarrow> unit_env \<Rightarrow> unit_facts \<Rightarrow> location list \<Rightarrow> nat \<Rightarrow> placement \<Rightarrow> bool" where
  "inode_ok md p ue f locs n pl \<longleftrightarrow>
     (if pl_exists pl then housed locs n pl else md \<noteq> PlaceBypass \<longrightarrow> named f n \<longrightarrow> number_owned p ue n)"

lemma inode_ok_mono: "inode_ok md p ue f ls n pl \<Longrightarrow> set ls \<subseteq> set ms \<Longrightarrow> inode_ok md p ue f ms n pl"
  by (auto simp: inode_ok_def elim: housed_mono)

lemma place_inode_ok:
  "pok Inv (place_inode side md p u ue f n s)
    (\<lambda>s'. pa_stored s' = pa_stored s \<and> (isTrashIno n \<or> inode_ok md p ue f (pa_locs s') n (stored_at s n)) \<and> grows s s')"
  unfolding place_inode_def Let_def
  by (auto simp: inode_ok_def grows_refl intro!: pok_pret intro: pok_weaken [OF place_kept_ok] pok_weaken [OF place_created_ok])

lemma trash_pair_ok: "pok Inv (trash_pair quote md s op) (\<lambda>_. True)"
  unfolding trash_pair_def by (auto intro: pok_pret pok_True [OF pok_guard [OF pok_prefuse]])

lemma trash_restore_ok: "pok Inv (trash_restore quote side md s x ls) (\<lambda>ls'. set ls \<subseteq> set ls')"
  unfolding trash_restore_def
  by (auto split: prod.split option.split sum.split intro!: pok_pret pok_pfail pok_bind [OF pok_prefuse] pok_bind [OF pok_resolve])

lemma trash_restores_ok: "pok Inv (pfold (trash_restore quote side md s) xs ls) (\<lambda>ls'. set ls \<subseteq> set ls')"
  by (rule pok_weaken [OF pok_fold [where P = "\<lambda>_. True" and R = "\<lambda>_ _. True" and ext = "\<lambda>a b. set a \<subseteq> set b"]])
    (auto intro: pok_weaken [OF trash_restore_ok])

subsection \<open>The whole unit\<close>

definition placed_ok :: "place_mode \<Rightarrow> principal \<Rightarrow> unit_env \<Rightarrow> unit_facts \<Rightarrow> location list \<Rightarrow> bool" where
  "placed_ok md p ue f locs \<longleftrightarrow> (\<forall>op \<in> set (f_dentries f). anchored locs op) \<and>
     (\<forall>n \<in> set (f_inodes f). \<not> isTrashIno n \<longrightarrow> live n \<longrightarrow> (\<exists>pl. stored n = Inr pl \<and> inode_ok md p ue f locs n pl))"

lemma place_dentries_ok:
  assumes "true_stored s"
  shows "pok Inv (pfold (place_dentry quote side md) xs s) (\<lambda>s'. true_stored s' \<and> (\<forall>x \<in> set xs. anchored (pa_locs s') (snd x)) \<and> grows s s')"
  by (rule pok_fold [where R = "\<lambda>x s'. anchored (pa_locs s') (snd x)"])
    (use assms in \<open>auto intro!: place_dentry_ok grows_refl simp: split_paired_all elim: grows_trans\<close>,
     auto simp: anchored_def grows_def)

lemma place_storeds_ok:
  assumes "true_stored s"
  shows "pok Inv (pfold (place_stored side md) ns s) (\<lambda>s'. true_stored s' \<and> (\<forall>n \<in> set ns. known s' n) \<and>
    (pa_locs s' = pa_locs s \<and> pa_order s' = pa_order s \<and> (\<forall>x. known s x \<longrightarrow> known s' x)))"
  by (rule pok_fold [where R = "\<lambda>n s'. known s' n"]) (use assms place_stored_ok in auto)

lemma entries_replaced_ok:
  assumes "true_stored s" and "\<forall>x \<in> set (pa_order s). known s x"
  shows "pok Inv (pfold (entry_replaced quote side md) ops s)
    (\<lambda>s'. (true_stored s' \<and> (\<forall>x \<in> set (pa_order s'). known s' x)) \<and> (\<forall>x \<in> set ops. True) \<and> grows s s')"
  by (rule pok_fold [where R = "\<lambda>_ _. True"])
    (use assms entry_replaced_ok in \<open>auto intro: grows_refl elim: grows_trans\<close>)

lemma place_inodes_ok:
  "pok Inv (pfold (place_inode side md p u ue f) ns s)
    (\<lambda>s'. pa_stored s' = pa_stored s \<and> (\<forall>n \<in> set ns. isTrashIno n \<or> inode_ok md p ue f (pa_locs s') n (stored_at s n)) \<and> grows s s')"
proof (rule pok_fold [where R = "\<lambda>n s'. isTrashIno n \<or> inode_ok md p ue f (pa_locs s') n (stored_at s n)"])
  fix n and t :: place_acc assume "pa_stored t = pa_stored s"
  moreover from this have "stored_at t n = stored_at s n" by (simp add: stored_at_def)
  ultimately show "pok Inv (place_inode side md p u ue f n t) (\<lambda>s'. pa_stored s' = pa_stored s \<and>
      (isTrashIno n \<or> inode_ok md p ue f (pa_locs s') n (stored_at s n)) \<and> grows t s')"
    using place_inode_ok [of md p u ue f n t] by simp
qed (auto simp: grows_def dest: inode_ok_mono)

lemma placeUnit_places: "pok Inv (placeUnit quote side p u ue f md) (placed_ok md p ue f)"
  unfolding placeUnit_def
proof (rule pok_bind [OF pok_True [OF pok_guard [OF pok_prefuse]]], rule pok_bind [OF place_dentries_ok],
    goal_cases empty dentries)
  case empty
  show ?case by (simp add: true_stored_def place_start_def)
next
  case (dentries _ s1)
  have "set (f_dentries f) = snd ` set (enumerate 0 (f_dentries f))" by (metis list.set_map map_snd_enumerate)
  with dentries have s1: "true_stored (fold note_ino (f_inodes f) s1)" "\<forall>op \<in> set (f_dentries f). anchored (pa_locs s1) op"
    by (auto simp: true_stored_def)
  show ?case
  proof (rule pok_bind [OF place_storeds_ok [OF s1(1)]], rule pok_bind [OF pok_fold_True [OF trash_entry_added_ok]], goal_cases)
    case (1 s2 _)
    then have s2: "true_stored s2" "\<forall>x \<in> set (pa_order s2). known s2 x" "set (f_inodes f) \<subseteq> set (pa_order s2)"
      "pa_locs s2 = pa_locs s1" by auto
    show ?case
    proof (rule pok_bind [OF entries_replaced_ok [OF s2(1,2)]], rule pok_bind [OF place_inodes_ok],
        rule pok_bind [OF pok_fold_True [OF trash_pair_ok]], rule pok_weaken [OF trash_restores_ok], goal_cases)
      case (1 s3 s4 _ locs)
      then have g: "set (pa_locs s1) \<subseteq> set locs" "set (f_inodes f) \<subseteq> set (pa_order s3)" "set (pa_locs s4) \<subseteq> set locs"
        using s2(3,4) by (auto simp: grows_def)
      have "\<exists>pl. stored n = Inr pl \<and> inode_ok md p ue f locs n pl"
        if n: "n \<in> set (f_inodes f)" "\<not> isTrashIno n" "live n" for n
      proof -
        have o: "n \<in> set (pa_order s3)" using n(1) g(2) by blast
        with 1 n(2) obtain pl where pl: "map_of (pa_stored s3) n = Some pl" by (fastforce simp: known_def)
        moreover have "stored n = Inr pl" using 1(1) pl n(3) by (auto simp: true_stored_def)
        moreover have "inode_ok md p ue f (pa_locs s4) n pl" using 1(2) o n(2) pl by (auto simp: stored_at_def)
        ultimately show ?thesis using inode_ok_mono [OF _ g(3)] by blast
      qed
      moreover have "\<forall>op \<in> set (f_dentries f). anchored locs op"
        using s1(2) g(1) by (auto simp: anchored_def)
      ultimately show ?case by (simp add: placed_ok_def)
    qed
  qed
qed

end

subsection \<open>The ancestry provides it\<close>

definition tree_inv :: "side \<Rightarrow> int \<Rightarrow> nat \<Rightarrow> nat \<Rightarrow> nat set \<Rightarrow> ancestry \<Rightarrow> bool" where
  "tree_inv side db depth deriv gone a \<longleftrightarrow>
     cache_ok (dir_parent side db) gone a \<and> tree_ok (dir_parent side db) gone \<and> files_ok side db gone (an_files a) \<and>
     an_db a = db \<and> an_depth a = depth \<and> an_derivRoot a = deriv"

interpretation stored_tree: tree_reader side "tree_inv side db depth deriv gone" "\<lambda>d. d \<notin> gone"
    "locate (dir_parent side db) depth deriv" "stored_place side db" for side db depth deriv gone
proof (unfold_locales, goal_cases)
  case (1 a d)
  then show ?case using resolveDir_ok [of side a gone d "fst (resolveDir side d a)" "snd (resolveDir side d a)"]
    by (auto simp: tree_inv_def same_frame_def)
next
  case (2 a n)
  then show ?case using placementOf_ok [of side a gone n "fst (placementOf side n a)" "snd (placementOf side n a)"]
    by (auto simp: tree_inv_def)
qed

lemma tree_inv_new: "1 \<le> depth \<Longrightarrow> tree_inv side db depth 0 {} (newAncestry db depth cap)"
  by (auto simp: tree_inv_def newAncestry_def newProjCache_def newFileLRU_def cache_ok_def tree_ok_def files_ok_def memo_get_def)

subsection \<open>Properties\<close>

lemma placeUnit_placed:
  assumes "tree_inv side db depth deriv gone a" and "placeUnit quote side p u ue f md (a, ul) = (Inr locs, a', ul')"
  shows "stored_tree.placed_ok gone side db depth deriv md p ue f locs \<and> tree_inv side db depth deriv gone a'"
proof -
  have "pok (tree_inv side db depth deriv gone) (placeUnit quote side p u ue f md) (stored_tree.placed_ok gone side db depth deriv md p ue f)"
    by (rule stored_tree.placeUnit_places)
  from this [unfolded pok_def, rule_format, of "(a, ul)"] assms show ?thesis by simp
qed

lemmas placed_ok_unfold = stored_tree.placed_ok_def stored_tree.anchored_def stored_tree.inode_ok_def stored_tree.housed_def


text \<open>A change of the attributes of project directory 7.\<close>

definition chmod_facts :: unit_facts where
  "chmod_facts = no_facts\<lparr>f_inodes := [7], f_why := [(7, ''SET i7'')],
     f_setAttr := [(7, \<lparr>a_typ = 2, a_parent = 5\<rparr>)], f_touched := [7]\<rparr>"

definition plain_env :: unit_env where
  "plain_env = \<lparr>v_person = None, v_unassigned = False, v_inodeOwner = None, v_inodeMark = None, v_beforeSide = None,
     v_connID = 3, v_upstreamName = ''p:ann:3''\<rparr>"

lemma sample_attrs:
  "getAttr sample_side 1 7 = Inr (Some \<lparr>a_typ = 2, a_parent = 5\<rparr>)"
  "getAttr sample_side 1 5 = Inr (Some \<lparr>a_typ = 2, a_parent = 1\<rparr>)"
proof -
  have "parseAttr (dir_attr (CHR 0x05)) = Some \<lparr>a_typ = 2, a_parent = 5\<rparr>"
    "parseAttr (dir_attr (CHR 0x01)) = Some \<lparr>a_typ = 2, a_parent = 1\<rparr>" by code_simp+
  then show "getAttr sample_side 1 7 = Inr (Some \<lparr>a_typ = 2, a_parent = 5\<rparr>)"
    "getAttr sample_side 1 5 = Inr (Some \<lparr>a_typ = 2, a_parent = 1\<rparr>)"
    by (simp_all add: getAttr_def sample_side_def side_do_def v_err_def)
qed

lemma sample_locate: "locate (dir_parent sample_side 1) 2 0 7 = Inr (proj_loc 0 7 2)"
  by (simp add: locate_def walk.simps dir_parent_def sample_attrs isTrashIno_def TrashInode_def rootIno_def typeDir_def)

lemma sample_small: "\<not> isTrashIno 7" "\<not> isTrashIno 5" "(7 :: nat) \<noteq> rootIno"
  by (simp_all add: isTrashIno_def TrashInode_def rootIno_def)

lemma sample_place:
  assumes "tree_inv sample_side 1 2 0 {} a"
  shows "\<exists>a'. placeUnit quote sample_side p u ue chmod_facts md (a, ul) = (Inr [proj_loc 0 7 2], a', ul) \<and>
    tree_inv sample_side 1 2 0 {} a'"
proof -
  obtain r1 a1 where p1: "placementOf sample_side 7 a = (r1, a1)" by force
  have r1: "r1 = Inr \<lparr>pl_exists = True, pl_isDir = True, pl_parent = 5, pl_parents = [5]\<rparr>" "tree_inv sample_side 1 2 0 {} a1"
    using stored_tree.place [OF assms, of 7] p1 sample_small(3) by (simp_all add: stored_place_def sample_attrs typeDir_def)
  obtain r2 a2 where p2: "resolveDir sample_side 7 a1 = (r2, a2)" by force
  have r2: "r2 = Inr (proj_loc 0 7 2)" "tree_inv sample_side 1 2 0 {} a2"
    using stored_tree.resolve [OF r1(2), of 7] p2 sample_locate by simp_all
  have "placeUnit quote sample_side p u ue chmod_facts md (a, ul) = (Inr [proj_loc 0 7 2], a2, ul)"
    by (simp add: placeUnit_def chmod_facts_def no_facts_def pbind_def pguard_def pret_def place_start_def note_ino_def place_stored_def
        sample_small ptry_def p1 r1(1) place_inode_def stored_at_def place_kept_def locsOf_def p2 r2(1) slice_at_def nonTrash_def
        place_moved_def parent_change_def proj_loc_def Let_def)
  with r2(2) show ?thesis by blast
qed


end
