(* ===== verification/Grant_Props.thy ===== *)
theory Grant_Props
  imports Grants Placement_Props
begin

section \<open>What the check of grants lets through\<close>

text \<open>
  \<open>within par g d\<close> is the meaning of a grant: \<open>d\<close> lies in or below one of the directories \<open>g\<close> by the stored
  parents, the volume root excepted.  The check needs one lookup more than placing, the parent of a
  directory; the locale \<open>grant_reader\<close> adds it to the contract of the tree.
\<close>

inductive within :: "(nat \<Rightarrow> string + nat) \<Rightarrow> nat list \<Rightarrow> nat \<Rightarrow> bool" for par g where
  here: "d \<noteq> rootIno \<Longrightarrow> d \<in> set g \<Longrightarrow> within par g d"
| above: "d \<noteq> rootIno \<Longrightarrow> par d = Inr q \<Longrightarrow> within par g q \<Longrightarrow> within par g d"

inductive_cases withinE: "within par g d"

lemma not_within_root: "\<not> within par g rootIno"
  by (auto elim: withinE)

lemma within_par: "d \<noteq> rootIno \<Longrightarrow> d \<notin> set g \<Longrightarrow> par d = Inr q \<Longrightarrow> within par g d \<longleftrightarrow> within par g q"
  by (auto elim: withinE intro: within.intros)

text \<open>A directory of a granted project is granted.\<close>

lemma walk_within:
  assumes "walk par chain = Inr (Some c)" and "chain \<noteq> []"
    and "\<And>i. 0 < i \<Longrightarrow> i < length chain \<Longrightarrow> chain ! i \<noteq> rootIno \<and> par (chain ! i) = Inr (chain ! (i - 1))"
  shows "\<forall>i. 0 < i \<longrightarrow> i < length c \<longrightarrow> c ! i \<noteq> rootIno \<and> par (c ! i) = Inr (c ! (i - 1))"
  using assms
proof (induction par chain rule: walk.induct)
  case (1 par chain)
  show ?case
  proof (cases "hd chain = rootIno")
    case True
    with "1.prems" show ?thesis by (simp add: walk.simps)
  next
    case False
    from "1.prems"(1) False obtain p where p: "\<not> 4096 < length chain" "par (hd chain) = Inr p" "\<not> isTrashIno p"
      "walk par (p # chain) = Inr (Some c)"
      by (subst (asm) walk.simps) (auto split: if_split_asm sum.split_asm)
    show ?thesis
    proof (rule "1.IH" [OF False p(1-4)])
      fix i assume i: "0 < i" "i < length (p # chain)"
      show "(p # chain) ! i \<noteq> rootIno \<and> par ((p # chain) ! i) = Inr ((p # chain) ! (i - 1))"
      proof (cases "i = 1")
        case True
        with False p(2) "1.prems"(2) show ?thesis by (simp add: hd_conv_nth)
      next
        case False
        with i "1.prems"(3) [of "i - 1"] show ?thesis by (simp add: nth_Cons')
      qed
    qed simp
  qed
qed

lemma within_climb:
  assumes "\<forall>i. 0 < i \<longrightarrow> i < length c \<longrightarrow> c ! i \<noteq> rootIno \<and> par (c ! i) = Inr (c ! (i - 1))"
    and "within par g (c ! k)" and "k + n < length c"
  shows "within par g (c ! (k + n))"
  using assms(3)
proof (induction n)
  case (Suc n)
  then show ?case using assms(1) [rule_format, of "k + Suc n"] by (auto intro: within.above)
qed (use assms(2) in simp)

lemma walk_last: "walk par chain = Inr (Some c) \<Longrightarrow> chain \<noteq> [] \<Longrightarrow> last c = last chain \<and> length chain \<le> length c"
proof (induction par chain rule: walk.induct)
  case (1 par chain)
  from "1.prems"(1) consider "c = chain" | p where "hd chain \<noteq> rootIno" "\<not> 4096 < length chain" "par (hd chain) = Inr p"
      "\<not> isTrashIno p" "walk par (p # chain) = Inr (Some c)"
    by (subst (asm) walk.simps) (auto split: if_split_asm sum.split_asm)
  then show ?case using "1.IH" "1.prems"(2) by cases (simp, fastforce)
qed

lemma project_within:
  assumes "locate par depth deriv d = Inr l" and "loc_kind l = NsProject" and "within par g (loc_proj l)"
  shows "within par g d"
proof -
  from assms(1,2) obtain c where c: "walk par [d] = Inr (Some c)" "depth \<le> length c - 1" "loc_proj l = c ! depth"
    by (auto simp: locate_def trash_loc_def root_loc_def proj_loc_def split: if_split_asm sum.split_asm option.split_asm)
  have path: "\<forall>i. 0 < i \<longrightarrow> i < length c \<longrightarrow> c ! i \<noteq> rootIno \<and> par (c ! i) = Inr (c ! (i - 1))"
    by (rule walk_within [OF c(1)]) simp_all
  from walk_last [OF c(1)] have l: "last c = d" "1 \<le> length c" by simp_all
  then have "c \<noteq> []" by auto
  with l have "d = c ! (depth + (length c - 1 - depth))" using c(2) by (simp add: last_conv_nth)
  then show ?thesis using within_climb [OF path, of g depth "length c - 1 - depth"] assms(3) c(2,3) l(2) by simp
qed


subsection \<open>The check over a tree\<close>

locale grant_reader = tree_reader +
  fixes par :: "nat \<Rightarrow> string + nat"
  assumes parent: "Inv a \<Longrightarrow> d \<noteq> rootIno \<Longrightarrow>
      (live d \<longrightarrow> fst (parentOfDir side d a) = par d \<and> (\<forall>q. par d = Inr q \<longrightarrow> live q)) \<and> Inv (snd (parentOfDir side d a))"
begin

lemma covered_f_ok:
  assumes "Inv a"
  shows "Inv (snd (covered_f n side g d a)) \<and>
    (live d \<longrightarrow> (\<forall>b. fst (covered_f n side g d a) = Inr b \<longrightarrow> b = within par g d))"
  using assms
proof (induction n arbitrary: d a)
  case (Suc n)
  obtain r a1 where r: "parentOfDir side d a = (r, a1)" by force
  show ?case
  proof (cases "d = rootIno \<or> d \<in> set g")
    case True
    with Suc.prems show ?thesis by (auto simp: not_within_root intro: within.here)
  next
    case False
    then have i: "Inv a1" "live d \<longrightarrow> r = par d \<and> (\<forall>q. par d = Inr q \<longrightarrow> live q)"
      using parent [OF Suc.prems, of d] r by simp_all
    show ?thesis
    proof (cases r)
      case (Inl e)
      with r have "parentOfDir side d a = (Inl e, a1)" by simp
      with False i(1) show ?thesis by simp
    next
      case (Inr q)
      with False i(2) have "live d \<Longrightarrow> live q \<and> (within par g d \<longleftrightarrow> within par g q)"
        by (auto simp: within_par)
      moreover from r Inr have "parentOfDir side d a = (Inr q, a1)" by simp
      ultimately show ?thesis using False Suc.IH [OF i(1), of q] by auto
    qed
  qed
qed simp

definition grants :: "nat list \<Rightarrow> nat \<Rightarrow> bool" where
  "grants g d \<longleftrightarrow> (live d \<longrightarrow> within par g d)"

lemma dirCovered_ok: "pok Inv (dirCovered side pe p g d what) (\<lambda>_. grants g d)"
  unfolding dirCovered_def
proof (rule pok_bind [where P = "\<lambda>r. r = Inr True \<longrightarrow> grants g d"])
  show "pok Inv (ptry (covered side g d)) (\<lambda>r. r = Inr True \<longrightarrow> grants g d)"
    by (rule pok_try) (use covered_f_ok in \<open>auto simp: covered_def grants_def\<close>)
  show "pok Inv (\<lambda>st. (case r of
        Inl e \<Rightarrow> pfail (not_granted pe p d (''cannot resolve directory '' @ inoStr d @ '': '' @ e))
      | Inr True \<Rightarrow> pret ()
      | Inr False \<Rightarrow>
          let lbl = label (fst st) d in
          pfail (not_granted pe p d (what @ (if lbl \<noteq> [] then '' ('' @ lbl @ '')'' else []) @ '' is not granted''))) st)
      (\<lambda>_. grants g d)" if "r = Inr True \<longrightarrow> grants g d" for r :: "string + bool"
    using that by (auto simp: pok_def pret_def pfail_def Let_def split: sum.split bool.split)
qed

definition scope_ok :: "nat list \<Rightarrow> location \<Rightarrow> bool" where
  "scope_ok g l \<longleftrightarrow> (case loc_kind l of NsDerivatives \<Rightarrow> True | NsProject \<Rightarrow> grants g (loc_proj l)
     | NsRoot \<Rightarrow> grants g (loc_dir l) | _ \<Rightarrow> False)"

lemma scope_place: "pok Inv (scope side pe p g l) (\<lambda>_. scope_ok g l)"
  by (cases "loc_kind l") (simp_all add: scope_def scope_ok_def pok_pret pok_pfail dirCovered_ok)

lemma pall_ok:
  assumes "\<And>x. x \<in> set xs \<Longrightarrow> pok Inv (f x) (\<lambda>_. R x)"
  shows "pok Inv (pall f xs) (\<lambda>_. \<forall>x \<in> set xs. R x)"
  unfolding pall_def
  by (rule pok_weaken [OF pok_fold [where P = "\<lambda>_. True" and R = "\<lambda>x _. R x" and ext = "\<lambda>_ _. True"]])
    (use assms in auto)

definition quota_ok :: "nat list \<Rightarrow> nat \<Rightarrow> bool" where
  "quota_ok g d \<longleftrightarrow> (live d \<longrightarrow> (\<exists>l. loc_of d = Inr l \<and> (if loc_kind l = NsRoot then grants g d else scope_ok g l)))"

lemma quota_covered_ok: "pok Inv (quota_covered side pe p g d) (\<lambda>_. quota_ok g d)"
  unfolding quota_covered_def
proof (rule pok_bind [OF pok_resolve])
  fix r assume r: "live d \<longrightarrow> r = loc_of d"
  show "pok Inv (case r of
        Inl e \<Rightarrow> pfail (not_granted pe p 0 (''quota row of an unresolvable directory '' @ inoStr d))
      | Inr loc \<Rightarrow> if loc_kind loc = NsRoot then dirCovered side pe p g d (''the quota of folder '' @ inoStr d)
                  else scope side pe p g loc) (\<lambda>_. quota_ok g d)"
  proof (cases r)
    case (Inl e)
    then show ?thesis by (simp add: pok_pfail)
  next
    case (Inr l)
    have "pok Inv (if loc_kind l = NsRoot then dirCovered side pe p g d (''the quota of folder '' @ inoStr d) else scope side pe p g l)
        (\<lambda>_. if loc_kind l = NsRoot then grants g d else scope_ok g l)"
      by (simp add: dirCovered_ok scope_place)
    then show ?thesis unfolding Inr sum.case
      by (rule pok_weaken) (use r Inr in \<open>unfold quota_ok_def, metis\<close>)
  qed
qed

definition row_ok :: "nat list \<Rightarrow> nat list \<Rightarrow> stat_row \<Rightarrow> bool" where
  "row_ok g own r \<longleftrightarrow> row_gc r \<or> sr_dir r \<in> set own \<or> (live (sr_dir r) \<longrightarrow> (\<exists>l. loc_of (sr_dir r) = Inr l \<and>
     (if loc_kind l = NsRoot then quotaUsage r \<longrightarrow> grants g (sr_dir r) else scope_ok g l)))"

lemma row_covered_ok: "pok Inv (row_covered side pe p g own r) (\<lambda>_. row_ok g own r)"
proof (cases "row_gc r \<or> sr_dir r \<in> set own")
  case True
  then show ?thesis by (auto simp: row_covered_def row_ok_def pok_pret)
next
  case False
  then have eq: "row_covered side pe p g own r = pbind (ptry (resolveDir side (sr_dir r))) (\<lambda>x.
          case x of
            Inl e \<Rightarrow> pfail (not_granted pe p 0 (sr_hash r @ '' row of an unresolvable directory '' @ inoStr (sr_dir r)))
          | Inr loc \<Rightarrow>
              if loc_kind loc \<noteq> NsRoot then scope side pe p g loc
              else if \<not> quotaUsage r then pret ()
              else dirCovered side pe p g (sr_dir r)
                (''the quota usage ('' @ sr_hash r @ '') of folder '' @ inoStr (sr_dir r)))"
    unfolding row_covered_def by (rule if_not_P)
  show ?thesis unfolding eq
  proof (rule pok_bind [OF pok_resolve])
    fix x assume x: "live (sr_dir r) \<longrightarrow> x = loc_of (sr_dir r)"
    show "pok Inv (case x of
            Inl e \<Rightarrow> pfail (not_granted pe p 0 (sr_hash r @ '' row of an unresolvable directory '' @ inoStr (sr_dir r)))
          | Inr loc \<Rightarrow>
              if loc_kind loc \<noteq> NsRoot then scope side pe p g loc
              else if \<not> quotaUsage r then pret ()
              else dirCovered side pe p g (sr_dir r)
                (''the quota usage ('' @ sr_hash r @ '') of folder '' @ inoStr (sr_dir r))) (\<lambda>_. row_ok g own r)"
    proof (cases x)
      case (Inl e)
      then show ?thesis by (simp add: pok_pfail)
    next
      case (Inr l)
      have "pok Inv (if loc_kind l \<noteq> NsRoot then scope side pe p g l
              else if \<not> quotaUsage r then pret ()
              else dirCovered side pe p g (sr_dir r)
                (''the quota usage ('' @ sr_hash r @ '') of folder '' @ inoStr (sr_dir r)))
          (\<lambda>_. if loc_kind l = NsRoot then quotaUsage r \<longrightarrow> grants g (sr_dir r) else scope_ok g l)"
        by (simp add: dirCovered_ok scope_place pok_pret)
      then show ?thesis unfolding Inr sum.case
        by (rule pok_weaken) (use x Inr in \<open>unfold row_ok_def, metis\<close>)
    qed
  qed
qed

definition restore_ok :: "nat list \<Rightarrow> dentry_op \<Rightarrow> bool" where
  "restore_ok g op \<longleftrightarrow> (op_trash op \<and> op_del op \<longrightarrow> (\<exists>q. trashEntryParent (op_name op) = Some q \<and> grants g q))"

lemma restore_covered_ok: "pok Inv (restore_covered quote side pe p g op) (\<lambda>_. restore_ok g op)"
  by (auto simp: restore_covered_def restore_ok_def pok_pret pok_pfail dirCovered_ok split: option.split)

lemma grant_place_ok: "pok Inv m Q \<Longrightarrow> pok Inv (grant_place pe p m) Q"
  unfolding pok_def
proof (intro allI impI)
  fix st :: place_st assume m: "\<forall>st. Inv (fst st) \<longrightarrow> Inv (fst (snd (m st))) \<and> (\<forall>x. fst (m st) = Inr x \<longrightarrow> Q x)" and i: "Inv (fst st)"
  obtain r st1 where eq: "m st = (r, st1)" by (rule prod.exhaust)
  with m i have "Inv (fst st1)" "\<forall>x. r = Inr x \<longrightarrow> Q x" by (metis fst_conv snd_conv)+
  with eq show "Inv (fst (snd (grant_place pe p m st))) \<and> (\<forall>x. fst (grant_place pe p m st) = Inr x \<longrightarrow> Q x)"
    by (cases r) (simp_all add: grant_place_def)
qed

text \<open>All that the check of a unit establishes.\<close>

definition granted_ok :: "principal \<Rightarrow> unit_env \<Rightarrow> unit_facts \<Rightarrow> nat list \<Rightarrow> bool" where
  "granted_ok p ue f g \<longleftrightarrow> (\<forall>d \<in> set (f_quota f). quota_ok g d) \<and> (\<forall>r \<in> set (f_statRows f). row_ok g (f_inodes f) r) \<and>
     (\<not> dirStatOnly f \<longrightarrow> (\<exists>locs. placed_ok PlaceGrant p ue f locs \<and> (\<forall>l \<in> set locs. scope_ok g l)) \<and>
        (\<forall>op \<in> set (f_dentries f). restore_ok g op))"

lemma grant_unit_ok: "pok Inv (grant_unit quote side p pe u ue f g) (\<lambda>_. granted_ok p ue f g)"
  unfolding grant_unit_def
proof (rule pok_bind [OF pall_ok [OF quota_covered_ok]], rule pok_bind [OF pall_ok [OF row_covered_ok]])
  assume q: "\<forall>d \<in> set (f_quota f). quota_ok g d" "\<forall>r \<in> set (f_statRows f). row_ok g (f_inodes f) r"
  show "pok Inv (if dirStatOnly f then pret () else pbind (grant_place pe p (placeUnit quote side p u ue f PlaceGrant)) (\<lambda>locs.
       pbind (pall (scope side pe p g) locs) (\<lambda>_. pall (restore_covered quote side pe p g) (f_dentries f))))
     (\<lambda>_. granted_ok p ue f g)"
  proof (cases "dirStatOnly f")
    case True
    with q show ?thesis by (simp add: pok_pret granted_ok_def)
  next
    case False
    have "pok Inv (pbind (grant_place pe p (placeUnit quote side p u ue f PlaceGrant)) (\<lambda>locs.
       pbind (pall (scope side pe p g) locs) (\<lambda>_. pall (restore_covered quote side pe p g) (f_dentries f))))
     (\<lambda>_. granted_ok p ue f g)"
    proof (rule pok_bind [OF grant_place_ok [OF placeUnit_places]], rule pok_bind [OF pall_ok [OF scope_place]],
        rule pok_weaken [OF pall_ok [OF restore_covered_ok]])
      fix locs assume "placed_ok PlaceGrant p ue f locs" "\<forall>l \<in> set locs. scope_ok g l" "\<forall>op \<in> set (f_dentries f). restore_ok g op"
      with q show "granted_ok p ue f g" by (auto simp: granted_ok_def)
    qed
    with False show ?thesis by simp
  qed
qed

end

interpretation stored_grants: grant_reader side "tree_inv side db depth deriv gone" "\<lambda>d. d \<notin> gone"
    "locate (dir_parent side db) depth deriv" "stored_place side db" "dir_parent side db" for side db depth deriv gone
proof (unfold_locales, goal_cases)
  case (1 a d)
  then show ?case using parentOfDir_ok [of side a gone d "fst (parentOfDir side d a)" "snd (parentOfDir side d a)"]
    by (auto simp: tree_inv_def tree_ok_def same_frame_def eff_def)
qed


subsection \<open>The granted directories\<close>

text \<open>What the cache of granted directories may say for the key it carries.\<close>

definition grants_cached :: "side \<Rightarrow> ancestry \<Rightarrow> grant_cache \<Rightarrow> bool" where
  "grants_cached side a gc \<longleftrightarrow> (\<forall>ds. gc_dirs gc = Some ds \<longrightarrow> gc_key gc = (pc_gen (an_memo a), gc_epoch gc) \<longrightarrow>
     (\<forall>g ino. map_of ds g = Some ino \<longrightarrow> lookupPath side (an_db a) g = Inr ino))"

lemma lookup_missing_ok:
  assumes "lookup_missing side db gs m out = (r, m')" and "\<forall>g ino. map_of m g = Some ino \<longrightarrow> lookupPath side db g = Inr ino"
  shows "(\<forall>g ino. map_of m' g = Some ino \<longrightarrow> lookupPath side db g = Inr ino) \<and>
    (\<forall>xs. r = Inr xs \<longrightarrow> set xs = set out \<union> {ino. ino \<noteq> 0 \<and> (\<exists>g \<in> set gs. lookupPath side db g = Inr ino)})"
  using assms
proof (induction side db gs m out rule: lookup_missing.induct)
  case (2 side db g gs m out)
  show ?case
  proof (cases "lookupPath side db g")
    case (Inl e)
    with "2.prems" show ?thesis by auto
  next
    case (Inr ino)
    have "\<forall>g' i. map_of (AList.update g ino m) g' = Some i \<longrightarrow> lookupPath side db g' = Inr i"
      using "2.prems"(2) Inr by (simp add: update_conv')
    moreover from "2.prems"(1) Inr
    have "lookup_missing side db gs (AList.update g ino m) (if ino \<noteq> 0 then ino # out else out) = (r, m')" by simp
    ultimately have "(\<forall>g ino. map_of m' g = Some ino \<longrightarrow> lookupPath side db g = Inr ino) \<and>
        (\<forall>xs. r = Inr xs \<longrightarrow> set xs = set (if ino \<noteq> 0 then ino # out else out) \<union>
           {ino. ino \<noteq> 0 \<and> (\<exists>g \<in> set gs. lookupPath side db g = Inr ino)})"
      using "2.IH" [OF Inr] by blast
    moreover have "set (if ino \<noteq> 0 then ino # out else out) \<union> {ino. ino \<noteq> 0 \<and> (\<exists>g \<in> set gs. lookupPath side db g = Inr ino)} =
        set out \<union> {ino. ino \<noteq> 0 \<and> (\<exists>g \<in> set (g # gs). lookupPath side db g = Inr ino)}"
      using Inr by (cases "ino = 0") auto
    ultimately show ?thesis by simp
  qed
qed auto

lemma grantedDirs_ok:
  assumes "grants_cached side a gc" and "grantedDirs side grants a gc = (r, gc')"
  shows "grants_cached side a gc' \<and>
    (\<forall>xs. r = Inr xs \<longrightarrow> set xs = {ino. ino \<noteq> 0 \<and> (\<exists>g \<in> set grants. lookupPath side (an_db a) g = Inr ino)})"
proof -
  define m where "m = (case gc_dirs gc of Some ds \<Rightarrow> if gc_key gc = (pc_gen (an_memo a), gc_epoch gc) then ds else [] | None \<Rightarrow> [])"
  have m: "\<forall>g ino. map_of m g = Some ino \<longrightarrow> lookupPath side (an_db a) g = Inr ino"
    using assms(1) by (auto simp: m_def grants_cached_def split: option.split if_split_asm)
  let ?cached = "filter (\<lambda>ino. ino \<noteq> 0) (List.map_filter (map_of m) grants)"
  let ?missing = "filter (\<lambda>g. map_of m g = None) grants"
  obtain r1 m' where l: "lookup_missing side (an_db a) ?missing m ?cached = (r1, m')" by force
  have "set ?cached = {ino. ino \<noteq> 0 \<and> (\<exists>g \<in> set grants. map_of m g = Some ino)}"
    by (force simp: List.map_filter_def)
  then have "set ?cached \<union> {ino. ino \<noteq> 0 \<and> (\<exists>g \<in> set ?missing. lookupPath side (an_db a) g = Inr ino)} =
      {ino. ino \<noteq> 0 \<and> (\<exists>g \<in> set grants. lookupPath side (an_db a) g = Inr ino)}"
    using m by (auto simp: not_None_eq) (metis option.exhaust sum.inject(2))+
  moreover have "r = r1" "gc' = gc\<lparr>gc_key := (pc_gen (an_memo a), gc_epoch gc), gc_dirs := Some m'\<rparr>"
    using assms(2) l by (simp_all add: grantedDirs_def m_def [symmetric] Let_def)
  ultimately show ?thesis using lookup_missing_ok [OF l m] by (simp add: grants_cached_def)
qed


subsection \<open>Properties\<close>

lemma project_live:
  assumes "tree_ok par gone" and "locate par depth deriv d = Inr l" and "loc_kind l = NsProject" and "d \<notin> gone"
  shows "loc_proj l \<notin> gone"
proof -
  from assms(2,3) obtain c where c: "walk par [d] = Inr (Some c)" "depth \<le> length c - 1" "loc_proj l = c ! depth"
    by (auto simp: locate_def trash_loc_def root_loc_def proj_loc_def split: if_split_asm sum.split_asm option.split_asm)
  have path: "\<forall>i. 0 < i \<longrightarrow> i < length c \<longrightarrow> c ! i \<noteq> rootIno \<and> par (c ! i) = Inr (c ! (i - 1))"
    by (rule walk_within [OF c(1)]) simp_all
  from walk_last [OF c(1)] have l: "last c = d" "c \<noteq> []" by auto
  have up: "c ! (length c - 1 - n) \<notin> gone" if "n \<le> length c - 1" for n
    using that
  proof (induction n)
    case 0
    with l assms(4) show ?case by (simp add: last_conv_nth)
  next
    case (Suc n)
    then have "par (c ! (length c - 1 - n)) = Inr (c ! (length c - 1 - Suc n))"
      using path [rule_format, of "length c - 1 - n"] by simp
    with Suc assms(1) show ?case by (auto simp: tree_ok_def)
  qed
  have "c ! (length c - 1 - (length c - 1 - depth)) \<notin> gone" by (rule up) simp
  moreover have "length c - 1 - (length c - 1 - depth) = depth" using c(2) by simp
  ultimately show ?thesis using c(3) by simp
qed

text \<open>The scope of a location that a directory in use has.\<close>

lemma scope_within:
  assumes "tree_inv side db depth deriv gone a" and "stored_grants.scope_ok gone side db g l"
    and "locate (dir_parent side db) depth deriv d = Inr l" and "d \<notin> gone"
  shows "loc_kind l = NsDerivatives \<or> within (dir_parent side db) g d"
proof (cases "loc_kind l")
  case NsProject
  have "loc_proj l \<notin> gone" using assms(1) project_live [OF _ assms(3) NsProject assms(4)] by (auto simp: tree_inv_def)
  with assms(2) NsProject have "within (dir_parent side db) g (loc_proj l)"
    by (simp add: stored_grants.scope_ok_def stored_grants.grants_def)
  then show ?thesis using project_within [OF assms(3) NsProject] by simp
next
  case NsRoot
  with assms(3) have "loc_dir l = d"
    by (auto simp: locate_def trash_loc_def root_loc_def proj_loc_def split: if_split_asm sum.split_asm option.split_asm)
  with assms(2,4) NsRoot show ?thesis by (simp add: stored_grants.scope_ok_def stored_grants.grants_def)
qed (use assms(2) in \<open>simp_all add: stored_grants.scope_ok_def\<close>)

lemma grantCheck_granted:
  assumes "tree_inv side db depth deriv gone a" and "grants_cached side a gc"
    and "grantCheck quote side p u ue f ((a, ul), gc) = (None, (a', ul'), gc')"
  shows "tree_inv side db depth deriv gone a' \<and> (\<exists>pe g. v_person ue = Some pe \<and>
    set g = {ino. ino \<noteq> 0 \<and> (\<exists>path \<in> set (pe_grants pe). lookupPath side db path = Inr ino)} \<and>
    stored_grants.granted_ok gone side db depth deriv p ue f g)"
proof -
  from assms(3) obtain pe where pe: "v_person ue = Some pe" by (auto simp: grantCheck_def split: option.split_asm)
  obtain r gc1 where g: "grantedDirs side (pe_grants pe) a gc = (r, gc1)" by force
  from assms(3) pe g obtain gs where r: "r = Inr gs" by (cases r) (auto simp: grantCheck_def split: if_split_asm)
  have "grant_unit quote side p pe u ue f gs (a, ul) = (Inr (), a', ul')"
    using assms(3) pe g r by (auto simp: grantCheck_def split: if_split_asm sum.split_asm prod.split_asm)
  with stored_grants.grant_unit_ok [of side db depth deriv gone quote p pe u ue f gs, unfolded pok_def, rule_format, of "(a, ul)"]
    assms(1) have "tree_inv side db depth deriv gone a'" "stored_grants.granted_ok gone side db depth deriv p ue f gs" by simp_all
  moreover have "an_db a = db" using assms(1) by (simp add: tree_inv_def)
  ultimately show ?thesis using grantedDirs_ok [OF assms(2) g] r pe by auto
qed

text \<open>C7: A writer under grants writes only below granted folders.  When \<^verbatim>\<open>grantCheck\<close> lets a unit through,
  its person has granted directories, exactly those the grant paths lead to, and every directory in use
  whose entries the unit sets or removes outside the trash lies in or below one of them (or in the
  derivatives tree); so does every stored directory whose keys it writes, and every parent in a project
  of a stored file it writes; an entry taken out of the trash came from a granted directory.\<close>

theorem granted_write_is_covered:
  assumes "tree_inv side db depth deriv gone a" and "grants_cached side a gc"
    and "grantCheck quote side p u ue f ((a, ul), gc) = (None, (a', ul'), gc')" and "\<not> dirStatOnly f"
  shows "\<exists>pe g. v_person ue = Some pe \<and>
    set g = {ino. ino \<noteq> 0 \<and> (\<exists>path \<in> set (pe_grants pe). lookupPath side db path = Inr ino)} \<and>
    (\<forall>op \<in> set (f_dentries f). \<not> op_trash op \<and> op_dir op \<notin> gone \<longrightarrow> (\<exists>l. locate (dir_parent side db) depth deriv (op_dir op) = Inr l \<and>
       (loc_kind l = NsDerivatives \<or> within (dir_parent side db) g (op_dir op)))) \<and>
    (\<forall>op \<in> set (f_dentries f). op_trash op \<and> op_del op \<longrightarrow> (\<exists>q. trashEntryParent (op_name op) = Some q \<and>
       (q \<in> gone \<or> within (dir_parent side db) g q))) \<and>
    (\<forall>n \<in> set (f_inodes f). \<not> isTrashIno n \<and> n \<notin> gone \<longrightarrow> (\<exists>pl. stored_place side db n = Inr pl \<and>
       (pl_exists pl \<longrightarrow> (\<forall>q \<in> set (pl_parents pl). \<not> isTrashIno q \<longrightarrow>
          (if pl_isDir pl then \<exists>l. locate (dir_parent side db) depth deriv n = Inr l \<and>
             (loc_kind l \<in> {NsTrash, NsDerivatives} \<or> within (dir_parent side db) g n)
           else q \<notin> gone \<longrightarrow> (\<exists>lp. locate (dir_parent side db) depth deriv q = Inr lp \<and>
             (loc_kind lp = NsProject \<longrightarrow> within (dir_parent side db) g q)))))))"
proof -
  obtain pe g where pe: "v_person ue = Some pe" and
    g: "set g = {ino. ino \<noteq> 0 \<and> (\<exists>path \<in> set (pe_grants pe). lookupPath side db path = Inr ino)}" and
    ok: "stored_grants.granted_ok gone side db depth deriv p ue f g"
    using grantCheck_granted [OF assms(1-3)] by blast
  from ok assms(4) obtain locs where locs: "stored_tree.placed_ok gone side db depth deriv PlaceGrant p ue f locs"
    "\<forall>l \<in> set locs. stored_grants.scope_ok gone side db g l" "\<forall>op \<in> set (f_dentries f). stored_grants.restore_ok gone side db g op"
    by (auto simp: stored_grants.granted_ok_def)
  note w = scope_within [OF assms(1) locs(2) [rule_format]]
  have project: "within (dir_parent side db) g q"
    if "covers_project locs (loc_proj lp)" "locate (dir_parent side db) depth deriv q = Inr lp" "loc_kind lp = NsProject" "q \<notin> gone" for q lp
  proof -
    from that(1) obtain l where l: "l \<in> set locs" "loc_kind l = NsProject" "loc_proj l = loc_proj lp" by (auto simp: covers_project_def)
    then have "stored_grants.scope_ok gone side db g lp" using locs(2) that(3) by (auto simp: stored_grants.scope_ok_def)
    from scope_within [OF assms(1) this that(2,4)] that(3) show ?thesis by simp
  qed
  show ?thesis
  proof (intro exI [of _ pe] exI [of _ g] conjI ballI impI pe g, goal_cases)
    case (1 op)
    then show ?case using locs(1) w by (fastforce simp: placed_ok_unfold)
  next
    case (2 op)
    then show ?case using locs(3) by (auto simp: stored_grants.restore_ok_def stored_grants.grants_def)
  next
    case (3 n)
    then obtain pl where pl: "stored_place side db n = Inr pl" "stored_tree.inode_ok gone side db depth deriv PlaceGrant p ue f locs n pl"
      using locs(1) by (auto simp: stored_tree.placed_ok_def)
    show ?case
    proof (intro exI [of _ pl] conjI impI ballI pl(1))
      fix q assume q: "pl_exists pl" "q \<in> set (pl_parents pl)" "\<not> isTrashIno q"
      show "if pl_isDir pl then \<exists>l. locate (dir_parent side db) depth deriv n = Inr l \<and>
             (loc_kind l \<in> {NsTrash, NsDerivatives} \<or> within (dir_parent side db) g n)
           else q \<notin> gone \<longrightarrow> (\<exists>lp. locate (dir_parent side db) depth deriv q = Inr lp \<and>
             (loc_kind lp = NsProject \<longrightarrow> within (dir_parent side db) g q))"
      proof (cases "pl_isDir pl")
        case True
        with pl(2) q 3 obtain l where l: "locate (dir_parent side db) depth deriv n = Inr l" "loc_kind l = NsTrash \<or> l \<in> set locs"
          by (auto simp: placed_ok_unfold)
        with True w [OF _ l(1)] 3 show ?thesis by auto
      next
        case False
        with pl(2) q 3 have "q \<notin> gone \<Longrightarrow> \<exists>lp. locate (dir_parent side db) depth deriv q = Inr lp \<and>
            (loc_kind lp = NsProject \<longrightarrow> covers_project locs (loc_proj lp))"
          by (auto simp: placed_ok_unfold)
        with False project show ?thesis by auto
      qed
    qed
  qed
qed


definition ann_person :: person where
  "ann_person = \<lparr>pe_id = ''ann'', pe_name = ''Ann'', pe_scoped = True, pe_grants = [''/v'']\<rparr>"

lemma sample_granted:
  "lookupPath sample_side 1 ''/v'' = Inr 5" "grants_cached sample_side (newAncestry 1 2 16) \<lparr>gc_epoch = 0, gc_key = (0, 0), gc_dirs = None\<rparr>"
  "\<exists>gc. grantedDirs sample_side [''/v''] (newAncestry 1 2 16) \<lparr>gc_epoch = 0, gc_key = (0, 0), gc_dirs = None\<rparr> = (Inr [5], gc)"
proof -
  have "entryInode (dir_entry (CHR 0x05)) = Some 5" "entryType (dir_entry (CHR 0x05)) = Some 2"
    by (simp_all add: dir_entry_def entryInode_def entryType_def be_value_def)
  then show l: "lookupPath sample_side 1 ''/v'' = Inr 5"
    by (simp add: lookupPath_def entryAt_def side_do_def sample_side_def v_err_def rootIno_def typeDir_def)
  show "grants_cached sample_side (newAncestry 1 2 16) \<lparr>gc_epoch = 0, gc_key = (0, 0), gc_dirs = None\<rparr>"
    by (simp add: grants_cached_def)
  have "an_db (newAncestry 1 2 16) = 1" by (simp add: newAncestry_def)
  with l show "\<exists>gc. grantedDirs sample_side [''/v''] (newAncestry 1 2 16) \<lparr>gc_epoch = 0, gc_key = (0, 0), gc_dirs = None\<rparr> = (Inr [5], gc)"
    by (simp add: grantedDirs_def Let_def List.map_filter_def)
qed

lemma sample_covered:
  assumes "tree_inv sample_side 1 2 0 {} a"
  shows "fst (covered sample_side [5] 7 a) = Inr True"
proof -
  obtain r a1 where p: "parentOfDir sample_side 7 a = (r, a1)" by force
  with stored_grants.parent [OF assms, of 7] sample_small(3) have "r = Inr 5"
    by (simp add: dir_parent_def sample_attrs typeDir_def)
  with p sample_small(3) have "fst (covered_f (Suc (Suc n)) sample_side [5] 7 a) = Inr True" for n by (simp add: rootIno_def)
  from this [of 4094] show ?thesis by (simp add: covered_def)
qed

theorem granted_write_is_covered_witness:
  "\<exists>g. set g = {5} \<and> (\<exists>l. locate (dir_parent sample_side 1) 2 0 7 = Inr l \<and> within (dir_parent sample_side 1) g 7)"
proof -
  let ?p = "\<lparr>p_name = ''ann'', p_kind = KindMac, p_host = []\<rparr>" and ?ue = "plain_env\<lparr>v_person := Some ann_person\<rparr>"
  let ?gc = "\<lparr>gc_epoch = 0, gc_key = (0, 0), gc_dirs = None\<rparr>"
  have i: "tree_inv sample_side 1 2 0 {} (newAncestry 1 2 16)" by (rule tree_inv_new) simp
  obtain gc where g: "grantedDirs sample_side [''/v''] (newAncestry 1 2 16) ?gc = (Inr [5], gc)" using sample_granted(3) by blast
  obtain a1 where a1: "placeUnit id sample_side ?p rmdir_unit ?ue chmod_facts PlaceGrant (newAncestry 1 2 16, []) = (Inr [proj_loc 0 7 2], a1, [])"
    "tree_inv sample_side 1 2 0 {} a1"
    using sample_place [OF i] by blast
  obtain a2 where a2: "covered sample_side [5] 7 a1 = (Inr True, a2)" using sample_covered [OF a1(2)] by (metis prod.collapse)
  have c: "\<not> dirStatOnly chmod_facts" by (simp add: dirStatOnly_def chmod_facts_def no_facts_def)
  have "grant_unit id sample_side ?p ann_person rmdir_unit ?ue chmod_facts [5] (newAncestry 1 2 16, []) = (Inr (), a2, [])"
    using c a1(1) a2 by (simp add: grant_unit_def pall_def pbind_def pret_def grant_place_def scope_def proj_loc_def dirCovered_def ptry_def
        chmod_facts_def no_facts_def)
  then have "grantCheck id sample_side ?p rmdir_unit ?ue chmod_facts ((newAncestry 1 2 16, []), ?gc) = (None, (a2, []), gc)"
    using g by (simp add: grantCheck_def ann_person_def chmod_facts_def no_facts_def)
  from granted_write_is_covered [OF i sample_granted(2) this c] obtain pe g where pe: "v_person ?ue = Some pe" and
    g: "set g = {ino. ino \<noteq> 0 \<and> (\<exists>path \<in> set (pe_grants pe). lookupPath sample_side 1 path = Inr ino)}" and
    w: "\<forall>n \<in> set (f_inodes chmod_facts). \<not> isTrashIno n \<and> n \<notin> {} \<longrightarrow> (\<exists>pl. stored_place sample_side 1 n = Inr pl \<and>
       (pl_exists pl \<longrightarrow> (\<forall>q \<in> set (pl_parents pl). \<not> isTrashIno q \<longrightarrow>
          (if pl_isDir pl then \<exists>l. locate (dir_parent sample_side 1) 2 0 n = Inr l \<and>
             (loc_kind l \<in> {NsTrash, NsDerivatives} \<or> within (dir_parent sample_side 1) g n)
           else q \<notin> {} \<longrightarrow> (\<exists>lp. locate (dir_parent sample_side 1) 2 0 q = Inr lp \<and>
             (loc_kind lp = NsProject \<longrightarrow> within (dir_parent sample_side 1) g q))))))"
    by (elim exE conjE) blast
  from pe have "pe_grants pe = [''/v'']" by (auto simp: ann_person_def)
  moreover have "{ino. ino \<noteq> 0 \<and> (\<exists>path \<in> set [''/v'']. lookupPath sample_side 1 path = Inr ino)} = {5}"
    by (auto simp: sample_granted(1))
  ultimately have "set g = {5}" using g by (simp only:)
  moreover have "stored_place sample_side 1 7 = Inr \<lparr>pl_exists = True, pl_isDir = True, pl_parent = 5, pl_parents = [5]\<rparr>"
    using sample_small(3) by (simp add: stored_place_def sample_attrs typeDir_def)
  then have "within (dir_parent sample_side 1) g 7"
    using w [THEN bspec, of 7] sample_small(1,2) by (simp add: chmod_facts_def sample_locate proj_loc_def)
  ultimately show ?thesis using sample_locate by blast
qed

end
