(* ===== verification/Lease_Props.thy ===== *)
theory Lease_Props
  imports Leases
begin

section \<open>What the lease table guarantees\<close>

text \<open>
  The operations that change a lease run one at a time per project, under its fence; \<open>lease_step\<close> is
  any of them, with any clock and any behaviour of the network.  \<open>table_ok\<close> is the agreement of the
  table with Redis: a project the table does not know has no record in Redis, and a settled record
  has Redis's holder and epoch.
\<close>

fun record_ok :: "nat \<Rightarrow> lease option \<Rightarrow> lease_keys \<Rightarrow> bool" where
  "record_ok pr None k = keys_free k"
| "record_ok pr (Some l) k = (l_proj l = pr \<and> (\<not> l_unresolved l \<longrightarrow> coherent l k))"

definition table_ok :: "lease_table \<Rightarrow> (nat \<Rightarrow> lease_keys) \<Rightarrow> bool" where
  "table_ok t st \<longleftrightarrow> (\<forall>pr. record_ok pr (lease_at t pr) (st pr))"

inductive lease_step :: "lease_table \<times> (nat \<Rightarrow> lease_keys) \<Rightarrow> lease_table \<times> (nat \<Rightarrow> lease_keys) \<Rightarrow> bool" where
  grant: "grantLocked d now lbl p pr md ttl why t (st pr) = (res, t', k') \<Longrightarrow> lease_step (t, st) (t', st(pr := k'))"
| end_tenure: "endLocked d now pr event actor why t (st pr) = (res, t', k') \<Longrightarrow> lease_step (t, st) (t', st(pr := k'))"
| touched: "lease_step (t, st) (touch now p prs t, st)"
| beaten: "heartbeat now p pending t = (res, t') \<Longrightarrow> lease_step (t, st) (t', st)"
| swept: "lease_step ts (sweep dur now clk ds ts)"
| flushed: "lease_step ts (flushDirty ds ts)"
| configured: "lease_step (t, st) (loadCfg reply t, st)"
| denied: "lease_step (t, st) (logDeny now p d m summary t, st)"

subsection \<open>Single records\<close>

lemma lease_at_put [simp]: "lease_at (put_lease pr l t) x = (if x = pr then Some l else lease_at t x)"
  by (simp add: put_lease_def update_conv')

lemma log_leases [simp]:
  "t_leases (queueLog ent t) = t_leases t" "t_leases (logEvent now ev s a w t) = t_leases t"
  "t_leases (logDeny now p d m su t) = t_leases t" "t_leases (loadCfg r t) = t_leases t"
  by (simp_all add: queueLog_def logEvent_def logDeny_def loadCfg_def Let_def split: sum.split)

lemma table_ok_cong: "t_leases t' = t_leases t \<Longrightarrow> table_ok t' st \<longleftrightarrow> table_ok t st"
  by (simp add: table_ok_def)

lemma table_okD: "table_ok t st \<Longrightarrow> record_ok pr (lease_at t pr) (st pr)"
  by (simp add: table_ok_def)

lemma table_ok_put:
  assumes "table_ok t st" and "record_ok pr (Some l) k"
  shows "table_ok (put_lease pr l t) (st(pr := k))"
  using assms by (simp add: table_ok_def)

lemma coherent_new: "keys_free k \<Longrightarrow> record_ok pr (Some (new_lease pr)) k"
  by (simp add: coherent_def new_lease_def)

lemma leaseLocked_ok:
  assumes "table_ok t st" and "leaseLocked pr t = (l, t1)"
  shows "table_ok t1 st \<and> lease_at t1 pr = Some l \<and> record_ok pr (Some l) (st pr)"
proof (cases "lease_at t pr")
  case None
  with assms(2) have l: "l = new_lease pr" "t1 = put_lease pr (new_lease pr) t" by (auto simp: leaseLocked_def)
  have n: "record_ok pr (Some (new_lease pr)) (st pr)"
    using table_okD [OF assms(1), of pr] None by (intro coherent_new) simp
  from table_ok_put [OF assms(1) n] l n show ?thesis by simp
next
  case (Some x)
  with assms(2) have "l = x" "t1 = t" by (simp_all add: leaseLocked_def)
  with Some assms(1) table_okD [OF assms(1), of pr] show ?thesis by simp
qed

text \<open>The records a grant and an end ask for.\<close>

lemma grant_next_facts:
  assumes "grant_next c now lbl p md ttl l = (op, nx)"
  shows "l_proj nx = l_proj l \<and> l_unresolved nx = l_unresolved l \<and>
    (if held l then op = ''renew'' \<and> l_holder nx = l_holder l else op = ''grant'' \<and> l_holder nx = p_name p)"
  using assms by (auto simp: grant_next_def Let_def split: if_split_asm)

lemma end_next_facts [simp]:
  "l_proj (end_next now l) = l_proj l" "l_holder (end_next now l) = []" "l_unresolved (end_next now l) = l_unresolved l"
  by (simp_all add: end_next_def)

text \<open>A finished transition leaves a settled record that agrees with Redis.\<close>

lemma coherent_after:
  "keys_hold n (l_holder l) k \<Longrightarrow> coherent (l\<lparr>l_epoch := n, l_unresolved := False\<rparr>) k"
  "keys_hold n (l_holder l) k \<Longrightarrow> coherent (l\<lparr>l_epoch := n, l_hist := h, l_unresolved := False\<rparr>) k"
  by (simp_all add: coherent_def keys_hold_def epoch_range_def)

subsection \<open>Every operation keeps the agreement\<close>

text \<open>One project's record before and after an operation on it: how epoch, holder and quarantine move.\<close>

definition tenure :: "lease option \<Rightarrow> nat \<times> string" where
  "tenure ol = (case ol of None \<Rightarrow> (0, []) | Some l \<Rightarrow> (l_epoch l, l_holder l))"

definition stuck :: "lease option \<Rightarrow> bool" where
  "stuck ol \<longleftrightarrow> (case ol of None \<Rightarrow> False | Some l \<Rightarrow> l_unresolved l)"

definition moves :: "lease option \<Rightarrow> lease option \<Rightarrow> bool" where
  "moves a b \<longleftrightarrow> (tenure b = tenure a \<or> fst (tenure a) < fst (tenure b)) \<and>
     (stuck a \<longrightarrow> stuck b \<and> tenure b = tenure a) \<and> (b = None \<longrightarrow> a = None)"

lemma moves_refl [simp]: "moves a a"
  by (simp add: moves_def)

lemma moves_trans: "moves a b \<Longrightarrow> moves b c \<Longrightarrow> moves a c"
  by (auto simp: moves_def)

definition keys_ok :: "lease_keys \<Rightarrow> bool" where
  "keys_ok k \<longleftrightarrow> keys_free k \<or> (\<exists>n h. keys_hold n h k)"

definition keeps :: "lease_table \<Rightarrow> (nat \<Rightarrow> lease_keys) \<Rightarrow> lease_table \<Rightarrow> (nat \<Rightarrow> lease_keys) \<Rightarrow> bool" where
  "keeps t st t' st' \<longleftrightarrow> table_ok t' st' \<and> (\<forall>pr. moves (lease_at t pr) (lease_at t' pr)) \<and>
     (\<forall>pr. keys_ok (st pr) \<longrightarrow> keys_ok (st' pr))"

lemma keepsI:
  "table_ok t' st' \<Longrightarrow> (\<And>pr. moves (lease_at t pr) (lease_at t' pr)) \<Longrightarrow>
   (\<And>pr. keys_ok (st pr) \<Longrightarrow> keys_ok (st' pr)) \<Longrightarrow> keeps t st t' st'"
  by (simp add: keeps_def)

lemma keeps_refl: "table_ok t st \<Longrightarrow> keeps t st t st"
  by (simp add: keeps_def)

lemma keeps_log: "keeps t st t' st' \<Longrightarrow> t_leases t'' = t_leases t' \<Longrightarrow> keeps t st t'' st'"
  by (simp add: keeps_def table_ok_cong [of t''])

lemma leaseLocked_keeps:
  assumes "table_ok t st" and "leaseLocked pr t = (l, t1)"
  shows "keeps t st t1 st"
proof (rule keepsI)
  show "table_ok t1 st" using leaseLocked_ok [OF assms] by blast
  show "moves (lease_at t x) (lease_at t1 x)" for x
    using assms(2) by (cases "lease_at t pr") (auto simp: leaseLocked_def moves_def tenure_def stuck_def new_lease_def split: if_split_asm)
qed simp

lemma coherent_keys_ok: "coherent l k \<Longrightarrow> keys_ok k"
  by (auto simp: coherent_def keys_ok_def split: if_split_asm)

lemma transition_keys_ok:
  assumes "coherent old k" and "op = ''grant'' \<and> l_holder old = [] \<or> op \<in> {''end'', ''renew''} \<and> held old"
    and "transition d op old nx k = (r, k')"
  shows "keys_ok k'"
proof -
  obtain r' k2 where l: "leaseTransitionLua (transition_args op old nx) k = (r', k2)" by force
  have "k2 = k \<or> (\<exists>n. keys_hold n (l_holder nx) k2)"
    using leaseTransitionLua_coherent [OF assms(1) refl assms(2), of nx] l by auto
  moreover have "k' = k \<or> k' = k2"
    using assms(3) l by (auto simp: transition_def split: delivery.split_asm sum.split_asm)
  ultimately show ?thesis using coherent_keys_ok [OF assms(1)] by (auto simp: keys_ok_def)
qed

text \<open>A call on a settled record: what the transition does to the table and to Redis.\<close>

lemma call_keeps:
  assumes ok: "table_ok t st" and l: "lease_at t pr = Some l" "\<not> l_unresolved l"
    and op: "op = ''grant'' \<and> l_holder l = [] \<or> op \<in> {''end'', ''renew''} \<and> held l"
    and nx: "l_proj nx = pr" "op = ''renew'' \<longrightarrow> l_holder nx = l_holder l"
    and tr: "transition d op l nx (st pr) = (r, k')"
    and t': "t' = (case r of Inl e \<Rightarrow> put_lease pr (l\<lparr>l_unresolved := True\<rparr>) t
                   | Inr n \<Rightarrow> put_lease pr (nx\<lparr>l_epoch := n, l_hist := h n, l_unresolved := False\<rparr>) t)"
  shows "keeps t st t' (st(pr := k'))"
proof -
  from table_okD [OF ok, of pr] l have r: "l_proj l = pr" "coherent l (st pr)" by simp_all
  have kok: "keys_ok ((st(pr := k')) x)" if "keys_ok (st x)" for x
    using that transition_keys_ok [OF r(2) op tr] by simp
  show ?thesis
  proof (cases r)
    case (Inl e)
    have "record_ok pr (Some (l\<lparr>l_unresolved := True\<rparr>)) k'" using r(1) by simp
    from table_ok_put [OF ok this] show ?thesis
      using l kok by (intro keepsI) (simp_all add: t' Inl moves_def tenure_def stuck_def)
  next
    case (Inr n)
    note tc = transition_coherent [OF r(2) op tr [unfolded Inr]]
    have hold: "keys_hold n (l_holder nx) k'" and pos: "0 < n" using tc by (auto simp: keys_hold_def epoch_range_def)
    have ep: "if op = ''renew'' then n = l_epoch l else l_epoch l < n"
      using tc pos by (cases "l_epoch l = 0") auto
    let ?l' = "nx\<lparr>l_epoch := n, l_hist := h n, l_unresolved := False\<rparr>"
    have t2: "t' = put_lease pr ?l' t" by (simp add: t' Inr)
    have rec: "record_ok pr (Some ?l') k'" using nx(1) coherent_after(2) [OF hold, of "h n"] by simp
    have "moves (Some l) (Some ?l')"
      using ep nx(2) l(2) by (cases "op = ''renew''") (auto simp: moves_def tenure_def stuck_def)
    then show ?thesis
      unfolding t2 using table_ok_put [OF ok rec] l(1) kok by (intro keepsI) simp_all
  qed
qed

lemma grantLocked_keeps:
  assumes ok: "table_ok t st" and g: "grantLocked d now lbl p pr md ttl why t (st pr) = (res, t', k')"
  shows "keeps t st t' (st(pr := k'))"
proof -
  obtain l t1 where l: "leaseLocked pr t = (l, t1)" by force
  note ok1 = leaseLocked_ok [OF ok l]
  have kk: "keeps t st t1 st" by (rule leaseLocked_keeps [OF ok l])
  show ?thesis
  proof (cases "l_unresolved l \<or> held l \<and> l_holder l \<noteq> p_name p")
    case True
    with g l have "t' = t1" "k' = st pr"
      by (auto simp: grantLocked_def grant_begin_def Let_def split: if_split_asm)
    with kk show ?thesis by simp
  next
    case False
    obtain op nx where n: "grant_next (t_cfg t) now lbl p md ttl l = (op, nx)" by force
    obtain r k2 where tr: "transition d op l nx (st pr) = (r, k2)" by force
    let ?h = "\<lambda>ep. if op = ''grant'' then AList.update (p_name p) ep (l_hist nx) else l_hist nx"
    let ?t2 = "case r of Inl e \<Rightarrow> put_lease pr (l\<lparr>l_unresolved := True\<rparr>) t1
                   | Inr n \<Rightarrow> put_lease pr (nx\<lparr>l_epoch := n, l_hist := ?h n, l_unresolved := False\<rparr>) t1"
    have c: "keeps t1 st ?t2 (st(pr := k2))"
      by (rule call_keeps [where t = t1 and st = st and pr = pr and l = l and op = op and nx = nx and d = d and h = ?h])
        (use ok1 False grant_next_facts [OF n] tr in \<open>auto simp: held_def split: if_split_asm\<close>)
    from g l n tr False have "k' = k2" and "\<And>x. lease_at t' x = lease_at ?t2 x"
      by (auto simp: grantLocked_def grant_begin_def grant_finish_def Let_def split: sum.split_asm)
    then have "keeps t1 st t' (st(pr := k'))"
      using c by (simp add: keeps_def table_ok_def)
    with kk show ?thesis unfolding keeps_def using moves_trans by blast
  qed
qed

lemma endLocked_keeps:
  assumes ok: "table_ok t st" and g: "endLocked d now pr event actor why t (st pr) = (res, t', k')"
  shows "keeps t st t' (st(pr := k'))"
proof (cases "lease_at t pr")
  case None
  with g have "t' = t" "k' = st pr" by (auto simp: endLocked_def end_begin_def)
  with ok show ?thesis by (simp add: keeps_refl)
next
  case (Some l)
  show ?thesis
  proof (cases "l_unresolved l \<or> \<not> held l")
    case True
    with g Some have "t' = t" "k' = st pr" by (auto simp: endLocked_def end_begin_def split: if_split_asm)
    with ok show ?thesis by (simp add: keeps_refl)
  next
    case False
    obtain r k2 where tr: "transition d ''end'' l (end_next now l) (st pr) = (r, k2)" by force
    have p: "l_proj l = pr" using table_okD [OF ok, of pr] Some by simp
    let ?t2 = "case r of Inl e \<Rightarrow> put_lease pr (l\<lparr>l_unresolved := True\<rparr>) t
                   | Inr n \<Rightarrow> put_lease pr ((end_next now l)\<lparr>l_epoch := n, l_hist := l_hist (end_next now l), l_unresolved := False\<rparr>) t"
    have c: "keeps t st ?t2 (st(pr := k2))"
      by (rule call_keeps [where t = t and st = st and pr = pr and l = l and op = "''end''" and nx = "end_next now l" and d = d
            and h = "\<lambda>_. l_hist (end_next now l)"])
        (use ok Some False p tr in auto)
    from g Some tr False have "k' = k2" and "\<And>x. lease_at t' x = lease_at ?t2 x"
      by (auto simp: endLocked_def end_begin_def end_finish_def Let_def split: sum.split_asm)
    with c show ?thesis by (simp add: keeps_def table_ok_def)
  qed
qed

text \<open>Touches, heartbeats and flushes change neither holder nor epoch.\<close>

definition same_tenure :: "lease \<Rightarrow> lease \<Rightarrow> bool" where
  "same_tenure l m \<longleftrightarrow> l_proj m = l_proj l \<and> l_epoch m = l_epoch l \<and> l_holder m = l_holder l \<and> l_unresolved m = l_unresolved l"

lemma same_tenure_ok:
  assumes "same_tenure l m"
  shows "record_ok pr (Some m) k \<longleftrightarrow> record_ok pr (Some l) k" and "moves (Some l) (Some m)"
  using assms by (simp_all add: same_tenure_def coherent_def moves_def tenure_def stuck_def)

lemma touch1_keeps: "table_ok t st \<Longrightarrow> keeps t st (touch1 now p pr t) st"
proof (cases "lease_at t pr")
  case (Some l)
  let ?m = "l\<lparr>l_lastWriteMs := ms now, l_dirty := True\<rparr>"
  assume ok: "table_ok t st"
  have s: "same_tenure l ?m" by (simp add: same_tenure_def)
  have r: "record_ok pr (Some ?m) (st pr)"
    using table_okD [OF ok, of pr] Some same_tenure_ok(1) [OF s] by metis
  have "keeps t st (put_lease pr ?m t) st"
    using table_ok_put [OF ok r] same_tenure_ok(2) [OF s] Some by (intro keepsI) simp_all
  with ok Some show ?thesis by (simp add: touch1_def keeps_refl)
qed (simp add: touch1_def keeps_refl)

lemma keeps_trans: "keeps t st t' st' \<Longrightarrow> keeps t' st' t'' st'' \<Longrightarrow> keeps t st t'' st''"
  unfolding keeps_def using moves_trans by blast

lemma fold_keeps:
  assumes step: "\<And>x t st. x \<in> set xs \<Longrightarrow> table_ok t st \<Longrightarrow> keeps t st (fst (f x (t, st))) (snd (f x (t, st)))"
    and "table_ok (fst ts) (snd ts)"
  shows "keeps (fst ts) (snd ts) (fst (fold f xs ts)) (snd (fold f xs ts))"
  using assms
proof (induction xs arbitrary: ts)
  case Nil
  then show ?case by (simp add: keeps_refl)
next
  case (Cons x xs)
  have k: "keeps (fst ts) (snd ts) (fst (f x ts)) (snd (f x ts))"
    using Cons.prems(1) [of x "fst ts" "snd ts"] Cons.prems(2) by simp
  then have "table_ok (fst (f x ts)) (snd (f x ts))" by (simp add: keeps_def)
  from keeps_trans [OF k Cons.IH [OF Cons.prems(1) this]] show ?case by simp
qed

lemma touch_keeps:
  assumes "table_ok t st"
  shows "keeps t st (touch now p prs t) st"
proof -
  have "keeps (fst (t, st)) (snd (t, st)) (fst (fold (\<lambda>pr (t, st). (touch1 now p pr t, st)) prs (t, st)))
      (snd (fold (\<lambda>pr (t, st). (touch1 now p pr t, st)) prs (t, st)))"
    using assms by (intro fold_keeps) (simp_all add: touch1_keeps)
  moreover have "fold (\<lambda>pr (t, st). (touch1 now p pr t, st)) prs (t, st) = (touch now p prs t, st)" for t
    by (induction prs arbitrary: t) (simp_all add: touch_def)
  ultimately show ?thesis by simp
qed

lemma beat_same: "same_tenure l (beat now p pending l)"
  by (simp add: beat_def same_tenure_def)

lemma heartbeat_leases:
  "heartbeat now p pending t = (res, t') \<Longrightarrow> lease_at t' pr = map_option (beat now p pending) (lease_at t pr)"
  by (auto simp: heartbeat_def Let_def map_of_map)

lemma heartbeat_keeps:
  assumes ok: "table_ok t st" and h: "heartbeat now p pending t = (res, t')"
  shows "keeps t st t' st"
proof (rule keepsI)
  show "moves (lease_at t pr) (lease_at t' pr)" for pr
    unfolding heartbeat_leases [OF h] using same_tenure_ok(2) [OF beat_same]
    by (cases "lease_at t pr") simp_all
  show "table_ok t' st"
    unfolding table_ok_def heartbeat_leases [OF h]
  proof
    fix pr
    show "record_ok pr (map_option (beat now p pending) (lease_at t pr)) (st pr)"
      using table_okD [OF ok, of pr] same_tenure_ok(1) [OF beat_same]
      by (cases "lease_at t pr") (simp_all only: option.map)
  qed
qed

lemma sweep1_keeps:
  assumes ok: "table_ok t st"
  shows "keeps t st (fst (sweep1 dur clk ds c pr (t, st))) (snd (sweep1 dur clk ds c pr (t, st)))"
proof (cases "case lease_at t pr of Some l \<Rightarrow> expiryReason l (ms (clk pr)) c | None \<Rightarrow> None")
  case None
  with ok show ?thesis by (simp add: sweep1_def keeps_refl)
next
  case (Some why)
  obtain res t' k' where e: "endLocked (ds pr) (clk pr) pr ''expire'' ''-proxy'' (expiry_text dur why) t (st pr) = (res, t', k')"
    by (metis prod_cases3)
  from endLocked_keeps [OF ok e] show ?thesis by (simp add: sweep1_def Some e)
qed

lemma sweep_keeps:
  "table_ok (fst ts) (snd ts) \<Longrightarrow> keeps (fst ts) (snd ts) (fst (sweep dur now clk ds ts)) (snd (sweep dur now clk ds ts))"
  unfolding sweep_def Let_def by (rule fold_keeps) (use sweep1_keeps in auto)

lemma flush_hold: "keys_hold n h k \<Longrightarrow> keys_hold n h (snd (leaseFlushLua argv k))"
proof -
  assume a: "keys_hold n h k"
  then obtain m where m: "lk_hash k = Some (RHash m)" "distinct (map fst m)" by (auto simp: keys_hold_def)
  let ?fvs = "[(''last_write_ms'', argv ! 2), (''last_hb_ms'', argv ! 3), (''pending'', argv ! 4)]"
  obtain m' where m': "redis_HSET (Some (RHash m)) ?fvs = RHash m'" by (simp add: redis_HSET_def)
  have "distinct (map fst m')" by (rule redis_HSET_distinct [OF _ m']) (simp add: m)
  moreover have "map_of m' f = map_of m f" if "f = ''epoch'' \<or> f = ''holder''" for f
    using map_of_HSET [of "Some (RHash m)" ?fvs f] that by (auto simp: m')
  ultimately show ?thesis
    using a m by (auto simp: leaseFlushLua_def keys_hold_def m')
qed

lemma flush1_keeps:
  assumes ok: "table_ok t st"
  shows "keeps t st (fst (flush1 ds pr (t, st))) (snd (flush1 ds pr (t, st)))"
proof (cases "lease_at t pr")
  case None
  with ok show ?thesis by (simp add: flush1_def keeps_refl)
next
  case (Some l)
  show ?thesis
  proof (cases "\<not> l_dirty l \<or> \<not> held l \<or> l_unresolved l")
    case True
    with ok Some show ?thesis by (simp add: flush1_def keeps_refl)
  next
    case False
    have r: "l_proj l = pr" "coherent l (st pr)" using table_okD [OF ok, of pr] Some False by simp_all
    then have e: "l_epoch l \<noteq> 0" and "keys_hold (l_epoch l) (l_holder l) (st pr)"
      using False by (auto simp: coherent_def held_def split: if_split_asm)
    from flush_hold [OF this(2)] have k: "coherent l (snd (leaseFlushLua argv (st pr)))" for argv
      using e by (simp add: coherent_def)
    have fin: "keeps t st (flush_finish pr l r' t) (st(pr := k'))" if "coherent l k'" for r' k'
    proof -
      let ?m = "if r' \<noteq> Inr 1 then l\<lparr>l_unresolved := True\<rparr> else l\<lparr>l_dirty := False\<rparr>"
      have "record_ok pr (Some ?m) k'" using that r(1) by (simp add: coherent_def)
      from table_ok_put [OF ok this] show ?thesis
        using Some False coherent_keys_ok [OF that] by (intro keepsI) (simp_all add: flush_finish_def moves_def tenure_def stuck_def split: if_split_asm)
    qed
    obtain r' k' where f: "leaseFlushLua (flush_args l) (st pr) = (r', k')" by force
    show ?thesis
      using Some False fin [of k' r'] fin [of "st pr" "Inl e" for e] fin [of k' "Inl e" for e] k [of "flush_args l"] r(2)
      by (simp add: flush1_def f split: delivery.split)
  qed
qed

lemma flushDirty_keeps:
  "table_ok (fst ts) (snd ts) \<Longrightarrow> keeps (fst ts) (snd ts) (fst (flushDirty ds ts)) (snd (flushDirty ds ts))"
  unfolding flushDirty_def by (rule fold_keeps) (use flush1_keeps in auto)

lemma lease_step_keeps:
  assumes "lease_step s s'" and "table_ok (fst s) (snd s)"
  shows "keeps (fst s) (snd s) (fst s') (snd s')"
  using assms
proof (cases rule: lease_step.cases)
  case grant
  with assms(2) show ?thesis using grantLocked_keeps by simp
next
  case end_tenure
  with assms(2) show ?thesis using endLocked_keeps by simp
next
  case beaten
  with assms(2) show ?thesis using heartbeat_keeps by simp
qed (use assms(2) in \<open>simp_all add: touch_keeps sweep_keeps flushDirty_keeps keeps_log [OF keeps_refl]\<close>)

lemma lease_steps_keep:
  assumes "lease_step\<^sup>*\<^sup>* s s'" and "table_ok (fst s) (snd s)"
  shows "keeps (fst s) (snd s) (fst s') (snd s')"
  using assms
proof (induction rule: rtranclp_induct)
  case (step y z)
  then have k: "keeps (fst s) (snd s) (fst y) (snd y)" by simp
  then have "table_ok (fst y) (snd y)" by (simp add: keeps_def)
  from keeps_trans [OF k lease_step_keeps [OF step.hyps(2) this]] show ?case .
qed (simp add: keeps_refl)

subsection \<open>A sample project\<close>

text \<open>Project 5, free in Redis or held by \<^verbatim>\<open>ann\<close> in epoch 1; the holder last seen at 1000 ms.\<close>

definition free_keys :: lease_keys where "free_keys = \<lparr>lk_counter = None, lk_hash = None\<rparr>"

definition ann_keys :: lease_keys where
  "ann_keys = \<lparr>lk_counter = Some (RString ''1''), lk_hash = Some (RHash [(''epoch'', ''1''), (''holder'', ''ann'')])\<rparr>"

definition ann_lease :: lease where
  "ann_lease = (new_lease 5)\<lparr>l_holder := ''ann'', l_kind := ''mac'', l_epoch := 1, l_mode := LeaseAuto,
     l_grantedMs := 1000, l_lastWriteMs := 1000, l_lastHbMs := 1000\<rparr>"

definition table_of :: "(nat \<times> lease) list \<Rightarrow> lease_table" where
  "table_of ls = \<lparr>t_leases = ls, t_cfg = defaultLeaseCfg, t_depthFixed = 2, t_denyLast = [], t_logCh = [], t_logDropped = 0\<rparr>"

definition ann_user :: principal where
  "ann_user = \<lparr>p_name = ''ann'', p_kind = KindMac, p_host = ''mac''\<rparr>"

lemma ann_ok: "table_ok (table_of [(5, ann_lease)]) ((\<lambda>_. free_keys)(5 := ann_keys))"
  by (simp add: table_ok_def table_of_def ann_lease_def new_lease_def coherent_def keys_hold_def ann_keys_def epoch_range_def
      go_arith keys_free_def free_keys_def)

lemma empty_ok: "table_ok (table_of []) (\<lambda>_. free_keys)"
  by (simp add: table_ok_def table_of_def keys_free_def free_keys_def)

subsection \<open>Properties\<close>

text \<open>C6: Whatever happens to the calls between the proxy and Redis, the lease table never contradicts what
  Redis stores: from any state in which they agree, after any sequence of grants, renewals, ends,
  touches, heartbeats, sweeps and flushes, each delivered, never run or run with its reply lost, every
  settled held lease in memory has the holder and the epoch of the persisted record, and the record
  of a project unknown to the table is free.\<close>

theorem lease_agreement:
  assumes "lease_step\<^sup>*\<^sup>* (t, st) (t', st')" and "table_ok t st"
  shows "table_ok t' st' \<and>
    (\<forall>pr l. lease_at t' pr = Some l \<and> held l \<and> \<not> l_unresolved l \<longrightarrow>
       redis_HGET (lk_hash (st' pr)) ''holder'' = Some (l_holder l) \<and>
       redis_HGET (lk_hash (st' pr)) ''epoch'' = Some (FormatUint (l_epoch l)) \<and>
       redis_GET (lk_counter (st' pr)) = Some (FormatUint (l_epoch l)))"
proof -
  have ok: "table_ok t' st'" using lease_steps_keep [OF assms(1)] assms(2) by (simp add: keeps_def)
  moreover have "redis_HGET (lk_hash (st' pr)) ''holder'' = Some (l_holder l) \<and>
       redis_HGET (lk_hash (st' pr)) ''epoch'' = Some (FormatUint (l_epoch l)) \<and>
       redis_GET (lk_counter (st' pr)) = Some (FormatUint (l_epoch l))"
    if "lease_at t' pr = Some l" "held l" "\<not> l_unresolved l" for pr l
    using table_okD [OF ok, of pr] that by (auto simp: coherent_def keys_hold_def held_def split: if_split_asm)
  ultimately show ?thesis by blast
qed

theorem lease_agreement_witness:
  "table_ok (touch 5000000000 ann_user [5] (table_of [(5, ann_lease)])) ((\<lambda>_. free_keys)(5 := ann_keys))"
  using lease_agreement [OF r_into_rtranclp [of lease_step, OF touched] ann_ok, of 5000000000 ann_user "[5]"] by blast

text \<open>C15: Epochs fence: a project's epoch never decreases, and as long as it stays the same the project has
  the same holder (or stays free), so an epoch names one tenure for ever, across releases, expiries,
  lost replies and re-grants.\<close>

theorem lease_epochs:
  assumes "lease_step\<^sup>*\<^sup>* (t, st) (t', st')" and "table_ok t st" and "lease_at t pr = Some l"
  shows "\<exists>l'. lease_at t' pr = Some l' \<and> l_epoch l \<le> l_epoch l' \<and>
    (l_epoch l' = l_epoch l \<longrightarrow> l_holder l' = l_holder l) \<and>
    (l_unresolved l \<longrightarrow> l_unresolved l' \<and> l_epoch l' = l_epoch l)"
proof -
  have m: "moves (Some l) (lease_at t' pr)"
    using lease_steps_keep [OF assms(1)] assms(2,3) unfolding keeps_def fst_conv snd_conv by metis
  then obtain l' where "lease_at t' pr = Some l'" by (cases "lease_at t' pr") (simp_all add: moves_def)
  with m show ?thesis by (auto simp: moves_def tenure_def stuck_def)
qed

theorem lease_epochs_witness:
  "\<exists>l'. lease_at (touch 5000000000 ann_user [5] (table_of [(5, ann_lease)])) 5 = Some l' \<and> l_epoch ann_lease \<le> l_epoch l' \<and>
    (l_epoch l' = l_epoch ann_lease \<longrightarrow> l_holder l' = l_holder ann_lease) \<and>
    (l_unresolved ann_lease \<longrightarrow> l_unresolved l' \<and> l_epoch l' = l_epoch ann_lease)"
  by (rule lease_epochs [OF r_into_rtranclp [of lease_step, OF touched] ann_ok]) (simp add: table_of_def)

text \<open>C29: A transition whose outcome is not known quarantines its project: when a grant returns an error on
  a project that was settled, the record stays unresolved through every later operation, every later
  grant and end of it is refused without touching Redis, and nobody counts as having held it, until
  the table is loaded again.\<close>

theorem failed_grant_quarantines:
  assumes "table_ok t st" and "grantLocked d now lbl p pr md ttl why t (st pr) = (Inl e, t1, kx)"
    and "lease_step\<^sup>*\<^sup>* (t1, st(pr := kx)) (t', st')"
  shows "(\<exists>l. lease_at t' pr = Some l \<and> l_unresolved l) \<and> \<not> heldWithin now' q pr grace t' \<and>
    grantLocked d' now' lbl' q pr md' ttl' why' t' k = (Inl (unresolved_text pr), t', k) \<and>
    endLocked d' now' pr ev actor why' t' k = ((Some (unresolved_text pr), empty_snap, 0), t', k)"
proof -
  obtain l t0 where l: "leaseLocked pr t = (l, t0)" by force
  have "\<exists>l. lease_at t1 pr = Some l \<and> l_unresolved l"
    using assms(2) l leaseLocked_ok [OF assms(1) l]
    by (auto simp: grantLocked_def grant_begin_def grant_finish_def Let_def split: if_split_asm prod.split_asm sum.split_asm)
  then have s: "stuck (lease_at t1 pr)" by (auto simp: stuck_def)
  have "table_ok t1 (st(pr := kx))" using grantLocked_keeps [OF assms(1,2)] by (simp add: keeps_def)
  then have "moves (lease_at t1 pr) (lease_at t' pr)"
    using lease_steps_keep [OF assms(3)] unfolding keeps_def fst_conv snd_conv by blast
  with s obtain l' where "lease_at t' pr = Some l'" "l_unresolved l'"
    by (cases "lease_at t' pr") (auto simp: moves_def stuck_def)
  then show ?thesis
    by (simp add: heldWithin_def grantLocked_def grant_begin_def leaseLocked_def endLocked_def end_begin_def)
qed

theorem failed_grant_quarantines_witness:
  "\<exists>e t1 kx. grantLocked (ReplyLost ''timeout'') 0 [] ann_user 5 LeaseAuto 0 [] (table_of []) free_keys = (Inl e, t1, kx) \<and>
     \<not> heldWithin 0 ann_user 5 DirStatGrace t1"
proof -
  obtain res t1 kx where g: "grantLocked (ReplyLost ''timeout'') 0 [] ann_user 5 LeaseAuto 0 [] (table_of []) ((\<lambda>_. free_keys) 5) = (res, t1, kx)"
    by (metis prod_cases3)
  then have "res = Inl ''timeout''"
    by (auto simp: grantLocked_def grant_begin_def leaseLocked_def table_of_def new_lease_def held_def
        grant_finish_def transition_def Let_def split: prod.split_asm)
  note g = g [unfolded this]
  from failed_grant_quarantines [OF empty_ok g rtranclp.rtrancl_refl, of 0 ann_user DirStatGrace] g show ?thesis by auto
qed

lemma grantLocked_free:
  assumes "table_ok t st" and "lease_at t pr = Some l" and "\<not> held l" and "\<not> l_unresolved l"
    and "redis_GET (lk_counter (st pr)) \<noteq> Some ''9223372036854775807''" and "p_name p \<noteq> []"
  shows "\<exists>s fs t' k' l'. grantLocked Delivered now lbl p pr md ttl why t (st pr) = (Inr (s, fs), t', k') \<and>
    s_holder s = p_name p \<and> s_mode s = md \<and> (l_epoch l \<noteq> 0 \<longrightarrow> s_epoch s = Suc (l_epoch l)) \<and>
    lease_at t' pr = Some l' \<and> snap l' = s \<and> \<not> l_unresolved l' \<and> held l' \<and>
    map_of (l_hist l') (p_name p) = Some (s_epoch s) \<and> keys_hold (s_epoch s) (p_name p) k'"
proof -
  obtain nx where n: "grant_next (t_cfg t) now lbl p md ttl l = (''grant'', nx)" "l_holder nx = p_name p" "l_mode nx = md"
    using assms(3) by (simp add: grant_next_def)
  have c: "coherent l (st pr)" using table_okD [OF assms(1), of pr] assms(2,4) by simp
  have op: "''grant'' = ''grant'' \<and> l_holder l = [] \<or> ''grant'' \<in> {''end'', ''renew''} \<and> held l"
    using assms(3) by (simp add: held_def)
  obtain m k' where tr: "transition Delivered ''grant'' l nx (st pr) = (Inr m, k')"
    by (rule transition_succeeds [OF c op assms(5)])
  note h = transition_coherent [OF c op tr]
  show ?thesis
    using assms(2-4,6) n tr h
    by (simp add: grantLocked_def grant_begin_def leaseLocked_def grant_finish_def snap_def held_def update_conv' Let_def)
qed

text \<open>C31: A free, settled project is granted to whoever asks when Redis answers: unless its counter is at
  2^63 - 1, the grant succeeds with the asking principal as holder, the next epoch (or any first one),
  the mode asked for, an entry in the history, and a settled record held by that principal in memory
  and in Redis.\<close>

theorem free_project_is_granted:
  assumes "table_ok t st" and "lease_at t pr = Some l" and "\<not> held l" and "\<not> l_unresolved l"
    and "redis_GET (lk_counter (st pr)) \<noteq> Some ''9223372036854775807''" and "p_name p \<noteq> []"
  shows "\<exists>s fs t' k' l'. grantLocked Delivered now lbl p pr md ttl why t (st pr) = (Inr (s, fs), t', k') \<and>
    s_holder s = p_name p \<and> s_mode s = md \<and> (l_epoch l \<noteq> 0 \<longrightarrow> s_epoch s = Suc (l_epoch l)) \<and>
    lease_at t' pr = Some l' \<and> snap l' = s \<and> \<not> l_unresolved l' \<and> held l' \<and>
    map_of (l_hist l') (p_name p) = Some (s_epoch s) \<and> keys_hold (s_epoch s) (p_name p) k'"
  by (rule grantLocked_free [OF assms])

theorem free_project_is_granted_witness:
  "\<exists>s fs t' k' l'. grantLocked Delivered 0 [] ann_user 5 LeaseAuto 0 [] (table_of [(5, new_lease 5)]) free_keys = (Inr (s, fs), t', k') \<and>
    s_holder s = p_name ann_user \<and> s_mode s = LeaseAuto \<and> (l_epoch (new_lease 5) \<noteq> 0 \<longrightarrow> s_epoch s = Suc (l_epoch (new_lease 5))) \<and>
    lease_at t' 5 = Some l' \<and> snap l' = s \<and> \<not> l_unresolved l' \<and> held l' \<and>
    map_of (l_hist l') (p_name ann_user) = Some (s_epoch s) \<and> keys_hold (s_epoch s) (p_name ann_user) k'"
proof (rule free_project_is_granted [where st = "\<lambda>_. free_keys"])
  show "table_ok (table_of [(5, new_lease 5)]) (\<lambda>_. free_keys)"
    by (simp add: table_ok_def table_of_def new_lease_def coherent_def keys_free_def free_keys_def)
qed (simp_all add: table_of_def new_lease_def held_def free_keys_def ann_user_def)

end
