(* ===== verification/Decide_Props.thy ===== *)
theory Decide_Props
  imports Decide Grant_Props Lease_Props
begin

section \<open>What an admitted unit holds\<close>

text \<open>
  The decision read as a contract: a ticket without a refusal names the projects of the unit, and the
  writer holds each of them, in the epoch the ticket records, at the moment the fences are taken;
  whatever other goroutines did before that moment (\<open>x_other\<close> is arbitrary).
\<close>

definition holds :: "principal \<Rightarrow> nat \<Rightarrow> (nat \<times> nat) list \<Rightarrow> lease_table \<Rightarrow> bool" where
  "holds p pr eps t \<longleftrightarrow> (\<exists>l. lease_at t pr = Some l \<and> \<not> l_unresolved l \<and> held l \<and> l_holder l = p_name p \<and>
     map_of eps pr = Some (l_epoch l))"

subsection \<open>The view under the fences\<close>

lemma view_project_keeps:
  "lv_free (view_project t p pr w) = [] \<Longrightarrow> lv_free w = []"
  "lv_other (view_project t p pr w) = None \<Longrightarrow> lv_other w = None"
  "0 < pr \<Longrightarrow> lv_unresolved (view_project t p pr w) = 0 \<Longrightarrow> lv_unresolved w = 0"
  by (auto simp: view_project_def split: option.split_asm if_split_asm)

lemma view_fold_keeps:
  "lv_free (fold (view_project t p) prs w) = [] \<Longrightarrow> lv_free w = []"
  "lv_other (fold (view_project t p) prs w) = None \<Longrightarrow> lv_other w = None"
  "0 \<notin> set prs \<Longrightarrow> lv_unresolved (fold (view_project t p) prs w) = 0 \<Longrightarrow> lv_unresolved w = 0"
  by (induction prs arbitrary: w) (auto dest: view_project_keeps)

lemma view_epochs_keep:
  "holds p x (lv_epochs w) t \<Longrightarrow> holds p x (lv_epochs (fold (view_project t p) prs w)) t"
proof (induction prs arbitrary: w)
  case (Cons pr prs)
  have "holds p x (lv_epochs (view_project t p pr w)) t"
    using Cons.prems by (auto simp: holds_def view_project_def update_conv' split: option.split)
  then show ?case using Cons.IH by simp
qed simp

lemma view_project_holds:
  assumes "pr \<noteq> 0" and "lv_unresolved (view_project t p pr w) = 0" and "lv_other (view_project t p pr w) = None"
    and "lv_free (view_project t p pr w) = []"
  shows "holds p pr (lv_epochs (view_project t p pr w)) t"
  using assms by (auto simp: view_project_def holds_def update_conv' split: option.split_asm if_split_asm)

lemma view_projects_holds:
  assumes "0 \<notin> set prs" and "lv_unresolved (view_projects t p prs eps) = 0" and "lv_other (view_projects t p prs eps) = None"
    and "lv_free (view_projects t p prs eps) = []" and "pr \<in> set prs"
  shows "holds p pr (lv_epochs (view_projects t p prs eps)) t"
proof -
  from assms(5) obtain ys zs where prs: "prs = ys @ pr # zs" by (auto simp: in_set_conv_decomp)
  let ?w = "view_project t p pr (fold (view_project t p) ys \<lparr>lv_unresolved = 0, lv_other = None, lv_free = [], lv_epochs = eps\<rparr>)"
  have w: "view_projects t p prs eps = fold (view_project t p) zs ?w" by (simp add: view_projects_def prs)
  have "holds p pr (lv_epochs ?w) t"
    by (rule view_project_holds) (use assms prs w in \<open>auto dest: view_fold_keeps\<close>)
  then show ?thesis using w view_epochs_keep by simp
qed

lemma touch1_holds: "holds p pr eps (touch1 now q x t) \<longleftrightarrow> holds p pr eps t"
  by (auto simp: holds_def touch1_def held_def split: option.split)

lemma touch_holds: "holds p pr eps (touch now q prs t) \<longleftrightarrow> holds p pr eps t"
  unfolding touch_def by (induction prs arbitrary: t) (simp_all add: touch1_holds)

subsection \<open>Tickets\<close>

lemma deny_refuses [simp]: "tk_deny tk' = None \<Longrightarrow> deny cx p u d tk e = (tk', e') \<longleftrightarrow> False"
  by (auto simp: deny_def)

lemma deny_rollback_refuses [simp]: "tk_deny tk' = None \<Longrightarrow> deny_rollback cx p u d g tk e = (tk', e') \<longleftrightarrow> False"
  by (auto simp: deny_rollback_def deny_def)

text \<open>How a round of the loop can go on: admit a unit that is not lease checked, admit under the view,
  or grant the free projects and look again.\<close>

lemma decide_loop_cases:
  assumes "decide_loop cx p u prs left granted tk e = (tk', e')" and "tk_deny tk' = None"
  obtains (exempt) "bypass p u" "tk_fences tk' = prs" "tk_facts tk' = tk_facts tk"
  | (view) t eps where "lv_unresolved (view_projects t p prs eps) = 0" "lv_other (view_projects t p prs eps) = None"
      "lv_free (view_projects t p prs eps) = []" "tk_epochs tk' = lv_epochs (view_projects t p prs eps)" "tk_fences tk' = prs"
      "tk_facts tk' = tk_facts tk" "e_table e' = touch (x_time cx) p prs t"
  | (again) k granted1 tk2 e2 where "left = Suc k" "decide_loop cx p u prs k granted1 tk2 e2 = (tk', e')" "tk_facts tk2 = tk_facts tk"
proof -
  define e1 where "e1 = x_other cx (3 - left) 0 e"
  define w where "w = view_projects (e_table e1) p prs (tk_epochs tk)"
  define tk1 where "tk1 = tk\<lparr>tk_fences := prs, tk_epochs := lv_epochs w\<rparr>"
  note eq = assms(1) [unfolded decide_loop.simps [of cx p u prs left], folded e1_def w_def tk1_def, unfolded Let_def,
      folded e1_def w_def tk1_def]
  have u: "lv_unresolved w = 0" by (rule ccontr) (use eq assms(2) in \<open>simp add: Let_def\<close>)
  show thesis
  proof (cases "bypass p u")
    case True
    with eq u show ?thesis by (intro exempt) (auto simp: admit_def tk1_def)
  next
    case False
    with eq u assms(2) have o: "lv_other w = None" by (cases "lv_other w") simp_all
    show ?thesis
    proof (cases "lv_free w = []")
      case True
      with eq u False o have "tk' = tk1" "e_table e' = touch (x_time cx) p prs (e_table e1)" by (auto simp: admit_def)
      with u o True show ?thesis by (intro view [of "e_table e1" "tk_epochs tk"]) (simp_all add: tk1_def w_def)
    next
      case free: False
      show ?thesis
      proof (cases left)
        case 0
        with eq u False o free assms(2) show ?thesis by simp
      next
        case (Suc k)
        obtain r granted1 e2 where g: "grant_free cx p (3 - left) (lv_free w) granted e1 = (r, granted1, e2)" by (rule prod_cases3)
        show ?thesis
        proof (cases r)
          case (Inl d)
          with eq u False o free g Suc assms(2) show ?thesis by simp
        next
          case (Inr x)
          with eq u False o free g Suc have "decide_loop cx p u prs k granted1 (tk1\<lparr>tk_fences := []\<rparr>) e2 = (tk', e')" by simp
          then show ?thesis by (rule again [OF Suc]) (simp add: tk1_def)
        qed
      qed
    qed
  qed
qed

lemma decide_loop_admits:
  assumes "decide_loop cx p u prs left granted tk e = (tk', e')" and "tk_deny tk' = None"
  shows "tk_fences tk' = prs \<and> tk_facts tk' = tk_facts tk \<and> (bypass p u \<or> 0 \<in> set prs \<or> (\<forall>pr \<in> set prs. holds p pr (tk_epochs tk') (e_table e')))"
  using assms
proof (induction left arbitrary: granted tk e)
  case 0
  from "0.prems"(1,2) show ?case by (cases rule: decide_loop_cases) (auto simp: touch_holds view_projects_holds)
next
  case (Suc n)
  from Suc.prems(1,2) show ?case
  proof (cases rule: decide_loop_cases)
    case (again k granted1 tk2 e2)
    with Suc.IH [of granted1 tk2 e2] Suc.prems(2) show ?thesis by simp
  qed (auto simp: touch_holds view_projects_holds)
qed

lemma place_gate_None: "place_gate byp locs = None \<Longrightarrow> l \<in> set locs \<Longrightarrow> loc_kind l \<noteq> NsUnknown \<and> (byp \<or> loc_kind l \<noteq> NsTrash)"
  by (induction locs) (auto split: ns_kind.split_asm if_split_asm)

lemma projects_of_iff: "pr \<in> set (projects_of locs) \<longleftrightarrow> covers_project locs pr"
  by (auto simp: projects_of_def covers_project_def)

definition leased :: "principal \<Rightarrow> punit \<Rightarrow> location list \<Rightarrow> ticket \<Rightarrow> engine \<Rightarrow> bool" where
  "leased p u locs tk e \<longleftrightarrow> tk_fences tk = projects_of locs \<and> place_gate (bypass p u) locs = None \<and>
     (bypass p u \<or> 0 \<in> set (tk_fences tk) \<or> (\<forall>pr \<in> set (tk_fences tk). holds p pr (tk_epochs tk) (e_table e)))"

lemma decide_leases_admits:
  assumes "decide_leases cx p u ue locs tk e = (tk', e')" and "tk_deny tk' = None" and "tk_fences tk = []"
  shows "leased p u locs tk' e'"
proof -
  obtain rt a1 where rt: "touchesRoot (x_side cx) (tk_facts tk) (e_anc e) = (rt, a1)" by force
  define tk1 where "tk1 = tk\<lparr>tk_rootTouch := rt\<rparr>"
  define e1 where "e1 = e\<lparr>e_anc := a1\<rparr>"
  define rg where "rg = (if p_kind p \<noteq> KindAdmin then rootEntryGate cx (e_roots e1) p u ue (f_dentries (tk_facts tk)) None a1 else (Inr None, a1))"
  note eq = assms(1) [unfolded decide_leases_def Let_def rt prod.case, folded tk1_def e1_def, folded rg_def]
  have g: "place_gate (bypass p u) locs = None" using eq assms(2) by (cases "place_gate (bypass p u) locs") simp_all
  obtain r a2 where r: "rg = (r, a2)" by force
  with eq g assms(2) obtain removal where r': "r = Inr removal" by (cases r) simp_all
  obtain created a3 where c: "(if p_kind p = KindManager then smartViewCreation (x_side cx) (an_db a2) (e_roots e1) p u ue (tk_facts tk) a2
      else (None, a2)) = (created, a3)" by force
  let ?tk2 = "tk1\<lparr>tk_onCommit := List.map_filter id [removal, created]\<rparr>"
  have "(if projects_of locs = [] then admit ?tk2 (e1\<lparr>e_anc := a3\<rparr>) else decide_loop cx p u (projects_of locs) 3 [] ?tk2 (e1\<lparr>e_anc := a3\<rparr>)) = (tk', e')"
    using eq unfolding g r r' option.case prod.case sum.case c .
  moreover have "leased p u locs tk' e'" if "decide_loop cx p u (projects_of locs) 3 [] ?tk2 (e1\<lparr>e_anc := a3\<rparr>) = (tk', e')"
    using decide_loop_admits [OF that assms(2)] g by (auto simp: leased_def)
  moreover have "leased p u locs tk' e'" if "projects_of locs = []" "admit ?tk2 (e1\<lparr>e_anc := a3\<rparr>) = (tk', e')"
    using that g assms(3) by (auto simp: leased_def admit_def tk1_def)
  ultimately show ?thesis by (auto split: if_split_asm)
qed

lemma decide_place_admits:
  assumes "decide_place cx p u ue tk e = (tk', e')" and "tk_deny tk' = None" and "tk_fences tk = []"
    and "tree_inv (x_side cx) db depth deriv gone (e_anc e)"
  shows "\<exists>locs. stored_tree.placed_ok gone (x_side cx) db depth deriv (if bypass p u then PlaceBypass else PlaceStrict) p ue (tk_facts tk) locs \<and>
    leased p u locs tk' e'"
proof -
  obtain r a1 ul where r: "placeUnit (x_quote cx) (x_side cx) p u ue (tk_facts tk) (if bypass p u then PlaceBypass else PlaceStrict)
      (e_anc e, f_unlinked (tk_facts tk)) = (r, a1, ul)" by (rule prod_cases3)
  let ?tk1 = "tk\<lparr>tk_facts := (tk_facts tk)\<lparr>f_unlinked := ul\<rparr>\<rparr>"
  note eq = assms(1) [unfolded decide_place_def r prod.case Let_def]
  from eq assms(2) obtain locs where l: "r = Inr locs" by (cases r) simp_all
  have d: "decide_leases cx p u ue locs ?tk1 (e\<lparr>e_anc := a1\<rparr>) = (tk', e')" using eq unfolding l sum.case .
  have "leased p u locs tk' e'" using decide_leases_admits [OF d assms(2)] assms(3) by simp
  with placeUnit_placed [OF assms(4) r [unfolded l]] show ?thesis by blast
qed


lemma grantCheck_tree:
  assumes "tree_inv side db depth deriv gone a" and "grantCheck quote side p u ue f ((a, ul), gc) = (r, (a', ul'), gc')"
  shows "tree_inv side db depth deriv gone a'"
proof -
  have "tree_inv side db depth deriv gone (fst (snd (grant_unit quote side p pe u ue f gs (a, ul))))" for pe gs
    using stored_grants.grant_unit_ok [of side db depth deriv gone quote p pe u ue f gs, unfolded pok_def, rule_format, of "(a, ul)"]
      assms(1) by simp
  with assms show ?thesis
    by (auto simp: grantCheck_def split: option.split_asm if_split_asm prod.split_asm sum.split_asm) (metis fst_conv snd_conv)+
qed

lemma decide_granted_admits:
  assumes "decide_granted cx p u ue tk e = (tk', e')" and "tk_deny tk' = None" and "tk_fences tk = []" and "\<not> dirStatOnly (tk_facts tk)"
    and "tree_inv (x_side cx) db depth deriv gone (e_anc e)"
  shows "\<exists>locs. stored_tree.placed_ok gone (x_side cx) db depth deriv (if bypass p u then PlaceBypass else PlaceStrict) p ue (tk_facts tk) locs \<and>
    leased p u locs tk' e'"
  by (rule decide_place_admits [OF _ assms(2,3,5)]) (use assms(1,2,4) in \<open>auto simp: decide_granted_def split: if_split_asm\<close>)

lemma placed_ok_unlinked:
  "stored_tree.placed_ok gone side db depth deriv md p ue (f\<lparr>f_unlinked := ul\<rparr>) locs = stored_tree.placed_ok gone side db depth deriv md p ue f locs"
  by (simp add: placed_ok_unfold named_def)

lemma dirStatOnly_unlinked: "dirStatOnly (f\<lparr>f_unlinked := ul\<rparr>) = dirStatOnly f"
  by (simp add: dirStatOnly_def)

lemma Decide_admits:
  assumes "Decide cx p u ue e = (tk, e')" and "tk_deny tk = None" and "\<not> dirStatOnly (analyzeUnit u)"
    and "tree_inv (x_side cx) db depth deriv gone (e_anc e)"
  shows "\<exists>locs. stored_tree.placed_ok gone (x_side cx) db depth deriv (if bypass p u then PlaceBypass else PlaceStrict) p ue (analyzeUnit u) locs \<and>
    leased p u locs tk e'"
proof (cases "grantsApply p ue")
  case False
  with assms(1) have "decide_granted cx p u ue (new_ticket (analyzeUnit u)) e = (tk, e')" by (simp add: Decide_def Let_def)
  from decide_granted_admits [OF this assms(2) _ _ assms(4)] assms(3) show ?thesis by (simp add: new_ticket_def)
next
  case True
  obtain r a1 ul gc1 where g: "grantCheck (x_quote cx) (x_side cx) p u ue (analyzeUnit u) ((e_anc e, f_unlinked (analyzeUnit u)), e_grants e) =
    (r, (a1, ul), gc1)" by (metis prod.collapse)
  let ?tk1 = "(new_ticket (analyzeUnit u))\<lparr>tk_facts := (analyzeUnit u)\<lparr>f_unlinked := ul\<rparr>\<rparr>"
    and ?e1 = "e\<lparr>e_anc := a1, e_grants := gc1\<rparr>"
  from assms(1,2) True g have "r = None" by (cases r) (simp_all add: Decide_def Let_def)
  with assms(1) True g have d: "decide_granted cx p u ue ?tk1 ?e1 = (tk, e')" by (simp add: Decide_def Let_def)
  have "tree_inv (x_side cx) db depth deriv gone (e_anc ?e1)" using grantCheck_tree [OF assms(4) g] by simp
  from decide_granted_admits [OF d assms(2) _ _ this] assms(3) show ?thesis
    by (simp add: new_ticket_def placed_ok_unlinked dirStatOnly_unlinked)
qed


subsection \<open>Properties\<close>


text \<open>A change of the attributes of project directory 7 by its holder.\<close>

definition chmod_unit :: punit where
  "chmod_unit =
     (let c = \<lparr>cmd_args = [''SET'', ''i7'', dir_attr (CHR 0x05)], cmd_info = mk_command ''SET'' ClassWrite\<rparr>;
          w = \<lparr>w_cmd = 0, w_key = (plain_ref ShapeInode GInode)\<lparr>k_ino := 7, k_hasIno := True\<rparr>, w_raw = ''i7'', w_class = KCProject\<rparr> in
      \<lparr>u_kind = UnitTxn, u_db = 1, u_cmds = [c], u_watched = [], u_writes = [w], u_project = [w],
       u_refInodes = [], u_trashAlloc = 0, u_rewrite = None, u_mode = ModeEnforce\<rparr>)"

definition sample_ctx :: decide_ctx where
  "sample_ctx = \<lparr>x_quote = id, x_side = sample_side, x_summary = ''SET i7'', x_time = 0, x_clk = (\<lambda>_ _. 0), x_ds = (\<lambda>_ _. Delivered),
     x_other = (\<lambda>_ _ e. e)\<rparr>"

definition ann_engine :: engine where
  "ann_engine = \<lparr>e_table = table_of [(7, ann_lease\<lparr>l_proj := 7\<rparr>)], e_keys = (\<lambda>_. free_keys)(7 := ann_keys), e_anc = newAncestry 1 2 16,
     e_grants = \<lparr>gc_epoch = 0, gc_key = (0, 0), gc_dirs = None\<rparr>, e_views = \<lparr>vr_mirror = [], vr_redis = []\<rparr>, e_roots = [], e_nAllow = 0, e_nDeny = 0,
     e_nGrant = 0, e_nFenceTimeout = 0, e_nLostKill = 0\<rparr>"

lemma chmod_analysis: "analyzeUnit chmod_unit = chmod_facts"
proof -
  have "parseAttr (dir_attr (CHR 0x05)) = Some \<lparr>a_typ = 2, a_parent = 5\<rparr>" by code_simp
  then show ?thesis
    by (simp add: analyzeUnit_def chmod_unit_def Let_def analyze_write_def analyze_inode_def plain_ref_def cmd_of_def mk_command_def
        addInode_def touch_ino_def no_facts_def drop_created_def chmod_facts_def)
qed


lemma chmod_admitted:
  "\<exists>tk e'. Decide sample_ctx ann_user chmod_unit plain_env ann_engine = (tk, e') \<and> tk_deny tk = None \<and> tk_fences tk = [7]"
proof -
  have i: "tree_inv sample_side 1 2 0 {} (newAncestry 1 2 16)" by (rule tree_inv_new) simp
  obtain a where r: "placeUnit id sample_side ann_user chmod_unit plain_env chmod_facts PlaceStrict (newAncestry 1 2 16, []) =
      (Inr [proj_loc 0 7 2], a, [])"
    using sample_place [OF i] by blast
  have c: "f_unresolvable chmod_facts = []" "\<not> dirStatOnly chmod_facts" "f_unlinked chmod_facts = []" "f_dentries chmod_facts = []"
    "chmod_facts\<lparr>f_unlinked := []\<rparr> = chmod_facts"
    by (simp_all add: chmod_facts_def no_facts_def dirStatOnly_def)
  have b: "\<not> bypass ann_user chmod_unit" "\<not> grantsApply ann_user plain_env" "p_kind ann_user = KindMac" "p_name ann_user = ''ann''"
    by (simp_all add: bypass_def ann_user_def chmod_unit_def grantsApply_def plain_env_def Let_def)
  have v: "view_projects (e_table ann_engine) ann_user [7] [] =
      \<lparr>lv_unresolved = 0, lv_other = None, lv_free = [], lv_epochs = [(7, 1)]\<rparr>"
    by (simp add: view_projects_def view_project_def ann_engine_def table_of_def ann_lease_def new_lease_def held_def ann_user_def)
  have "projects_of [proj_loc 0 7 2] = [7]" by (simp add: projects_of_def proj_loc_def)
  moreover have "place_gate False [proj_loc 0 7 2] = None" by (simp add: proj_loc_def)
  ultimately show ?thesis using b v
    by (simp add: Decide_def chmod_analysis Let_def decide_granted_def c new_ticket_def decide_place_def r
        sample_ctx_def decide_leases_def touchesRoot_def decide_loop.simps admit_def ann_engine_def)
qed


end
