(* ===== verification/Lease_Life.thy ===== *)
theory Lease_Life
  imports Lease_Props
begin

section \<open>Lifetimes and restarts\<close>

text \<open>
  When a lease ends by itself, when it must not, and what a restart finds: the lifetimes of
  \<^verbatim>\<open>leases.go\<close> (idle, orphaned, checkout) and \<^verbatim>\<open>loadLeases\<close> over the keys the scripts left behind.
\<close>

subsection \<open>One sweep\<close>

lemma endLocked_other: "endLocked d now pr ev a w t k = (res, t', k') \<Longrightarrow> x \<noteq> pr \<Longrightarrow> lease_at t' x = lease_at t x"
  by (auto simp: endLocked_def end_begin_def end_finish_def Let_def
      split: option.split_asm if_split_asm prod.split_asm sum.split_asm)

lemma sweep1_other:
  assumes "x \<noteq> pr" and "sweep1 dur clk ds c pr (t, st) = (t', st')"
  shows "lease_at t' x = lease_at t x \<and> st' x = st x"
  using assms by (auto simp: sweep1_def dest: endLocked_other split: option.split_asm prod.split_asm)

lemma sweep1_none:
  "\<forall>l. lease_at t pr = Some l \<longrightarrow> expiryReason l (ms (clk pr)) c = None \<Longrightarrow> sweep1 dur clk ds c pr (t, st) = (t, st)"
  by (auto simp: sweep1_def split: option.split)

lemma fold_sweep1_quiet:
  assumes "\<forall>l. lease_at t pr = Some l \<longrightarrow> expiryReason l (ms (clk pr)) c = None"
  shows "lease_at (fst (fold (sweep1 dur clk ds c) xs (t, st))) pr = lease_at t pr"
  using assms
proof (induction xs arbitrary: t st)
  case (Cons x xs)
  obtain t1 st1 where s: "sweep1 dur clk ds c x (t, st) = (t1, st1)" by force
  have "lease_at t1 pr = lease_at t pr"
    using sweep1_none [of t pr clk c dur ds st] Cons.prems sweep1_other [OF _ s] s by (cases "x = pr") auto
  with Cons.IH [of t1 st1] Cons.prems s show ?case by simp
qed simp



subsection \<open>A lease whose time is over\<close>

lemma endLocked_ends:
  assumes "table_ok t st" and "lease_at t pr = Some l" and "held l" and "\<not> l_unresolved l"
    and "redis_GET (lk_counter (st pr)) \<noteq> Some ''9223372036854775807''"
  obtains s ep t' k' l' where "endLocked Delivered now pr ev a w t (st pr) = ((None, s, ep), t', k')"
    "s = snap l" "ep = Suc (l_epoch l)" "lease_at t' pr = Some l'" "\<not> held l'" "\<not> l_unresolved l'" "l_epoch l' = ep"
    "map_of (l_recent l') (l_holder l) = Some (ms now)"
proof -
  have c: "coherent l (st pr)" using table_okD [OF assms(1), of pr] assms(2,4) by simp
  then have e: "l_epoch l \<noteq> 0" using assms(3) by (auto simp: coherent_def held_def split: if_split_asm)
  have op: "''end'' = ''grant'' \<and> l_holder l = [] \<or> ''end'' \<in> {''end'', ''renew''} \<and> held l" using assms(3) by simp
  obtain n k' where tr: "transition Delivered ''end'' l (end_next now l) (st pr) = (Inr n, k')"
    by (rule transition_succeeds [OF c op assms(5)])
  have "n = Suc (l_epoch l)" using transition_coherent [OF c op tr] e by simp
  let ?l' = "(end_next now l)\<lparr>l_epoch := n, l_unresolved := False\<rparr>"
  have "endLocked Delivered now pr ev a w t (st pr) =
      ((None, snap l, n), logEvent now ev (snap l) a w (put_lease pr ?l' (put_lease pr (l\<lparr>l_unresolved := True\<rparr>) t)), k')"
    using assms(2-4) tr by (simp add: endLocked_def end_begin_def end_finish_def)
  then show thesis
    using \<open>n = Suc (l_epoch l)\<close>
    by (rule that [of _ _ _ _ ?l', OF _ refl]) (simp_all add: held_def end_next_def update_conv')
qed

lemma fold_sweep1_ends:
  assumes "pr \<in> set xs" and "table_ok t st" and "lease_at t pr = Some l" and "expiryReason l (ms (clk pr)) c \<noteq> None"
    and "ds pr = Delivered" and "redis_GET (lk_counter (st pr)) \<noteq> Some ''9223372036854775807''"
  shows "\<exists>l'. lease_at (fst (fold (sweep1 dur clk ds c) xs (t, st))) pr = Some l' \<and> \<not> held l' \<and> \<not> l_unresolved l' \<and>
    l_epoch l' = Suc (l_epoch l)"
  using assms
proof (induction xs arbitrary: t st)
  case (Cons x xs)
  obtain t1 st1 where s: "sweep1 dur clk ds c x (t, st) = (t1, st1)" by force
  show ?case
  proof (cases "x = pr")
    case False
    have "table_ok t1 st1"
      using sweep1_keeps [OF Cons.prems(2), of dur clk ds c x] s by (simp add: keeps_def)
    moreover note sweep1_other [OF False [symmetric] s]
    ultimately have "\<exists>l'. lease_at (fst (fold (sweep1 dur clk ds c) xs (t1, st1))) pr = Some l' \<and> \<not> held l' \<and>
        \<not> l_unresolved l' \<and> l_epoch l' = Suc (l_epoch l)"
      using Cons.prems False by (intro Cons.IH) auto
    with s show ?thesis by simp
  next
    case True
    have h: "held l" "\<not> l_unresolved l" using Cons.prems(4) by (auto simp: expiryReason_def split: if_split_asm)
    obtain why where w: "expiryReason l (ms (clk pr)) c = Some why" using Cons.prems(4) by auto
    obtain sn ep t2 k2 l' where e: "endLocked Delivered (clk pr) pr ''expire'' ''-proxy'' (expiry_text dur why) t (st pr) = ((None, sn, ep), t2, k2)"
      "sn = snap l" "ep = Suc (l_epoch l)" "lease_at t2 pr = Some l'" "\<not> held l'" "\<not> l_unresolved l'" "l_epoch l' = ep"
      "map_of (l_recent l') (l_holder l) = Some (ms (clk pr))"
      by (rule endLocked_ends [OF Cons.prems(2,3) h Cons.prems(6)])
    have "sweep1 dur clk ds c pr (t, st) = (t2, st(pr := k2))"
      using Cons.prems(3,5) w e(1) by (simp add: sweep1_def)
    moreover have "lease_at (fst (fold (sweep1 dur clk ds c) xs (t2, st(pr := k2)))) pr = lease_at t2 pr"
      using e by (intro fold_sweep1_quiet) (simp add: expiryReason_def)
    ultimately show ?thesis using e True by simp
  qed
qed simp

text \<open>C18: A lease whose lifetime is over ends at the next sweep: when Redis answers and the epoch counter is
  not exhausted, an idle, orphaned or ended-checkout lease is free after the sweep, in a new epoch.\<close>

theorem expired_lease_is_swept:
  assumes "table_ok t st" and "lease_at t pr = Some l"
    and "expiryReason l (ms now) (t_cfg t) \<noteq> None" and "expiryReason l (ms (clk pr)) (t_cfg t) \<noteq> None"
    and "ds pr = Delivered" and "redis_GET (lk_counter (st pr)) \<noteq> Some ''9223372036854775807''"
  shows "\<exists>l'. lease_at (fst (sweep dur now clk ds (t, st))) pr = Some l' \<and> \<not> held l' \<and> \<not> l_unresolved l' \<and>
    l_epoch l' = Suc (l_epoch l)"
proof -
  have "(pr, l) \<in> set (t_leases t)" using assms(2) by (rule map_of_SomeD)
  then have "pr \<in> set (sort (map fst (filter (\<lambda>(pr, l). expiryReason l (ms now) (t_cfg t) \<noteq> None) (t_leases t))))"
    using assms(3) by force
  then show ?thesis
    unfolding sweep_def Let_def fst_conv by (rule fold_sweep1_ends) (fact assms)+
qed

theorem expired_lease_is_swept_witness:
  "\<exists>l'. lease_at (fst (sweep (\<lambda>_. []) 2000000000000 (\<lambda>_. 2000000000000) (\<lambda>_. Delivered)
        (table_of [(5, ann_lease)], (\<lambda>_. free_keys)(5 := ann_keys)))) 5 = Some l' \<and> \<not> held l' \<and> \<not> l_unresolved l' \<and>
    l_epoch l' = Suc (l_epoch ann_lease)"
proof (rule expired_lease_is_swept [OF ann_ok])
  show "lease_at (table_of [(5, ann_lease)]) 5 = Some ann_lease" by (simp add: table_of_def)
  have "expiryReason ann_lease (ms 2000000000000) (t_cfg (table_of [(5, ann_lease)])) \<noteq> None"
    by (simp add: expiryReason_def ann_lease_def new_lease_def held_def LeaseAuto_def LeaseCheckout_def table_of_def ms_def
        defaultLeaseCfg_def liveMs_def Milliseconds_def defaultOrphan_def Second_def go_arith)
  then show "expiryReason ann_lease (ms 2000000000000) (t_cfg (table_of [(5, ann_lease)])) \<noteq> None"
    "expiryReason ann_lease (ms ((\<lambda>_. 2000000000000) (5 :: nat))) (t_cfg (table_of [(5, ann_lease)])) \<noteq> None" by simp_all
  show "redis_GET (lk_counter (((\<lambda>_. free_keys)(5 := ann_keys)) 5)) \<noteq> Some ''9223372036854775807''"
    by (simp add: ann_keys_def)
qed simp

subsection \<open>Checkouts\<close>

text \<open>A checkout is bounded by \<^verbatim>\<open>checkout_max_s\<close> from the first grant of its tenure: a checkout granted or
  renewed for a time to live within it ends at most that long after the grant, so asking again never
  extends a checkout past the limit.\<close>

lemma checkout_is_bounded:
  assumes "grantLocked d now lbl p pr LeaseCheckout ttl why t k = (Inr (s, fs), t', k')" and "s_holder s = p_name p"
    and "0 < ttl" and "ttl \<le> lc_checkoutMax (t_cfg t)" and "1000000 dvd lc_checkoutMax (t_cfg t)"
    and "\<forall>l. lease_at t pr = Some l \<longrightarrow> l_holder l = p_name p \<longrightarrow>
      0 \<le> l_grantedMs l \<and> l_grantedMs l + Milliseconds (lc_checkoutMax (t_cfg t)) \<le> max_i64"
    and "p_name p \<noteq> []"
  shows "s_mode s = LeaseCheckout \<and>
    s_checkoutUntilMs s \<le> s_grantedMs s + Milliseconds (lc_checkoutMax (t_cfg t))"
proof -
  let ?max = "lc_checkoutMax (t_cfg t)"
  obtain l t1 where l: "leaseLocked pr t = (l, t1)" by force
  have l': "lease_at t pr = Some l \<or> l = new_lease pr" using l by (auto simp: leaseLocked_def split: option.split_asm)
  have until: "ms (now + ttl) \<le> ms now + Milliseconds ?max"
  proof -
    have "ms (now + ttl) \<le> (now + ?max) div 1000000" unfolding ms_def using assms(4) by (intro zdiv_mono1) simp_all
    also have "\<dots> = ms now + ?max div 1000000" unfolding ms_def using assms(5) by (simp add: div_plus_div_distrib_dvd_right)
    finally show ?thesis using assms(3,4) by (simp add: Milliseconds_def)
  qed
  show ?thesis
  proof (cases "held l")
    case True
    then have h: "lease_at t pr = Some l" using l' by (auto simp: new_lease_def held_def)
    have "\<not> l_unresolved l \<and> l_holder l = p_name p"
      using assms(1,2) l True by (auto simp: grantLocked_def grant_begin_def snap_def Let_def split: if_split_asm)
    moreover from this h assms(3-6) have "wrap64 (l_grantedMs l + Milliseconds ?max) = l_grantedMs l + Milliseconds ?max"
      by (intro wrap64_id) (auto simp: Milliseconds_def go_arith)
    ultimately show ?thesis
      using assms(1) l True
      by (auto simp: grantLocked_def grant_begin_def grant_next_def grant_finish_def snap_def Let_def
          split: if_split_asm sum.split_asm prod.split_asm)
  next
    case False
    with assms(1) l until show ?thesis
      by (auto simp: grantLocked_def grant_begin_def grant_next_def grant_finish_def snap_def Let_def
          split: if_split_asm sum.split_asm prod.split_asm)
  qed
qed

lemma checkout_is_bounded_first:
  "\<exists>s fs t' k'. grantLocked Delivered 0 [] ann_user 5 LeaseCheckout (3600 * Second) [] (table_of [(5, new_lease 5)]) free_keys
      = (Inr (s, fs), t', k') \<and> s_checkoutUntilMs s \<le> s_grantedMs s + Milliseconds defaultCheckoutMax"
proof -
  have ok: "table_ok (table_of [(5, new_lease 5)]) (\<lambda>_. free_keys)"
    by (simp add: table_ok_def table_of_def new_lease_def coherent_def keys_free_def free_keys_def)
  obtain s fs t' k' where g: "grantLocked Delivered 0 [] ann_user 5 LeaseCheckout (3600 * Second) [] (table_of [(5, new_lease 5)])
      ((\<lambda>_. free_keys) 5) = (Inr (s, fs), t', k')" "s_holder s = ''ann''"
    using grantLocked_free [OF ok, of 5 "new_lease 5" ann_user 0 "[]" LeaseCheckout "3600 * Second" "[]"]
    by (auto simp: table_of_def new_lease_def held_def free_keys_def ann_user_def)
  have "s_mode s = LeaseCheckout \<and> s_checkoutUntilMs s \<le> s_grantedMs s +
      Milliseconds (lc_checkoutMax (t_cfg (table_of [(5, new_lease 5)])))"
    by (rule checkout_is_bounded [OF g(1)])
      (use g(2) in \<open>simp_all add: ann_user_def table_of_def defaultLeaseCfg_def defaultCheckoutMax_def Second_def new_lease_def\<close>)
  with g(1) show ?thesis by (auto simp: table_of_def defaultLeaseCfg_def)
qed

subsection \<open>Restart\<close>

lemma lease_field_facts [simp]:
  "l_holder (lease_field f v l) = (if f = ''holder'' then v else l_holder l)"
  "l_epoch (lease_field f v l) = (if f = ''epoch'' then nat (fst (ParseInt v) mod 2 ^ 64) else l_epoch l)"
  "l_proj (lease_field f v l) = l_proj l" "l_unresolved (lease_field f v l) = l_unresolved l"
  by (simp_all add: lease_field_def Let_def)

abbreviation flat_hash :: "(string \<times> string) list \<Rightarrow> resp_value list" where
  "flat_hash h \<equiv> concat (map (\<lambda>(f, v). [bulk f, bulk v]) h)"

lemma lease_fields_flat:
  "distinct (map fst h) \<Longrightarrow>
   l_holder (lease_fields (flat_hash h) l) = (case map_of h ''holder'' of Some v \<Rightarrow> v | None \<Rightarrow> l_holder l) \<and>
   l_epoch (lease_fields (flat_hash h) l) =
     (case map_of h ''epoch'' of Some v \<Rightarrow> nat (fst (ParseInt v) mod 2 ^ 64) | None \<Rightarrow> l_epoch l) \<and>
   l_proj (lease_fields (flat_hash h) l) = l_proj l \<and> l_unresolved (lease_fields (flat_hash h) l) = l_unresolved l"
proof (induction h arbitrary: l)
  case (Cons fv h)
  obtain f v where fv: "fv = (f, v)" by force
  have n: "map_of h f = None" using Cons.prems fv by (simp add: map_of_eq_None_iff)
  show ?case
    using Cons.IH [of "lease_field f v l"] Cons.prems n by (auto simp: fv bulk_def split: option.split)
qed simp

lemma loaded_record:
  assumes "keys_hold n hld k" and "loadLeaseRecord pr (Inr (loadLeaseRecordLua k)) = Inr h"
  shows "record_ok pr (Some (load_lease startMs pr h)) k \<and> \<not> l_unresolved (load_lease startMs pr h)"
proof -
  obtain m where m: "lk_counter k = Some (RString (FormatUint n))" "lk_hash k = Some (RHash m)" "distinct (map fst m)"
    "map_of m ''epoch'' = Some (FormatUint n)" "map_of m ''holder'' = Some hld" "0 < n" "int n \<le> max_i64"
    using assms(1) by (auto simp: keys_hold_def epoch_range_def)
  have h: "h = flat_hash m"
    using assms(2) m(1,2) by (auto simp: loadLeaseRecord_def loadLeaseRecordLua_def Let_def split: if_split_asm option.split_asm sum.split_asm)
  let ?l = "lease_fields h (new_lease pr)"
  have n: "nat (int n mod 2 ^ 64) = n" using m(7) by (simp add: go_arith)
  then have "l_holder ?l = hld" "l_epoch ?l = n" "l_proj ?l = pr" "\<not> l_unresolved ?l"
    using lease_fields_flat [OF m(3), of "new_lease pr"] m(4,5) ParseInt_FormatUint [OF m(7)]
    by (simp_all add: h) (simp_all add: new_lease_def)
  then show ?thesis using assms(1) m(6) by (simp add: load_lease_def Let_def coherent_def)
qed

lemma free_not_loaded: "keys_free k \<Longrightarrow> \<exists>e. loadLeaseRecord pr (Inr (loadLeaseRecordLua k)) = Inl e"
  by (auto simp: keys_free_def loadLeaseRecord_def loadLeaseRecordLua_def null_bulk_def is_bulk_def bulk_def Let_def)

definition settled_by :: "(nat \<Rightarrow> lease_keys) \<Rightarrow> (nat \<times> lease) list \<Rightarrow> bool" where
  "settled_by st cands \<longleftrightarrow>
     (\<forall>pr l. map_of cands pr = Some l \<longrightarrow> record_ok pr (Some l) (st pr) \<and> \<not> l_unresolved l)"

lemma load_keys_ok:
  assumes ok: "\<And>pr. keys_ok (st pr)" and rd: "rd = (\<lambda>pr. Inr (loadLeaseRecordLua (st pr)))"
  shows "load_keys rd startMs ks cands = Inr cands' \<Longrightarrow> settled_by st cands \<Longrightarrow>
    settled_by st cands' \<and> (\<forall>pr. map_of cands pr \<noteq> None \<longrightarrow> map_of cands' pr \<noteq> None) \<and>
    (\<forall>pr. leaseKey pr \<in> v_str ` set ks \<longrightarrow> map_of cands' pr \<noteq> None)"
proof (induction ks arbitrary: cands)
  case (Cons k ks)
  from Cons.prems(1) obtain proj h where p: "leaseKey proj = v_str k"
    and h: "loadLeaseRecord proj (rd proj) = Inr h"
    and r: "load_keys rd startMs ks (AList.update proj (load_lease startMs proj h) cands) = Inr cands'"
    by (auto split: option.split_asm if_split_asm sum.split_asm)
  have "\<not> keys_free (st proj)" using free_not_loaded [of "st proj" proj] h by (auto simp: rd)
  with ok [of proj] obtain n hl where "keys_hold n hl (st proj)" by (auto simp: keys_ok_def)
  note l = loaded_record [OF this h [unfolded rd], of startMs]
  have "settled_by st (AList.update proj (load_lease startMs proj h) cands)"
    using Cons.prems(2) l by (auto simp: settled_by_def update_conv')
  note ih = Cons.IH [OF r this]
  have keep: "map_of cands' pr \<noteq> None" if "map_of cands pr \<noteq> None \<or> pr = proj" for pr
    using ih that by (auto simp: update_conv' split: if_split_asm)
  have "pr = proj" if "leaseKey pr = v_str k" for pr
    using that p by (simp add: leaseKey_def FormatUint_inj flip: p)
  then have "map_of cands' pr \<noteq> None" if "leaseKey pr \<in> v_str ` set (k # ks)" for pr
    using that ih keep by (metis (no_types, lifting) imageE image_eqI set_ConsD)
  with ih keep show ?case by blast
qed simp

definition scan_keys :: "(nat \<Rightarrow> string + resp_value) \<Rightarrow> nat \<Rightarrow> string set" where
  "scan_keys scan i = (case scan i of Inr v \<Rightarrow> v_str ` set (v_elems (v_elems v ! 1)) | Inl e \<Rightarrow> {})"

definition scan_ends :: "(nat \<Rightarrow> string + resp_value) \<Rightarrow> nat \<Rightarrow> bool" where
  "scan_ends scan i \<longleftrightarrow> (case scan i of Inr v \<Rightarrow> v_str (v_elems v ! 0) = ''0'' | Inl e \<Rightarrow> False)"

definition scan_loaded :: "(nat \<Rightarrow> lease_keys) \<Rightarrow> (nat \<Rightarrow> string + resp_value) \<Rightarrow> nat \<Rightarrow> (nat \<times> lease) list \<Rightarrow> (nat \<times> lease) list \<Rightarrow> bool" where
  "scan_loaded st scan i cands cands' \<longleftrightarrow>
     settled_by st cands' \<and> (\<forall>pr. map_of cands pr \<noteq> None \<longrightarrow> map_of cands' pr \<noteq> None) \<and>
     (\<exists>n \<ge> i. scan_ends scan n \<and> (\<forall>j pr. i \<le> j \<and> j \<le> n \<and> leaseKey pr \<in> scan_keys scan j \<longrightarrow> map_of cands' pr \<noteq> None))"

lemma scan_loaded_step:
  assumes "scan_loaded st scan (Suc i) mid cands'" and "\<forall>pr. map_of cands pr \<noteq> None \<longrightarrow> map_of mid pr \<noteq> None"
    and "\<forall>pr. leaseKey pr \<in> scan_keys scan i \<longrightarrow> map_of mid pr \<noteq> None"
  shows "scan_loaded st scan i cands cands'"
proof -
  from assms(1) obtain n where n: "Suc i \<le> n" "scan_ends scan n"
    "\<forall>j pr. Suc i \<le> j \<and> j \<le> n \<and> leaseKey pr \<in> scan_keys scan j \<longrightarrow> map_of cands' pr \<noteq> None"
    and m: "settled_by st cands'" "\<forall>pr. map_of mid pr \<noteq> None \<longrightarrow> map_of cands' pr \<noteq> None"
    by (auto simp: scan_loaded_def)
  have "map_of cands' pr \<noteq> None" if "i \<le> j" "j \<le> n" "leaseKey pr \<in> scan_keys scan j" for j pr
  proof (cases "j = i")
    case True
    with that(3) assms(3) m(2) show ?thesis by blast
  next
    case False
    with that(1) have "Suc i \<le> j" by simp
    with that(2,3) n(3) show ?thesis by blast
  qed
  with n(1,2) m assms(2) show ?thesis unfolding scan_loaded_def by (meson Suc_leD)
qed

lemma load_scan_ok:
  assumes ok: "\<And>pr. keys_ok (st pr)"
    and "load_scan scan (\<lambda>pr. Inr (loadLeaseRecordLua (st pr))) startMs i cands = Some y"
    and "y = Inr cands'" and "settled_by st cands"
  shows "scan_loaded st scan i cands cands'"
proof -
  let ?rd = "\<lambda>pr. Inr (loadLeaseRecordLua (st pr)) :: string + resp_value"
  have "?rd = ?rd \<longrightarrow> settled_by st cands \<longrightarrow> (\<forall>cands'. y = Inr cands' \<longrightarrow> scan_loaded st scan i cands cands')"
    using assms(2)
  proof (rule load_scan.raw_induct [rotated, where P = "\<lambda>scan rd startMs i cands y. rd = ?rd \<longrightarrow> settled_by st cands \<longrightarrow>
      (\<forall>cands'. y = Inr cands' \<longrightarrow> scan_loaded st scan i cands cands')"], intro impI allI)
    fix f :: "(nat \<Rightarrow> string + resp_value) \<Rightarrow> (nat \<Rightarrow> string + resp_value) \<Rightarrow> int \<Rightarrow> nat \<Rightarrow> (nat \<times> lease) list
        \<Rightarrow> (string + (nat \<times> lease) list) option"
      and scan rd startMs i cands y cands'
    assume ih: "\<And>scan rd startMs i cands y. f scan rd startMs i cands = Some y \<Longrightarrow>
        rd = ?rd \<longrightarrow> settled_by st cands \<longrightarrow> (\<forall>cands'. y = Inr cands' \<longrightarrow> scan_loaded st scan i cands cands')"
      and eq: "(case scan i of Inl e \<Rightarrow> Some (Inl e)
        | Inr v \<Rightarrow> if length (v_elems v) \<noteq> 2 then Some (Inl errProtocol)
            else case load_keys rd startMs (v_elems (v_elems v ! 1)) cands of Inl e \<Rightarrow> Some (Inl e)
              | Inr cands' \<Rightarrow> if v_str (v_elems v ! 0) = ''0'' then Some (Inr cands')
                  else f scan rd startMs (Suc i) cands') = Some y"
      and rd: "rd = ?rd" and s: "settled_by st cands" and y: "y = Inr cands'"
    from eq y obtain v mid where v: "scan i = Inr v" "load_keys rd startMs (v_elems (v_elems v ! 1)) cands = Inr mid"
      and m: "if v_str (v_elems v ! 0) = ''0'' then cands' = mid else f scan rd startMs (Suc i) mid = Some (Inr cands')"
      by (auto split: sum.split_asm if_split_asm)
    note k = load_keys_ok [OF ok rd v(2) s]
    have sk: "scan_keys scan i = v_str ` set (v_elems (v_elems v ! 1))" by (simp add: scan_keys_def v)
    show "scan_loaded st scan i cands cands'"
    proof (cases "v_str (v_elems v ! 0) = ''0''")
      case True
      with m have c: "cands' = mid" by simp
      have "scan_ends scan i" using True by (simp add: scan_ends_def v)
      then show ?thesis unfolding scan_loaded_def c using k sk by (metis le_antisym order_refl)
    next
      case False
      with m have "scan_loaded st scan (Suc i) mid cands'" using ih [of scan rd startMs "Suc i" mid] rd k by simp
      then show ?thesis by (rule scan_loaded_step) (use k sk in simp_all)
    qed
  qed
  with assms(3,4) show ?thesis by simp
qed


definition sample_scan :: "nat \<Rightarrow> string + resp_value" where
  "sample_scan i = Inr (Value CHR ''*'' [] 0 [bulk ''0'', Value CHR ''*'' [] 0 [bulk (leaseKey 5)] False] False)"


end
