(* ===== verification/Fence_Life.thy ===== *)
theory Fence_Life
  imports Decide_Props Lease_Life
begin

section \<open>Units in flight\<close>

text \<open>
  The engine with the units it has admitted and that have not ended, as a step relation.  A unit enters
  by a round of the attempt loop that admits it while nothing else runs (\<open>x_other\<close> is the identity in
  that round: the read fences are taken and the table is read under its lock); it leaves when
  \<^verbatim>\<open>done\<close> or the fence timeout releases its ticket.  A grant, an end, a step of the sweep and a step of
  the flush take the write side of the project's fence, so they need that no unit in flight has it.
\<close>

type_synonym flight = "principal \<times> punit \<times> ticket"

definition fence_free :: "flight list \<Rightarrow> nat \<Rightarrow> bool" where
  "fence_free fl pr \<longleftrightarrow> (\<forall>(p, u, tk) \<in> set fl. pr \<notin> set (tk_fences tk))"

definition alone :: "decide_ctx \<Rightarrow> bool" where
  "alone cx \<longleftrightarrow> (\<forall>n pr e. x_other cx n pr e = e)"

definition landed :: "flight \<Rightarrow> ticket \<Rightarrow> flight list \<Rightarrow> flight list" where
  "landed x tk fl = (if tk_released tk then remove1 x fl else fl)"

inductive fence_step :: "engine \<times> flight list \<Rightarrow> engine \<times> flight list \<Rightarrow> bool" where
  admitted: "alone cx \<Longrightarrow> decide_loop cx p u prs 0 granted tk e = (tk', e') \<Longrightarrow> tk_deny tk' = None \<Longrightarrow> 0 \<notin> set prs \<Longrightarrow>
    fence_step (e, fl) (e', (p, u, tk') # fl)"
| finished: "(p, u, tk) \<in> set fl \<Longrightarrow> done_unit now ds kill p u oc tk e = (tk', e') \<Longrightarrow>
    fence_step (e, fl) (e', landed (p, u, tk) tk' fl)"
| timed_out: "(p, u, tk) \<in> set fl \<Longrightarrow> onTimeout now summary kill p tk e = (tk', e') \<Longrightarrow>
    fence_step (e, fl) (e', landed (p, u, tk) tk' fl)"
| granted: "fence_free fl pr \<Longrightarrow> grantLocked d now lbl p pr md ttl why (e_table e) (e_keys e pr) = (res, t', k') \<Longrightarrow>
    fence_step (e, fl) (e\<lparr>e_table := t', e_keys := (e_keys e)(pr := k')\<rparr>, fl)"
| ended: "fence_free fl pr \<Longrightarrow> endLocked d now pr event actor why (e_table e) (e_keys e pr) = (res', t', k') \<Longrightarrow>
    fence_step (e, fl) (e\<lparr>e_table := t', e_keys := (e_keys e)(pr := k')\<rparr>, fl)"
| swept: "fence_free fl pr \<Longrightarrow> sweep1 dur clk ds c pr (e_table e, e_keys e) = (t', st') \<Longrightarrow>
    fence_step (e, fl) (e\<lparr>e_table := t', e_keys := st'\<rparr>, fl)"
| flushed: "fence_free fl pr \<Longrightarrow> flush1 ds pr (e_table e, e_keys e) = (t', st') \<Longrightarrow>
    fence_step (e, fl) (e\<lparr>e_table := t', e_keys := st'\<rparr>, fl)"
| beaten: "heartbeat now p pending (e_table e) = (rs, t') \<Longrightarrow> fence_step (e, fl) (e\<lparr>e_table := t'\<rparr>, fl)"
| refused: "deny cx p u d tk e = (tk', e') \<Longrightarrow> fence_step (e, fl) (e', fl)"
| configured: "fence_step (e, fl) (e\<lparr>e_table := loadCfg reply (e_table e)\<rparr>, fl)"

inductive_cases fence_stepE: "fence_step s s'"

subsection \<open>Leases of the units in flight\<close>

definition flight_ok :: "engine \<times> flight list \<Rightarrow> bool" where
  "flight_ok s \<longleftrightarrow> (\<forall>(p, u, tk) \<in> set (snd s). bypass p u \<or> (\<forall>pr \<in> set (tk_fences tk). holds p pr (tk_epochs tk) (e_table (fst s))))"

lemma flight_okI:
  "(\<And>p u tk pr. (p, u, tk) \<in> set fl \<Longrightarrow> \<not> bypass p u \<Longrightarrow> pr \<in> set (tk_fences tk) \<Longrightarrow> holds p pr (tk_epochs tk) (e_table e)) \<Longrightarrow> flight_ok (e, fl)"
  by (auto simp: flight_ok_def)

lemma flight_okD:
  "flight_ok (e, fl) \<Longrightarrow> (p, u, tk) \<in> set fl \<Longrightarrow> \<not> bypass p u \<Longrightarrow> pr \<in> set (tk_fences tk) \<Longrightarrow> holds p pr (tk_epochs tk) (e_table e)"
  by (auto simp: flight_ok_def)

lemma holds_cong: "lease_at t' pr = lease_at t pr \<Longrightarrow> holds p pr eps t' \<longleftrightarrow> holds p pr eps t"
  by (simp add: holds_def)

text \<open>A step that leaves the records of the fenced projects alone.\<close>

lemma flight_ok_frame:
  assumes "flight_ok (e, fl)" and "set fl' \<subseteq> set fl" and "\<And>x. \<not> fence_free fl x \<Longrightarrow> lease_at (e_table e') x = lease_at (e_table e) x"
  shows "flight_ok (e', fl')"
proof (rule flight_okI)
  fix p u tk pr assume a: "(p, u, tk) \<in> set fl'" "\<not> bypass p u" "pr \<in> set (tk_fences tk)"
  with assms(2) have i: "(p, u, tk) \<in> set fl" by blast
  with a(3) have "\<not> fence_free fl pr" unfolding fence_free_def by blast
  from holds_cong [OF assms(3) [OF this]] flight_okD [OF assms(1) i a(2,3)] show "holds p pr (tk_epochs tk) (e_table e')" by simp
qed

lemma grantLocked_other: "grantLocked d now lbl p pr md ttl why t k = (res, t', k') \<Longrightarrow> x \<noteq> pr \<Longrightarrow> lease_at t' x = lease_at t x"
  by (auto simp: grantLocked_def grant_begin_def leaseLocked_def grant_finish_def Let_def
      split: option.split_asm if_split_asm prod.split_asm sum.split_asm)

lemma flush1_other: "flush1 ds pr (t, st) = (t', st') \<Longrightarrow> x \<noteq> pr \<Longrightarrow> lease_at t' x = lease_at t x"
  by (auto simp: flush1_def flush_finish_def Let_def split: option.split_asm if_split_asm prod.split_asm delivery.split_asm)

lemma run_on_commit_leases: "t_leases (e_table (run_on_commit now ds p act e)) = t_leases (e_table e)"
  by (simp add: run_on_commit_def Let_def split: view_action.split)

lemma done_learn_leases: "t_leases (e_table (done_learn now ds p oc tk e)) = t_leases (e_table e)"
proof -
  have "t_leases (e_table (fold (run_on_commit now ds p) acts e')) = t_leases (e_table e')" for acts e'
    by (induction acts arbitrary: e') (simp_all add: run_on_commit_leases)
  then show ?thesis by (simp add: done_learn_def)
qed

lemma done_unit_leases: "done_unit now ds kill p u oc tk e = (tk', e') \<Longrightarrow> t_leases (e_table e') = t_leases (e_table e)"
  by (auto simp: done_unit_def Let_def bump_grants_def done_learn_leases split: if_split_asm)

lemma onTimeout_leases: "onTimeout now summary kill p tk e = (tk', e') \<Longrightarrow> t_leases (e_table e') = t_leases (e_table e)"
  by (auto simp: onTimeout_def Let_def bump_grants_def split: if_split_asm)

lemma deny_leases: "deny cx p u d tk e = (tk', e') \<Longrightarrow> t_leases (e_table e') = t_leases (e_table e)"
  by (auto simp: deny_def)

lemma beat_holds: "heartbeat now q pending t = (res, t') \<Longrightarrow> holds p pr eps t \<Longrightarrow> holds p pr eps t'"
  by (cases "lease_at t pr") (auto simp: holds_def heartbeat_leases beat_def held_def)

lemma landed_subset: "set (landed x tk fl) \<subseteq> set fl"
  by (simp add: landed_def set_remove1_subset)

lemma admitted_table:
  assumes "alone cx" and "decide_loop cx p u prs 0 granted tk e = (tk', e')" and "tk_deny tk' = None"
  shows "e_table e' = e_table e \<or> e_table e' = touch (x_time cx) p prs (e_table e)"
  using assms by (subst (asm) decide_loop.simps) (auto simp: alone_def admit_def Let_def split: if_split_asm option.split_asm)

lemma fence_step_ok: "fence_step s s' \<Longrightarrow> flight_ok s \<Longrightarrow> flight_ok s'"
proof (induction rule: fence_step.induct)
  case (admitted cx p u prs granted tk e tk' e' fl)
  note a = decide_loop_admits [OF admitted.hyps(2,3)]
  from admitted_table [OF admitted.hyps(1-3)] have h: "holds q pr eps (e_table e') \<longleftrightarrow> holds q pr eps (e_table e)" for q pr eps
    by (auto simp: touch_holds)
  show ?case
  proof (rule flight_okI)
    fix q v tk1 pr assume x: "(q, v, tk1) \<in> set ((p, u, tk') # fl)" "\<not> bypass q v" "pr \<in> set (tk_fences tk1)"
    then show "holds q pr (tk_epochs tk1) (e_table e')"
      using a admitted.hyps(4) flight_okD [OF admitted.prems] h by auto
  qed
next
  case (finished p u tk fl now ds kill oc e tk' e')
  then show ?case using done_unit_leases by (intro flight_ok_frame [OF finished.prems landed_subset]) simp
next
  case (timed_out p u tk fl now summary kill e tk' e')
  then show ?case using onTimeout_leases by (intro flight_ok_frame [OF timed_out.prems landed_subset]) simp
next
  case (granted fl pr d now lbl p md ttl why e res t' k')
  show ?case by (rule flight_ok_frame [OF granted.prems subset_refl]) (use granted.hyps(1) grantLocked_other [OF granted.hyps(2)] in \<open>fastforce\<close>)
next
  case (ended fl pr d now event actor why e res' t' k')
  show ?case by (rule flight_ok_frame [OF ended.prems subset_refl]) (use ended.hyps(1) endLocked_other [OF ended.hyps(2)] in \<open>fastforce\<close>)
next
  case (swept fl pr dur clk ds c e t' st')
  show ?case by (rule flight_ok_frame [OF swept.prems subset_refl]) (use swept.hyps(1) sweep1_other [OF _ swept.hyps(2)] in \<open>fastforce\<close>)
next
  case (flushed fl pr ds e t' st')
  show ?case by (rule flight_ok_frame [OF flushed.prems subset_refl]) (use flushed.hyps(1) flush1_other [OF flushed.hyps(2)] in \<open>fastforce\<close>)
next
  case (beaten now p pending e rs t' fl)
  then show ?case using beat_holds flight_okD [OF beaten.prems] by (intro flight_okI) simp
next
  case (refused cx p u d tk e tk' e' fl)
  then show ?case using deny_leases by (intro flight_ok_frame [OF refused.prems]) simp_all
next
  case (configured e fl reply)
  then show ?case by (intro flight_ok_frame [OF configured.prems]) simp_all
qed




end
