(* ===== verification/Lease_Cmd_Props.thy ===== *)
theory Lease_Cmd_Props
  imports Lease_Cmd Fence_Life "HOL-Library.Multiset"
begin

section \<open>What the lease commands answer and change\<close>

subsection \<open>One frame per reply\<close>

text \<open>
  A reply is typed as one RESP value: it is what \<open>EncodeValue\<close> renders for some value whose lines hold
  no CR or LF.  \<open>frames vs b\<close> says that of a sequence of values.
\<close>

fun clean_value :: "resp_value \<Rightarrow> bool" where
  "clean_value (Value t s i es nl) \<longleftrightarrow> (t \<in> set text_types \<longrightarrow> CR \<notin> set s \<and> LF \<notin> set s) \<and> (\<forall>e \<in> set es. clean_value e)"

definition frames :: "resp_value list \<Rightarrow> bytes \<Rightarrow> bool" where
  "frames vs b \<longleftrightarrow> EncodeValues vs = Inr b \<and> (\<forall>v \<in> set vs. clean_value v)"

definition one_frame :: "bytes \<Rightarrow> bool" where
  "one_frame b \<longleftrightarrow> (\<exists>v. EncodeValue v = Inr b \<and> clean_value v)"

lemma frames_one: "frames [v] b \<Longrightarrow> one_frame b"
  by (auto simp: frames_def one_frame_def split: sum.split_asm)

lemma frames_Nil: "frames [] []"
  by (simp add: frames_def)

lemma frames_integer: "frames vs b \<Longrightarrow> frames (Value CHR '':'' [] i [] False # vs) (frame_integer i @ b)"
  by (simp add: frames_def frame_integer_def text_types_def)

lemma frames_bulk: "frames vs b \<Longrightarrow> frames (Value CHR ''$'' s 0 [] False # vs) (frame_bulk s @ b)"
  by (simp add: frames_def frame_bulk_def text_types_def bulk_types_def)

lemma frames_simple:
  "frames vs b \<Longrightarrow> CR \<notin> set s \<Longrightarrow> LF \<notin> set s \<Longrightarrow> frames (Value CHR ''+'' s 0 [] False # vs) (frame_simple s @ b)"
  by (simp add: frames_def frame_simple_def text_types_def)

lemma frames_arr: "frames ws b \<Longrightarrow> n = length ws \<Longrightarrow> one_frame (frame_arr n @ b)"
  by (rule frames_one [of "Value CHR ''*'' [] 0 ws False"])
    (simp add: frames_def frame_arr_def text_types_def bulk_types_def aggr_types_def)

lemma frames_append: "frames vs b \<Longrightarrow> frames ws c \<Longrightarrow> frames (vs @ ws) (b @ c)"
proof (induction vs arbitrary: b)
  case (Cons v vs)
  then obtain b1 b2 where "EncodeValue v = Inr b1" "EncodeValues vs = Inr b2" "b = b1 @ b2" "clean_value v" "frames vs b2"
    by (auto simp: frames_def split: sum.split_asm)
  with Cons.IH [of b2] Cons.prems(2) show ?case by (simp add: frames_def)
qed (simp add: frames_def)

lemma one_frames: "one_frame b \<Longrightarrow> \<exists>v. frames [v] b"
  unfolding one_frame_def
proof (elim exE conjE)
  fix v assume "EncodeValue v = Inr b" "clean_value v"
  then have "frames [v] b" by (simp add: frames_def)
  then show ?thesis by blast
qed

lemma frames_concat:
  assumes "\<And>x. x \<in> set xs \<Longrightarrow> one_frame (f x)"
  shows "\<exists>vs. length vs = length xs \<and> frames vs (concat (map f xs))"
  using assms
proof (induction xs)
  case (Cons x xs)
  then obtain v vs where "frames [v] (f x)" "length vs = length xs" "frames vs (concat (map f xs))"
    using one_frames [of "f x"] by auto
  then show ?case using frames_append [of "[v]" "f x" vs] by (intro exI [of _ "v # vs"]) simp
qed (use frames_Nil in simp)

lemma errFrame_one: "one_frame (errFrame msg)"
  unfolding one_frame_def
  by (intro exI [of _ "Value CHR ''-'' (''ERR '' @ map (\<lambda>c. if c = CR \<or> c = LF then CHR '' '' else c) msg) 0 [] False"])
    (auto simp: errFrame_def text_types_def)

lemma Reply_one: "d_proj d \<le> max_u64 \<Longrightarrow> d_epoch d \<le> max_u64 \<Longrightarrow> one_frame (Reply d)"
  unfolding one_frame_def
  by (intro exI [of _ "Value CHR ''-'' (Error d) 0 [] False"])
    (use Error_shape [of d] in \<open>auto simp: Reply_def text_types_def\<close>)

lemmas frames_rules = frames_integer frames_bulk frames_simple frames_Nil


lemma acquire_reply_one: "one_frame (acquire_reply (acquire_status p s m) s until fs)"
proof -
  have "frames [Value CHR ''+'' (acquire_status p s m) 0 [] False, Value CHR '':'' [] (int64_of (s_epoch s)) [] False,
      Value CHR ''$'' (holderStr (s_holder s) (s_host s)) 0 [] False, Value CHR '':'' [] until [] False, Value CHR '':'' [] (flag fs) [] False]
      (frame_simple (acquire_status p s m) @ frame_integer (int64_of (s_epoch s)) @ frame_bulk (holderStr (s_holder s) (s_host s))
       @ frame_integer until @ frame_integer (flag fs) @ [])"
    by (intro frames_rules) (auto simp: acquire_status_def)
  then show ?thesis unfolding acquire_reply_def append_Nil2 by (rule frames_arr) simp
qed

lemma beat_entry_one: "st \<in> {''held'', ''lost''} \<Longrightarrow> one_frame (beat_entry pr ep st md)"
proof -
  assume st: "st \<in> {''held'', ''lost''}"
  have "frames [Value CHR '':'' [] (int64_of pr) [] False, Value CHR '':'' [] (int64_of ep) [] False, Value CHR ''+'' st 0 [] False,
      Value CHR ''$'' md 0 [] False]
    (frame_integer (int64_of pr) @ frame_integer (int64_of ep) @ frame_simple st @ frame_bulk md @ [])"
    by (intro frames_rules) (use st in auto)
  then show ?thesis unfolding beat_entry_def append_Nil2 by (rule frames_arr) simp
qed

lemma release_status_cases: "release_status p ep ol \<in> {''NOT_HOLDER'', ''STALE_EPOCH'', ''RELEASED''}"
  by (simp add: release_status_def split: option.split)

lemma release_reply_one: "st \<in> {''NOT_HOLDER'', ''STALE_EPOCH'', ''RELEASED''} \<Longrightarrow> one_frame (release_reply st n)"
proof -
  assume st: "st \<in> {''NOT_HOLDER'', ''STALE_EPOCH'', ''RELEASED''}"
  have "frames [Value CHR ''+'' st 0 [] False, Value CHR '':'' [] (int64_of n) [] False] (frame_simple st @ frame_integer (int64_of n) @ [])"
    by (intro frames_rules) (use st in auto)
  then show ?thesis unfolding release_reply_def append_Nil2 by (rule frames_arr) simp
qed

lemma break_reply_one:
  "st \<in> {''FREE'', ''BROKEN''} \<Longrightarrow> one_frame (frame_arr 3 @ frame_simple st @ frame_integer (int64_of ep) @ frame_bulk h)"
proof -
  assume st: "st \<in> {''FREE'', ''BROKEN''}"
  have "frames [Value CHR ''+'' st 0 [] False, Value CHR '':'' [] (int64_of ep) [] False, Value CHR ''$'' h 0 [] False]
      (frame_simple st @ frame_integer (int64_of ep) @ frame_bulk h @ [])"
    by (intro frames_rules) (use st in auto)
  then show ?thesis unfolding append_Nil2 by (rule frames_arr) simp
qed

text \<open>The fifteen fields of a record and their values.\<close>

definition record_values :: "lease_snap \<Rightarrow> int \<Rightarrow> resp_value list" where
  "record_values s until =
     (let str = (\<lambda>x. Value CHR ''$'' x 0 [] False); num = (\<lambda>i. Value CHR '':'' [] i [] False) in
      [str ''proj'', num (int64_of (s_proj s)), str ''epoch'', num (int64_of (s_epoch s)),
       str ''state'', str (if s_holder s \<noteq> [] then ''held'' else ''free''), str ''holder'', str (s_holder s),
       str ''host'', str (s_host s), str ''kind'', str (s_kind s), str ''mode'', str (s_mode s),
       str ''granted_ms'', num (s_grantedMs s), str ''last_write_ms'', num (s_lastWriteMs s), str ''last_hb_ms'', num (s_lastHbMs s),
       str ''checkout_until_ms'', num (s_checkoutUntilMs s), str ''expires_ms'', num until, str ''pending'', num (flag (s_pending s)),
       str ''label'', str (s_label s), str ''held'', num (flag (s_holder s \<noteq> []))])"

lemma record_frame_one: "one_frame (record_frame s until)"
proof -
  have "\<exists>b. frames (record_values s until) b \<and> record_frame s until = frame_arr 30 @ b"
    unfolding record_values_def Let_def record_frame_def
    by (rule exI, rule conjI, (rule frames_integer frames_bulk)+, rule frames_Nil) (simp only: append_Nil2)
  moreover have "30 = length (record_values s until)" by (simp add: record_values_def Let_def)
  ultimately show ?thesis using frames_arr by metis
qed

lemma writeRecord_one: "writeRecord proj e = Some b \<Longrightarrow> one_frame b"
  by (auto simp: writeRecord_def Let_def record_frame_one split: if_split_asm option.split_asm)

lemma write_records_frames: "write_records cx prs e = (Some b, e') \<Longrightarrow> \<exists>vs. length vs = length prs \<and> frames vs b"
proof (induction prs arbitrary: e b)
  case (Cons pr prs)
  then obtain b1 b2 e2 where b: "writeRecord pr (lx_other cx 0 pr e) = Some b1" "write_records cx prs (lx_other cx 0 pr e) = (Some b2, e2)"
    "b = b1 @ b2"
    by (auto simp: Let_def split: option.split_asm prod.split_asm)
  with Cons.prems have "write_records cx prs (lx_other cx 0 pr e) = (Some b2, e')" by (simp add: Let_def)
  from Cons.IH [OF this] obtain vs where "length vs = length prs" "frames vs b2" by blast
  moreover obtain v where "frames [v] b1" using one_frames [OF writeRecord_one [OF b(1)]] by blast
  ultimately show ?case using b(3) frames_append [of "[v]" b1 vs b2] by (intro exI [of _ "v # vs"]) simp
qed (use frames_Nil in simp)

lemma lost_entries_frames: "lost_entries cx prs e = (b, e') \<Longrightarrow> \<exists>vs. length vs = length prs \<and> frames vs b"
proof (induction prs arbitrary: e b)
  case (Cons pr prs)
  then obtain b2 e2 ep where b: "lost_entries cx prs (lx_other cx 1 pr e) = (b2, e2)" "b = beat_entry pr ep ''lost'' [] @ b2"
    by (auto simp: Let_def split: prod.split_asm)
  with Cons.prems have "lost_entries cx prs (lx_other cx 1 pr e) = (b2, e')" by (simp add: Let_def)
  from Cons.IH [OF this] obtain vs where "length vs = length prs" "frames vs b2" by blast
  moreover obtain v where "frames [v] (beat_entry pr ep ''lost'' [])" using one_frames [OF beat_entry_one] by blast
  ultimately show ?case using b(2) frames_append [of "[v]" _ vs b2] by (intro exI [of _ "v # vs"]) simp
qed (use frames_Nil in simp)

lemmas command_defs = cmdAcquire_def cmdHeartbeat_def cmdRelease_def cmdStatus_def cmdBreak_def

lemma refusals_one: "one_frame (Reply (refuse r d))"
  by (rule Reply_one) (simp_all add: refuse_def)

lemma acquire_one: "one_frame (fst (cmdAcquire cx p a e))"
  by (auto simp: cmdAcquire_def acquire_locked_def Let_def errFrame_one refusals_one acquire_reply_one split: prod.split sum.split)

lemma release_one: "one_frame (fst (cmdRelease cx p a e))"
  using release_reply_one [OF release_status_cases] release_reply_one [of "''RELEASED''"]
  by (auto simp: cmdRelease_def release_locked_def Let_def errFrame_one split: prod.split sum.split option.split)

lemma break_one: "one_frame (fst (cmdBreak cx p a e))"
  by (auto simp: cmdBreak_def Let_def errFrame_one refusals_one break_reply_one split: prod.split sum.split option.split)

lemma status_one: "one_frame (fst (cmdStatus cx a e))"
proof -
  have "one_frame (frame_arr (length prs) @ b)" if "write_records cx prs e = (Some b, e')" for prs b e'
    using write_records_frames [OF that] frames_arr by metis
  then show ?thesis
    by (auto simp: cmdStatus_def Let_def errFrame_one dest: writeRecord_one split: prod.split sum.split option.split)
qed

lemma heartbeat_one: "one_frame (fst (cmdHeartbeat cx p a e))"
proof -
  have "one_frame (frame_arr (length hs + length lost) @ concat (map (\<lambda>s. beat_entry (s_proj s) (s_epoch s) ''held'' (s_mode s)) hs) @ b)"
    if l: "lost_entries cx lost e1 = (b, e2)" for hs lost b and e1 e2 :: engine
  proof -
    obtain vs where vs: "length vs = length lost" "frames vs b" using lost_entries_frames [OF l] by blast
    obtain ws where ws: "length ws = length hs" "frames ws (concat (map (\<lambda>s. beat_entry (s_proj s) (s_epoch s) ''held'' (s_mode s)) hs))"
      using frames_concat [of hs "\<lambda>s. beat_entry (s_proj s) (s_epoch s) ''held'' (s_mode s)"] beat_entry_one by auto
    show ?thesis by (rule frames_arr [OF frames_append [OF ws(2) vs(2)]]) (simp add: vs ws)
  qed
  then show ?thesis by (auto simp: cmdHeartbeat_def Let_def errFrame_one split: prod.split sum.split)
qed

text \<open>C32: Every answer of \<^verbatim>\<open>JM.LEASE\<close> is typed as one RESP value: whatever the command, the arguments, the
  table, the side reads and the other goroutines, the bytes \<^verbatim>\<open>HandleLocal\<close> returns are the rendering of
  exactly one value, and no line in it can be ended early by a CR or LF in a name, a path or an error text.\<close>

theorem HandleLocal_one_frame: "args \<noteq> [] \<Longrightarrow> \<exists>b. fst (HandleLocal cx p args e) = Some b \<and> one_frame b"
  using acquire_one [of cx p "drop 2 args" e] release_one [of cx p "drop 2 args" e] break_one [of cx p "drop 2 args" e]
    status_one [of cx "drop 2 args" e] heartbeat_one [of cx p "drop 2 args" e]
  by (simp add: HandleLocal_def Let_def errFrame_one case_prod_beta)


theorem HandleLocal_one_frame_witness:
  "\<exists>b. fst (HandleLocal \<lparr>lx_quote = id, lx_echo = id, lx_side = sample_side, lx_now = 0, lx_ds = Delivered, lx_other = (\<lambda>_ _ e. e)\<rparr>
     ann_user [''JM.LEASE'', ''STATUS''] ann_engine) = Some b \<and> one_frame b"
  by (rule HandleLocal_one_frame) simp

subsection \<open>The order of a status listing\<close>

lemma sink_sorted: "sorted (rev ys) \<Longrightarrow> sorted (rev (sink x ys)) \<and> mset (sink x ys) = mset (x # ys)"
proof (induction ys)
  case (Cons y ys)
  then have "sorted (rev (sink x ys))" "mset (sink x ys) = mset (x # ys)" by (simp_all add: sorted_append)
  moreover from this(2) have "set (sink x ys) = insert x (set ys)" by (metis list.simps(15) set_mset_mset)
  ultimately show ?case using Cons.prems by (auto simp: sorted_append)
qed simp

lemma sortU64_from_sort: "sorted (rev pre) \<Longrightarrow> sorted (sortU64_from pre xs) \<and> mset (sortU64_from pre xs) = mset pre + mset xs"
proof (induction xs arbitrary: pre)
  case (Cons x xs)
  with sink_sorted [of pre x] show ?case by simp
qed simp

lemma sortU64_sort: "sortU64 xs = sort xs"
  unfolding sortU64_def by (rule properties_for_sort [symmetric]) (use sortU64_from_sort [of "[]" xs] in simp_all)

subsection \<open>Who may change a lease\<close>

text \<open>
  \<open>fair p may t t'\<close>: between \<open>t\<close> and \<open>t'\<close> nobody but \<open>p\<close> got a lease, and a lease ended only where \<open>may\<close> allows it.
\<close>

definition fair :: "principal \<Rightarrow> (lease \<Rightarrow> bool) \<Rightarrow> lease_table \<Rightarrow> lease_table \<Rightarrow> bool" where
  "fair p may t t' \<longleftrightarrow>
     (\<forall>pr l'. lease_at t' pr = Some l' \<longrightarrow> held l' \<longrightarrow> l_holder l' = p_name p \<or>
        (\<exists>l. lease_at t pr = Some l \<and> l_holder l' = l_holder l \<and> l_epoch l' = l_epoch l)) \<and>
     (\<forall>pr l. lease_at t pr = Some l \<longrightarrow> held l \<longrightarrow> (\<exists>l'. lease_at t' pr = Some l' \<and>
        (l_holder l' = l_holder l \<and> l_epoch l' = l_epoch l \<or> l_holder l' = [] \<and> may l)))"

text \<open>One project at a time: every other record stays as it is.\<close>

lemma fairI:
  assumes "\<And>x. x \<noteq> pr \<Longrightarrow> lease_at t' x = lease_at t x"
    and "\<And>l'. lease_at t' pr = Some l' \<Longrightarrow> held l' \<Longrightarrow> l_holder l' = p_name p \<or>
        (\<exists>l. lease_at t pr = Some l \<and> l_holder l' = l_holder l \<and> l_epoch l' = l_epoch l)"
    and "\<And>l. lease_at t pr = Some l \<Longrightarrow> held l \<Longrightarrow> \<exists>l'. lease_at t' pr = Some l' \<and>
        (l_holder l' = l_holder l \<and> l_epoch l' = l_epoch l \<or> l_holder l' = [] \<and> may l)"
  shows "fair p may t t'"
  unfolding fair_def
proof (intro conjI allI impI, goal_cases)
  case (1 x l')
  then show ?case using assms(1,2) by (cases "x = pr") auto
next
  case (2 x l)
  then show ?case using assms(1,3) by (cases "x = pr") auto
qed

lemma fair_same: "t_leases t' = t_leases t \<Longrightarrow> fair p may t t'"
  by (auto simp: fair_def)

lemma grantLocked_fair:
  assumes ok: "table_ok t st" and g: "grantLocked d now lbl p pr md ttl why t (st pr) = (res, t', k')"
  shows "fair p may t t'"
proof -
  obtain l t1 where l: "leaseLocked pr t = (l, t1)" by force
  from l have l1: "lease_at t1 pr = Some l" "\<And>x. lease_at t pr = Some x \<Longrightarrow> x = l" "lease_at t pr = None \<Longrightarrow> l_holder l = []"
    by (auto simp: leaseLocked_def new_lease_def split: option.split_asm)
  have c: "coherent l (st pr)" if "\<not> l_unresolved l" using leaseLocked_ok [OF ok l] table_okD [of t1 st pr] l1(1) that by auto
  have "lease_at t' pr = Some l \<or> lease_at t' pr = Some (l\<lparr>l_unresolved := True\<rparr>) \<or>
    (\<exists>l'. lease_at t' pr = Some l' \<and> l_holder l' = p_name p \<and> (held l \<longrightarrow> l_holder l = p_name p \<and> l_epoch l' = l_epoch l))"
  proof (cases "l_unresolved l \<or> held l \<and> l_holder l \<noteq> p_name p")
    case True
    with g l have "t' = t1" by (auto simp: grantLocked_def grant_begin_def Let_def split: if_split_asm)
    with l1(1) show ?thesis by simp
  next
    case False
    obtain op nx where n: "grant_next (t_cfg t) now lbl p md ttl l = (op, nx)" by force
    obtain r k2 where tr: "transition d op l nx (st pr) = (r, k2)" by force
    have r: "lease_at t' pr = (case r of Inl e \<Rightarrow> Some (l\<lparr>l_unresolved := True\<rparr>)
        | Inr n \<Rightarrow> Some (nx\<lparr>l_epoch := n, l_hist := (if op = ''grant'' then AList.update (p_name p) n (l_hist nx) else l_hist nx), l_unresolved := False\<rparr>))"
      using g l n tr False by (auto simp: grantLocked_def grant_begin_def grant_finish_def Let_def split: sum.split_asm)
    have nx: "l_holder nx = p_name p" "held l \<Longrightarrow> op = ''renew''" "\<not> held l \<Longrightarrow> op = ''grant''"
      using n False by (auto simp: grant_next_def Let_def split: if_split_asm)
    show ?thesis
    proof (cases r)
      case (Inl e)
      with r show ?thesis by simp
    next
      case (Inr m)
      have "held l \<Longrightarrow> m = l_epoch l"
        using transition_coherent [OF c _ tr [unfolded Inr]] nx(2) False by auto
      with Inr r nx(1) False show ?thesis by simp
    qed
  qed
  then have e: "\<exists>l'. lease_at t' pr = Some l' \<and> (l_holder l' = p_name p \<or> l_holder l' = l_holder l \<and> l_epoch l' = l_epoch l) \<and>
      (held l \<longrightarrow> l_holder l' = l_holder l \<and> l_epoch l' = l_epoch l)"
    by auto
  show ?thesis
  proof (rule fairI [of pr])
    show "lease_at t' x = lease_at t x" if "x \<noteq> pr" for x by (rule grantLocked_other [OF g that])
  next
    fix l' assume "lease_at t' pr = Some l'" "held l'"
    with e l1(2,3) show "l_holder l' = p_name p \<or> (\<exists>l. lease_at t pr = Some l \<and> l_holder l' = l_holder l \<and> l_epoch l' = l_epoch l)"
      by (cases "lease_at t pr") (auto simp: held_def)
  next
    fix x assume "lease_at t pr = Some x" "held x"
    with e l1(2) show "\<exists>l'. lease_at t' pr = Some l' \<and> (l_holder l' = l_holder x \<and> l_epoch l' = l_epoch x \<or> l_holder l' = [] \<and> may x)"
      by auto
  qed
qed

lemma endLocked_fair:
  assumes g: "endLocked d now pr event actor why t k = (res, t', k')"
    and may: "\<And>l. lease_at t pr = Some l \<Longrightarrow> held l \<Longrightarrow> may l"
  shows "fair p may t t'"
proof -
  have "lease_at t' pr = lease_at t pr \<or> (\<exists>l. lease_at t pr = Some l \<and> held l \<and>
      (lease_at t' pr = Some (l\<lparr>l_unresolved := True\<rparr>) \<or> (\<exists>l'. lease_at t' pr = Some l' \<and> l_holder l' = [])))"
    using g by (auto simp: endLocked_def end_begin_def end_finish_def end_next_def Let_def
        split: option.split_asm if_split_asm prod.split_asm sum.split_asm)
  then have e: "lease_at t' pr = lease_at t pr \<or> (\<exists>l l'. lease_at t pr = Some l \<and> held l \<and> lease_at t' pr = Some l' \<and>
      (l_holder l' = l_holder l \<and> l_epoch l' = l_epoch l \<or> l_holder l' = []))"
    by auto
  show ?thesis
  proof (rule fairI [of pr])
    show "lease_at t' x = lease_at t x" if "x \<noteq> pr" for x by (rule endLocked_other [OF g that])
  next
    fix l' assume "lease_at t' pr = Some l'" "held l'"
    with e show "l_holder l' = p_name p \<or> (\<exists>l. lease_at t pr = Some l \<and> l_holder l' = l_holder l \<and> l_epoch l' = l_epoch l)"
      by (cases "lease_at t pr") (auto simp: held_def)
  next
    fix x assume "lease_at t pr = Some x" "held x"
    with e may show "\<exists>l'. lease_at t' pr = Some l' \<and> (l_holder l' = l_holder x \<and> l_epoch l' = l_epoch x \<or> l_holder l' = [] \<and> may x)"
      by auto
  qed
qed

lemma heartbeat_fair: "heartbeat now q pending t = (res, t') \<Longrightarrow> fair p may t t'"
  by (auto simp: fair_def heartbeat_leases beat_def)


text \<open>The commands when no other goroutine interferes.\<close>

definition undisturbed :: "local_ctx \<Rightarrow> bool" where
  "undisturbed cx \<longleftrightarrow> (\<forall>n pr e. lx_other cx n pr e = e)"

lemma proj_of_frame: "proj_of cx spec e = (r, e') \<Longrightarrow> e_table e' = e_table e \<and> e_keys e' = e_keys e"
  by (auto simp: proj_of_def split: prod.split_asm)

lemma proj_list_frame: "proj_list cx specs e = (r, e') \<Longrightarrow> e_table e' = e_table e \<and> e_keys e' = e_keys e"
proof (induction specs arbitrary: e r e')
  case (Cons spec specs)
  obtain r1 e1 where p: "proj_of cx spec e = (r1, e1)" by force
  note f = proj_of_frame [OF p]
  show ?case
  proof (cases r1)
    case (Inl m)
    with Cons.prems p f show ?thesis by simp
  next
    case (Inr pr)
    obtain r2 e2 where q: "proj_list cx specs e1 = (r2, e2)" by force
    from Cons.prems p Inr q have "e' = e2" by (cases r2) auto
    with Cons.IH [OF q] f show ?thesis by simp
  qed
qed simp

lemma write_records_still: "undisturbed cx \<Longrightarrow> write_records cx prs e = (r, e') \<Longrightarrow> e' = e"
  by (induction prs arbitrary: r) (auto simp: undisturbed_def Let_def split: option.split_asm prod.split_asm)

lemma lost_entries_still: "undisturbed cx \<Longrightarrow> lost_entries cx prs e = (r, e') \<Longrightarrow> e' = e"
  by (induction prs arbitrary: r) (auto simp: undisturbed_def Let_def split: prod.split_asm)

lemma leaseLocked_fair:
  assumes l: "leaseLocked pr t = (l, t1)" and f: "fair p may t1 t2"
  shows "fair p may t t2"
proof (cases "lease_at t pr")
  case (Some x)
  with l f show ?thesis by (simp add: leaseLocked_def)
next
  case None
  with l have t1: "lease_at t1 x = (if x = pr then Some (new_lease pr) else lease_at t x)" for x by (auto simp: leaseLocked_def)
  show ?thesis unfolding fair_def
  proof (intro conjI allI impI)
    fix x l' assume a: "lease_at t2 x = Some l'" "held l'"
    then have "l_holder l' = p_name p \<or> (\<exists>l. lease_at t1 x = Some l \<and> l_holder l' = l_holder l \<and> l_epoch l' = l_epoch l)"
      using f unfolding fair_def by blast
    with a(2) show "l_holder l' = p_name p \<or> (\<exists>l. lease_at t x = Some l \<and> l_holder l' = l_holder l \<and> l_epoch l' = l_epoch l)"
      by (auto simp: t1 held_def new_lease_def split: if_split_asm)
  next
    fix x l assume "lease_at t x = Some l" "held l"
    with None have "lease_at t1 x = Some l" by (auto simp: t1)
    with \<open>held l\<close> f show "\<exists>l'. lease_at t2 x = Some l' \<and> (l_holder l' = l_holder l \<and> l_epoch l' = l_epoch l \<or> l_holder l' = [] \<and> may l)"
      unfolding fair_def by blast
  qed
qed

lemma acquire_fair:
  assumes u: "undisturbed cx" and ok: "table_ok (e_table e) (e_keys e)" and c: "cmdAcquire cx p a e = (b, e')"
  shows "fair p may (e_table e) (e_table e')"
proof -
  have locked: "fair p may (e_table e) (e_table e')" if a: "acquire_locked cx p md ttl proj e1 = (b, e')" "e_table e1 = e_table e" "e_keys e1 = e_keys e" for md ttl proj e1
  proof -
    obtain l t1 where l: "leaseLocked proj (e_table e) = (l, t1)" by force
    obtain res t2 k2 where g: "grantLocked (lx_ds cx) (lx_now cx) (label (e_anc e1) proj) p proj md ttl (''JM.LEASE ACQUIRE '' @ md) t1 (e_keys e proj) = (res, t2, k2)"
      by (rule prod_cases3)
    have "e_table e' = t2" using a l g by (auto simp: acquire_locked_def Let_def split: sum.split_asm prod.split_asm if_split_asm)
    moreover have "fair p may t1 t2" using grantLocked_fair [where st = "e_keys e", OF _ g] leaseLocked_ok [OF ok l] by simp
    ultimately show ?thesis using leaseLocked_fair [OF l] by simp
  qed
  from c consider "e_table e' = e_table e" | md ttl proj e1 where "acquire_locked cx p md ttl proj e1 = (b, e')" "e_table e1 = e_table e" "e_keys e1 = e_keys e"
    using u by (fastforce simp: cmdAcquire_def undisturbed_def Let_def dest: proj_of_frame split: if_split_asm sum.split_asm prod.split_asm)
  then show ?thesis by cases (auto intro: fair_same locked)
qed

lemma heartbeat_cmd_fair:
  assumes "undisturbed cx" and "cmdHeartbeat cx p a e = (b, e')"
  shows "fair p may (e_table e) (e_table e')"
proof -
  obtain r e1 where r: "proj_list cx a e = (r, e1)" by force
  show ?thesis
  proof (cases r)
    case (Inl m)
    with assms(2) r proj_list_frame [OF r] show ?thesis by (auto simp: cmdHeartbeat_def intro: fair_same)
  next
    case (Inr pending)
    obtain res t1 where h: "heartbeat (lx_now cx) p pending (e_table e1) = (res, t1)" by (rule prod.exhaust)
    obtain hs lost where hl: "res = (hs, lost)" by (rule prod.exhaust)
    obtain b2 e2 where l: "lost_entries cx lost (e1\<lparr>e_table := t1\<rparr>) = (b2, e2)" by force
    have "e' = e2" using assms r Inr h hl l by (auto simp: cmdHeartbeat_def undisturbed_def Let_def)
    with lost_entries_still [OF assms(1) l] heartbeat_fair [OF h] proj_list_frame [OF r] show ?thesis by simp
  qed
qed

lemma release_fair:
  assumes u: "undisturbed cx" and c: "cmdRelease cx p a e = (b, e')"
  shows "fair p (\<lambda>l. l_holder l = p_name p \<and> digits (a ! 1) = Some (l_epoch l)) (e_table e) (e_table e')"
proof -
  have locked: "fair p (\<lambda>l. l_holder l = p_name p \<and> Some ep = Some (l_epoch l)) (e_table e) (e_table e')"
    if a: "release_locked cx p ep proj e1 = (b, e')" "e_table e1 = e_table e" for ep proj e1
  proof (cases "release_status p ep (lease_at (e_table e) proj) = ''RELEASED''")
    case True
    then obtain l where l: "lease_at (e_table e) proj = Some l" "l_holder l = p_name p" "l_epoch l = ep"
      by (auto simp: release_status_def split: option.split_asm if_split_asm)
    obtain res t1 k1 where g: "endLocked (lx_ds cx) (lx_now cx) proj ''release'' (p_name p) ''JM.LEASE RELEASE'' (e_table e) (e_keys e1 proj) = (res, t1, k1)"
      by (rule prod_cases3)
    have "e_table e' = e_table e \<or> e_table e' = t1"
      using a g l by (auto simp: release_locked_def Let_def split: if_split_asm option.split_asm prod.split_asm)
    moreover have "fair p (\<lambda>l. l_holder l = p_name p \<and> Some ep = Some (l_epoch l)) (e_table e) t1"
      by (rule endLocked_fair [OF g]) (use l in auto)
    ultimately show ?thesis by (auto intro: fair_same)
  next
    case False
    with a have "e_table e' = e_table e" by (auto simp: release_locked_def Let_def split: if_split_asm)
    then show ?thesis by (auto intro: fair_same)
  qed
  obtain r e1 where r: "proj_of cx (a ! 0) e = (r, e1)" by (rule prod.exhaust)
  show ?thesis
  proof (cases "length a = 2 \<and> digits (a ! 1) \<noteq> None \<and> (\<exists>pr. r = Inr pr)")
    case True
    then obtain ep proj where d: "length a = 2" "digits (a ! 1) = Some ep" "r = Inr proj" by auto
    with c r u have "release_locked cx p ep proj e1 = (b, e')" by (simp add: cmdRelease_def undisturbed_def)
    from locked [OF this] proj_of_frame [OF r] show ?thesis unfolding d(2) by blast
  next
    case False
    with c r have "e' = e \<or> e' = e1" by (cases r) (auto simp: cmdRelease_def split: option.split_asm if_split_asm)
    with proj_of_frame [OF r] show ?thesis by (auto intro: fair_same)
  qed
qed

lemma break_fair:
  assumes u: "undisturbed cx" and c: "cmdBreak cx p a e = (b, e')"
  shows "fair p (\<lambda>l. p_kind p = KindAdmin) (e_table e) (e_table e')"
proof -
  obtain r e1 where r: "proj_of cx (a ! 0) e = (r, e1)" by (rule prod.exhaust)
  show ?thesis
  proof (cases "p_kind p = KindAdmin \<and> length a = 1 \<and> (\<exists>pr. r = Inr pr)")
    case True
    then obtain proj where d: "p_kind p = KindAdmin" "length a = 1" "r = Inr proj" by auto
    obtain res t1 k1 where g: "endLocked (lx_ds cx) (lx_now cx) proj ''break'' (p_name p) (''JM.LEASE BREAK by '' @ p_name p) (e_table e1) (e_keys e1 proj) = (res, t1, k1)"
      by (rule prod_cases3)
    obtain err old ep where res: "res = (err, old, ep)" by (rule prod_cases3)
    have "e_table e' = t1" using c d r g res u by (auto simp: cmdBreak_def undisturbed_def Let_def split: option.split_asm if_split_asm)
    with endLocked_fair [OF g, of "\<lambda>l. p_kind p = KindAdmin" p] d(1) proj_of_frame [OF r] show ?thesis by simp
  next
    case False
    with c r have "e' = e \<or> e' = e1" by (cases r) (auto simp: cmdBreak_def split: if_split_asm)
    with proj_of_frame [OF r] show ?thesis by (auto intro: fair_same)
  qed
qed

lemma status_still: "undisturbed cx \<Longrightarrow> cmdStatus cx a e = (b, e') \<Longrightarrow> e_table e' = e_table e"
  by (auto simp: cmdStatus_def undisturbed_def Let_def dest: proj_of_frame write_records_still [unfolded undisturbed_def]
      split: if_split_asm sum.split_asm prod.split_asm option.split_asm)


text \<open>C9: The lease commands respect tenure.  Whoever sends whatever \<^verbatim>\<open>JM.LEASE\<close> command, a lease held
  afterwards is one the sender holds or one that stood before with the same holder and epoch; and a lease
  held before still stands with its holder and epoch, unless it is free now and either its holder sent
  \<^verbatim>\<open>RELEASE\<close> naming its current epoch or an admin sent \<^verbatim>\<open>BREAK\<close>.\<close>

theorem lease_commands_respect_tenure:
  assumes "HandleLocal cx p args e = (r, e')" and "undisturbed cx" and "table_ok (e_table e) (e_keys e)"
  shows "(\<forall>pr l'. lease_at (e_table e') pr = Some l' \<longrightarrow> held l' \<longrightarrow> l_holder l' = p_name p \<or>
      (\<exists>l. lease_at (e_table e) pr = Some l \<and> l_holder l' = l_holder l \<and> l_epoch l' = l_epoch l)) \<and>
    (\<forall>pr l. lease_at (e_table e) pr = Some l \<longrightarrow> held l \<longrightarrow> (\<exists>l'. lease_at (e_table e') pr = Some l' \<and>
      (l_holder l' = l_holder l \<and> l_epoch l' = l_epoch l \<or> l_holder l' = [] \<and>
        (ToUpper (args ! 1) = ''RELEASE'' \<and> l_holder l = p_name p \<and> digits (args ! 3) = Some (l_epoch l) \<or>
         ToUpper (args ! 1) = ''BREAK'' \<and> p_kind p = KindAdmin))))"
proof -
  let ?may = "\<lambda>l. ToUpper (args ! 1) = ''RELEASE'' \<and> l_holder l = p_name p \<and> digits (args ! 3) = Some (l_epoch l) \<or>
         ToUpper (args ! 1) = ''BREAK'' \<and> p_kind p = KindAdmin"
  have mono: "fair p m t t' \<Longrightarrow> (\<And>l. m l \<Longrightarrow> ?may l) \<Longrightarrow> fair p ?may t t'" for m t t'
    unfolding fair_def by blast
  consider (acquire) b where "cmdAcquire cx p (drop 2 args) e = (b, e')" | (beat) b where "cmdHeartbeat cx p (drop 2 args) e = (b, e')"
    | (release) b where "ToUpper (args ! 1) = ''RELEASE''" "cmdRelease cx p (drop 2 args) e = (b, e')" "2 \<le> length args"
    | (status) b where "cmdStatus cx (drop 2 args) e = (b, e')"
    | (break) b where "ToUpper (args ! 1) = ''BREAK''" "cmdBreak cx p (drop 2 args) e = (b, e')"
    | (none) "e' = e"
    using assms(1) by (auto simp: HandleLocal_def Let_def split: if_split_asm prod.split_asm)
  then have "fair p ?may (e_table e) (e_table e')"
  proof cases
    case acquire
    then show ?thesis by (rule acquire_fair [OF assms(2,3)])
  next
    case beat
    then show ?thesis by (rule heartbeat_cmd_fair [OF assms(2)])
  next
    case (release b)
    show ?thesis
    proof (cases "length args = 4")
      case True
      then have "drop 2 args ! 1 = args ! 3" by simp
      with release(1) show ?thesis by (intro mono [OF release_fair [OF assms(2) release(2)]]) simp
    next
      case False
      with release(3) have "length (drop 2 args) \<noteq> 2" by simp
      with release(2) have "e' = e" unfolding cmdRelease_def by simp
      then show ?thesis by (simp add: fair_same)
    qed
  next
    case status
    then show ?thesis using status_still [OF assms(2)] by (simp add: fair_same)
  next
    case (break b)
    then show ?thesis by (intro mono [OF break_fair [OF assms(2) break(2)]]) simp
  next
    case none
    then show ?thesis by (simp add: fair_same)
  qed
  then show ?thesis unfolding fair_def .
qed


lemma ann_engine_ok: "table_ok (e_table ann_engine) (e_keys ann_engine)"
  by (simp add: ann_engine_def table_ok_def table_of_def ann_lease_def new_lease_def coherent_def keys_hold_def ann_keys_def epoch_range_def
      go_arith keys_free_def free_keys_def)

definition sample_local :: local_ctx where
  "sample_local = \<lparr>lx_quote = id, lx_echo = id, lx_side = sample_side, lx_now = 0, lx_ds = Delivered, lx_other = (\<lambda>_ _ e. e)\<rparr>"

theorem lease_commands_respect_tenure_witness:
  "\<exists>e' l'. snd (HandleLocal sample_local \<lparr>p_name = ''bob'', p_kind = KindMac, p_host = []\<rparr> [''JM.LEASE'', ''BREAK'', ''ino:7''] ann_engine) = e' \<and>
     lease_at (e_table e') 7 = Some l' \<and> l_holder l' = ''ann'' \<and> l_epoch l' = 1"
proof -
  let ?p = "\<lparr>p_name = ''bob'', p_kind = KindMac, p_host = []\<rparr>"
  obtain r e' where h: "HandleLocal sample_local ?p [''JM.LEASE'', ''BREAK'', ''ino:7''] ann_engine = (r, e')" by (rule prod.exhaust)
  have "undisturbed sample_local" by (simp add: undisturbed_def sample_local_def)
  note lease_commands_respect_tenure [OF h this ann_engine_ok, THEN conjunct2, rule_format, of 7 "ann_lease\<lparr>l_proj := 7\<rparr>"]
  moreover have "lease_at (e_table ann_engine) 7 = Some (ann_lease\<lparr>l_proj := 7\<rparr>)" "held (ann_lease\<lparr>l_proj := 7\<rparr>)"
    by (simp_all add: ann_engine_def table_of_def ann_lease_def held_def)
  ultimately obtain l' where "lease_at (e_table e') 7 = Some l'" "l_holder l' = ''ann''" "l_epoch l' = 1"
    by (auto simp: ann_lease_def)
  with h show ?thesis by (intro exI [of _ e'] exI [of _ l']) simp
qed

subsection \<open>The time to live of a checkout\<close>

lemma long_ttl: "0 < lc_checkoutMax c \<Longrightarrow> acquire_ttl c [spec, md, ''9223372037''] = Inr (- 9223372036709551616)"
proof -
  assume c: "0 < lc_checkoutMax c"
  have "ParseInt (FormatUint 9223372037) = (9223372037, None)" by (subst ParseInt_FormatUint) (simp_all add: go_arith)
  moreover have "FormatUint 9223372037 = ''9223372037''" by (simp add: FormatUint_numeral)
  ultimately have "ParseInt ''9223372037'' = (9223372037, None)" by simp
  with c show ?thesis by (simp add: acquire_ttl_def Second_def wrap64_def)
qed

text \<open>C38: The limit on a checkout does not hold for every accepted time to live: \<^verbatim>\<open>ttl_s\<close> 9223372037 overflows
  the nanoseconds of \<^verbatim>\<open>time.Duration\<close> to a negative duration, which is below \<^verbatim>\<open>checkout_max_s\<close> and so is
  used as it is; a checkout granted or renewed with it before the year 2262 ends before 1970, a time that
  the expiry test reads as no end, and no sweep ever ends it by its age.\<close>

theorem overlong_checkout_never_ends:
  assumes "acquire_ttl (t_cfg t) [spec, md, ''9223372037''] = Inr ttl" and "0 < lc_checkoutMax (t_cfg t)"
    and "grantLocked d now lbl p pr LeaseCheckout ttl why t k = (Inr (s, fs), t', k')" and "s_holder s = p_name p"
    and "now < 9223372036709551616"
  shows "s_mode s = LeaseCheckout \<and> s_checkoutUntilMs s < 0 \<and> (\<exists>l. lease_at t' pr = Some l \<and> snap l = s \<and> (\<forall>tm c. expiryReason l tm c = None))"
proof -
  have ttl: "ttl = - 9223372036709551616" using assms(1,2) long_ttl by simp
  have u: "ms (now + ttl) < 0" using assms(5) by (simp add: ms_def ttl div_neg_pos_less0)
  obtain l t1 where l: "leaseLocked pr t = (l, t1)" by force
  have h: "\<not> l_unresolved l" "held l \<Longrightarrow> l_holder l = p_name p"
    using assms(3,4) l by (auto simp: grantLocked_def grant_begin_def snap_def Let_def split: if_split_asm)
  have "\<exists>l'. lease_at t' pr = Some l' \<and> snap l' = s \<and> l_mode l' = LeaseCheckout \<and> l_checkoutUntilMs l' < 0"
    using assms(3) l h u
    by (auto simp: grantLocked_def grant_begin_def grant_next_def grant_finish_def Let_def split: if_split_asm sum.split_asm prod.split_asm)
  then show ?thesis by (auto simp: snap_def expiryReason_def)
qed

theorem overlong_checkout_never_ends_witness:
  "\<exists>s fs t' k' l. grantLocked Delivered 0 [] ann_user 5 LeaseCheckout (- 9223372036709551616) [] (table_of [(5, new_lease 5)]) free_keys
      = (Inr (s, fs), t', k') \<and> lease_at t' 5 = Some l \<and> (\<forall>tm c. expiryReason l tm c = None)"
proof -
  have ok: "table_ok (table_of [(5, new_lease 5)]) (\<lambda>_. free_keys)"
    by (simp add: table_ok_def table_of_def new_lease_def coherent_def keys_free_def free_keys_def)
  have m: "0 < lc_checkoutMax (t_cfg (table_of [(5, new_lease 5)]))"
    by (simp add: table_of_def defaultLeaseCfg_def defaultCheckoutMax_def Second_def)
  obtain s fs t' k' where g: "grantLocked Delivered 0 [] ann_user 5 LeaseCheckout (- 9223372036709551616) [] (table_of [(5, new_lease 5)])
      ((\<lambda>_. free_keys) 5) = (Inr (s, fs), t', k')" "s_holder s = ''ann''"
    using grantLocked_free [OF ok, of 5 "new_lease 5" ann_user 0 "[]" LeaseCheckout "- 9223372036709551616" "[]"]
    by (auto simp: table_of_def new_lease_def held_def free_keys_def ann_user_def)
  have "s_holder s = p_name ann_user" "(0 :: int) < 9223372036709551616" using g(2) by (simp_all add: ann_user_def)
  with overlong_checkout_never_ends [OF long_ttl [OF m, of "''ino:5''" "''checkout''"] m g(1)] g(1) show ?thesis by auto
qed

end
