(* ===== verification/Stores.thy ===== *)
theory Stores
  imports Guard_Base Lease_Store
begin

section \<open>Stores the proxy keeps in Redis (proxy.go)\<close>

text \<open>
  Owners of juicefs sessions and of allocated id ranges, each with its cache in memory.  Every call of a
  side connection has an outcome: delivered, never run, or run with its reply lost.  A sorted set of
  Redis is the list of its scores and members in Redis's order (score, then member bytewise).  Scores and
  Lua numbers are doubles in Redis; they are natural numbers here, which is exact below \<open>2 ^ 53\<close>.
\<close>

subsection \<open>Session owners\<close>

record redis_sessions =
  rs_cache :: "(nat \<times> string) list"
  rs_hash :: "(string \<times> string) list"

definition sess_remember :: "nat \<Rightarrow> string \<Rightarrow> redis_sessions \<Rightarrow> redis_sessions" where
  "sess_remember sid owner s =
     s\<lparr>rs_cache := AList.update sid owner (if 100000 < length (rs_cache s) then [] else rs_cache s)\<rparr>"

text \<open>The outcome of a read: an answer, or the error of a call that failed or whose reply was lost.\<close>

fun answered :: "delivery \<Rightarrow> 'a \<Rightarrow> string + 'a" where
  "answered Delivered x = Inr x"
| "answered (NotRun e) x = Inl e"
| "answered (ReplyLost e) x = Inl e"

fun ran :: "delivery \<Rightarrow> bool" where
  "ran (NotRun e) = False"
| "ran _ = True"

definition sess_Owner :: "delivery \<Rightarrow> nat \<Rightarrow> redis_sessions \<Rightarrow> (string + string option) \<times> redis_sessions" where
  "sess_Owner d sid s =
     (case map_of (rs_cache s) sid of
        Some owner \<Rightarrow> (Inr (Some owner), s)
      | None \<Rightarrow>
          (case answered d (map_of (rs_hash s) (FormatUint sid)) of
             Inl e \<Rightarrow> (Inl e, s)
           | Inr None \<Rightarrow> (Inr None, s)
           | Inr (Some owner) \<Rightarrow> (Inr (Some owner), sess_remember sid owner s)))"

definition hsetnx :: "string \<Rightarrow> string \<Rightarrow> (string \<times> string) list \<Rightarrow> (string \<times> string) list" where
  "hsetnx f v h = (if map_of h f = None then h @ [(f, v)] else h)"

definition sess_Claim :: "delivery \<Rightarrow> delivery \<Rightarrow> nat \<Rightarrow> string \<Rightarrow> redis_sessions \<Rightarrow> (string + string) \<times> redis_sessions" where
  "sess_Claim d1 d2 sid owner s =
     (let s1 = (if ran d1 then s\<lparr>rs_hash := hsetnx (FormatUint sid) owner (rs_hash s)\<rparr> else s);
          unreadable = (\<lambda>e. Inl (''session '' @ FormatUint sid @ '': owner unreadable after claim: '' @ e)) in
      case answered d1 () of
        Inl e \<Rightarrow> (Inl e, s1)
      | Inr _ \<Rightarrow>
          (case sess_Owner d2 sid s1 of
             (Inl e, s2) \<Rightarrow> (unreadable e, s2)
           | (Inr None, s2) \<Rightarrow> (unreadable ''<nil>'', s2)
           | (Inr (Some got), s2) \<Rightarrow> (Inr got, s2)))"

definition sess_Release :: "delivery \<Rightarrow> nat list \<Rightarrow> redis_sessions \<Rightarrow> string option \<times> redis_sessions" where
  "sess_Release d sids s =
     (let s1 = s\<lparr>rs_cache := fold AList.delete sids (rs_cache s)\<rparr>;
          s2 = (if ran d then s1\<lparr>rs_hash := fold (\<lambda>sid. AList.delete (FormatUint sid)) sids (rs_hash s1)\<rparr> else s1) in
      case answered d () of
        Inl e \<Rightarrow> (Some e, s2)
      | Inr _ \<Rightarrow> (if sids = [] then Some ''ERR wrong number of arguments for 'hdel' command'' else None, s2))"

subsection \<open>Sorted sets\<close>

type_synonym zset = "(nat \<times> string) list"

fun lex_less :: "string \<Rightarrow> string \<Rightarrow> bool" where
  "lex_less [] t = (t \<noteq> [])"
| "lex_less (a # s) [] = False"
| "lex_less (a # s) (b # t) = ((of_char a :: nat) < of_char b \<or> a = b \<and> lex_less s t)"

definition z_before :: "nat \<times> string \<Rightarrow> nat \<times> string \<Rightarrow> bool" where
  "z_before x y \<longleftrightarrow> fst x < fst y \<or> fst x = fst y \<and> lex_less (snd x) (snd y)"

fun z_insert :: "nat \<times> string \<Rightarrow> zset \<Rightarrow> zset" where
  "z_insert x [] = [x]"
| "z_insert x (y # z) = (if z_before x y then x # y # z else y # z_insert x z)"

definition ZREM :: "string \<Rightarrow> zset \<Rightarrow> zset" where "ZREM m z = filter (\<lambda>x. snd x \<noteq> m) z"

definition ZADD :: "nat \<Rightarrow> string \<Rightarrow> zset \<Rightarrow> zset" where "ZADD sc m z = z_insert (sc, m) (ZREM m z)"

definition ZRANGE_at :: "int \<Rightarrow> zset \<Rightarrow> string list" where
  "ZRANGE_at sc z = map snd (filter (\<lambda>x. int (fst x) = sc) z)"

definition ZRANGE_from :: "nat \<Rightarrow> zset \<Rightarrow> string option" where
  "ZRANGE_from sc z = map_option snd (find (\<lambda>x. sc \<le> fst x) z)"

subsection \<open>Owners of id ranges\<close>

text \<open>The Lua pattern \<^verbatim>\<open>^(%d+):(%d+):(.+)$\<close>.\<close>

definition lua_number :: "string \<Rightarrow> (string \<times> string) option" where
  "lua_number s =
     (let d = takeWhile is_digit s; r = dropWhile is_digit s in
      if d = [] \<or> r = [] \<or> hd r \<noteq> CHR '':'' then None else Some (d, tl r))"

definition match_range :: "string \<Rightarrow> (string \<times> string \<times> string) option" where
  "match_range m =
     (case lua_number m of
        None \<Rightarrow> None
      | Some (plo, r) \<Rightarrow>
          (case lua_number r of
             None \<Rightarrow> None
           | Some (phi, own) \<Rightarrow> if own = [] then None else Some (plo, phi, own)))"

text \<open>Merging with the owner's range that ends just below \<open>lo\<close>; the first number of the merged range is text.\<close>

fun merge_prev :: "string \<Rightarrow> string list \<Rightarrow> string \<times> zset \<Rightarrow> string \<times> zset" where
  "merge_prev owner [] st = st"
| "merge_prev owner (m # ms) (lo, z) =
     merge_prev owner ms
       (case match_range m of
          Some (plo, phi, pown) \<Rightarrow> if pown = owner \<and> dec_value 0 phi + 1 = dec_value 0 lo then (plo, ZREM m z) else (lo, z)
        | None \<Rightarrow> (lo, z))"

definition mergeRangeLua :: "string \<Rightarrow> string \<Rightarrow> string \<Rightarrow> zset \<Rightarrow> zset" where
  "mergeRangeLua lo hi owner z =
     (case merge_prev owner (ZRANGE_at (int (dec_value 0 lo) - 1) z) (lo, z) of
        (lo1, z1) \<Rightarrow> ZADD (dec_value 0 hi) (lo1 @ '':'' @ hi @ '':'' @ owner) z1)"

definition sliceCacheMax :: nat where "sliceCacheMax = 1024"

record redis_ranges =
  rr_cache :: "slice_range list"
  rr_zset :: zset

definition ranges_remember :: "slice_range \<Rightarrow> redis_ranges \<Rightarrow> redis_ranges" where
  "ranges_remember r s =
     s\<lparr>rr_cache := (if sliceCacheMax \<le> length (rr_cache s) then drop (length (rr_cache s) div 2) (rr_cache s) else rr_cache s) @ [r]\<rparr>"

text \<open>The owner of an id, with the text of a refusal to read the member; the cache is searched from its end.\<close>

definition ranges_lookup :: "(string \<Rightarrow> string) \<Rightarrow> string \<Rightarrow> string \<Rightarrow> nat \<Rightarrow> string + (slice_range option)" where
  "ranges_lookup quote key m i =
     (case SplitN 3 CHR '':'' m of
        [a, b, owner] \<Rightarrow>
          (case (ParseUint a, ParseUint b) of
             ((lo, None), (hi, None)) \<Rightarrow>
               Inr (if i < lo \<or> hi < i then None else Some \<lparr>sr_lo = lo, sr_hi = hi, sr_owner = owner\<rparr>)
           | _ \<Rightarrow> Inr None)
      | _ \<Rightarrow> Inl (''bad '' @ key @ '' member '' @ quote m))"

definition redis_Owner :: "(string \<Rightarrow> string) \<Rightarrow> string \<Rightarrow> delivery \<Rightarrow> nat \<Rightarrow> redis_ranges \<Rightarrow> (string + string option) \<times> redis_ranges" where
  "redis_Owner quote key d i s =
     (case find (\<lambda>r. sr_lo r \<le> i \<and> i \<le> sr_hi r) (rev (rr_cache s)) of
        Some r \<Rightarrow> (Inr (Some (sr_owner r)), s)
      | None \<Rightarrow>
          (case answered d (ZRANGE_from i (rr_zset s)) of
             Inl e \<Rightarrow> (Inl e, s)
           | Inr None \<Rightarrow> (Inr None, s)
           | Inr (Some m) \<Rightarrow>
               (case ranges_lookup quote key m i of
                  Inl e \<Rightarrow> (Inl e, s)
                | Inr None \<Rightarrow> (Inr None, s)
                | Inr (Some r) \<Rightarrow> (Inr (Some (sr_owner r)), ranges_remember r s))))"

definition redis_Record :: "delivery \<Rightarrow> nat \<Rightarrow> nat \<Rightarrow> string \<Rightarrow> redis_ranges \<Rightarrow> string option \<times> redis_ranges" where
  "redis_Record d lo hi owner s =
     (let s1 = ranges_remember \<lparr>sr_lo = lo, sr_hi = hi, sr_owner = owner\<rparr> s;
          s2 = (if ran d then s1\<lparr>rr_zset := mergeRangeLua (FormatUint lo) (FormatUint hi) owner (rr_zset s1)\<rparr> else s1) in
      case answered d () of Inl e \<Rightarrow> (Some e, s2) | Inr _ \<Rightarrow> (None, s2))"

subsection \<open>Used slices\<close>

record used_bits =
  ub_cache :: "nat list"
  ub_bits :: "string \<Rightarrow> nat \<Rightarrow> bool"

definition cacheUsed :: "nat \<Rightarrow> used_bits \<Rightarrow> used_bits" where
  "cacheUsed i s = s\<lparr>ub_cache := List.insert i (if 1000000 < length (ub_cache s) then [] else ub_cache s)\<rparr>"

definition redis_Used :: "delivery \<Rightarrow> nat \<Rightarrow> used_bits \<Rightarrow> (string + bool) \<times> used_bits" where
  "redis_Used d i s =
     (if i \<in> set (ub_cache s) then (Inr True, s)
      else case answered d (ub_bits s (UsedBitKey i) (UsedBitOffset i)) of
        Inl e \<Rightarrow> (Inl e, s)
      | Inr True \<Rightarrow> (Inr True, cacheUsed i s)
      | Inr False \<Rightarrow> (Inr False, s))"

fun redis_MarkUsed :: "(nat \<Rightarrow> delivery) \<Rightarrow> nat list \<Rightarrow> bool \<Rightarrow> used_bits \<Rightarrow> string option \<times> used_bits" where
  "redis_MarkUsed ds [] persist s = (None, s)"
| "redis_MarkUsed ds (i # ids) persist s =
     (let s1 = cacheUsed i s in
      if \<not> persist then redis_MarkUsed ds ids persist s1
      else
        let s2 = (if ran (ds i)
                  then s1\<lparr>ub_bits := (ub_bits s1)(UsedBitKey i := (ub_bits s1 (UsedBitKey i))(UsedBitOffset i := True))\<rparr> else s1) in
        case answered (ds i) () of Inl e \<Rightarrow> (Some e, s2) | Inr _ \<Rightarrow> redis_MarkUsed ds ids persist s2)"

subsection \<open>Inode numbers\<close>

text \<open>\<^verbatim>\<open>nextinode\<close>, the owners of its batches and the mark, as the scripts read and write them.\<close>

record inode_store =
  is_next :: "string option"
  is_owners :: zset
  is_mark :: "string option"

definition set_mark :: "inode_store \<Rightarrow> inode_store" where
  "set_mark s = (if is_mark s = None then s\<lparr>is_mark := Some (case is_next s of Some v \<Rightarrow> v | None \<Rightarrow> ''0'')\<rparr> else s)"

definition inodeMarkLua :: "inode_store \<Rightarrow> string option \<times> inode_store" where
  "inodeMarkLua s = (let s1 = set_mark s in (is_mark s1, s1))"

text \<open>\<^verbatim>\<open>INCRBY\<close> answers an error for a value that is no integer or would overflow.\<close>

definition redis_INCRBY :: "string option \<Rightarrow> int \<Rightarrow> string + int" where
  "redis_INCRBY v n =
     (case (case v of None \<Rightarrow> Some 0 | Some s \<Rightarrow> RedisInt s) of
        None \<Rightarrow> Inl ''ERR value is not an integer or out of range''
      | Some i \<Rightarrow>
          if i + n < min_i64 \<or> max_i64 < i + n then Inl ''ERR increment or decrement would overflow'' else Inr (i + n))"

fun merge_inodes :: "string \<Rightarrow> string list \<Rightarrow> int \<times> zset \<Rightarrow> int \<times> zset" where
  "merge_inodes owner [] st = st"
| "merge_inodes owner (m # ms) (lo, z) =
     merge_inodes owner ms
       (case match_range m of
          Some (plo, phi, pown) \<Rightarrow> if pown = owner \<and> int (dec_value 0 phi) + 1 = lo then (int (dec_value 0 plo), ZREM m z) else (lo, z)
        | None \<Rightarrow> (lo, z))"

definition inodeAllocLua :: "int \<Rightarrow> string \<Rightarrow> inode_store \<Rightarrow> (string + int) \<times> inode_store" where
  "inodeAllocLua n owner s =
     (let s1 = set_mark s in
      case redis_INCRBY (is_next s1) n of
        Inl e \<Rightarrow> (Inl e, s1)
      | Inr hi \<Rightarrow>
          (case merge_inodes owner (ZRANGE_at (hi - n) (is_owners s1)) (hi - n + 1, is_owners s1) of
             (lo, z1) \<Rightarrow>
               (Inr hi, s1\<lparr>is_next := Some (FormatInt hi), is_owners := ZADD (nat hi) (FormatInt lo @ '':'' @ FormatInt hi @ '':'' @ owner) z1\<rparr>)))"

text \<open>\<^verbatim>\<open>Proxy.inodeMark\<close> keeps the mark once it is read.\<close>

definition inodeMark :: "(string \<Rightarrow> string) \<Rightarrow> delivery \<Rightarrow> nat option \<Rightarrow> inode_store \<Rightarrow> (string + nat) \<times> nat option \<times> inode_store" where
  "inodeMark quote d known s =
     (case known of
        Some n \<Rightarrow> (Inr n, known, s)
      | None \<Rightarrow>
          (case inodeMarkLua s of
             (mk, s1) \<Rightarrow>
               let s2 = (if ran d then s1 else s) in
               (case answered d mk of
                  Inl e \<Rightarrow> (Inl e, None, s2)
                | Inr v \<Rightarrow>
                    let x = (case v of Some x \<Rightarrow> x | None \<Rightarrow> []) in
                    (case ParseUint x of
                       (n, None) \<Rightarrow> (Inr n, Some n, s2)
                     | (n, Some e) \<Rightarrow> (Inl (''jmlease:v1:inodes:mark: '' @ quote x), None, s2)))))"

end
