(* ===== verification/Stores_Props.thy ===== *)
theory Stores_Props
  imports Stores
begin

section \<open>What the stores promise\<close>

subsection \<open>Sessions\<close>

text \<open>
  The contract of \<^verbatim>\<open>SessionStore\<close>: \<open>owner_of\<close> is the recorded owner; asking changes nothing and answers it;
  a claim records an owner only where there is none and answers the recorded one; only a release that
  names a session can free it.  Each call may fail at any point.
\<close>

datatype session_op = AskOwner delivery nat | ClaimFor delivery delivery nat string | ReleaseAll delivery "nat list"

fun releases :: "nat \<Rightarrow> session_op \<Rightarrow> bool" where
  "releases i (ReleaseAll d sids) = (i \<in> set sids)"
| "releases i _ = False"

locale session_store =
  fixes inv :: "'s \<Rightarrow> bool" and owner_of :: "'s \<Rightarrow> nat \<Rightarrow> string option"
    and ask :: "delivery \<Rightarrow> nat \<Rightarrow> 's \<Rightarrow> (string + string option) \<times> 's"
    and claim :: "delivery \<Rightarrow> delivery \<Rightarrow> nat \<Rightarrow> string \<Rightarrow> 's \<Rightarrow> (string + string) \<times> 's"
    and release :: "delivery \<Rightarrow> nat list \<Rightarrow> 's \<Rightarrow> string option \<times> 's"
  assumes ask: "inv s \<Longrightarrow> ask d i s = (r, s') \<Longrightarrow> inv s' \<and> owner_of s' = owner_of s \<and> (\<forall>x. r = Inr x \<longrightarrow> x = owner_of s i)"
    and claim: "inv s \<Longrightarrow> claim d1 d2 i own s = (rc, s') \<Longrightarrow> inv s' \<and>
      (owner_of s' = owner_of s \<or> owner_of s i = None \<and> owner_of s' = (owner_of s)(i \<mapsto> own)) \<and>
      (\<forall>got. rc = Inr got \<longrightarrow> owner_of s' i = Some got)"
    and release: "inv s \<Longrightarrow> release d sids s = (e, s') \<Longrightarrow> inv s' \<and>
      (\<forall>x. owner_of s' x = owner_of s x \<or> x \<in> set sids \<and> owner_of s' x = None)"
begin

primrec run :: "session_op \<Rightarrow> 's \<Rightarrow> 's" where
  "run (AskOwner d i) s = snd (ask d i s)"
| "run (ClaimFor d1 d2 i own) s = snd (claim d1 d2 i own s)"
| "run (ReleaseAll d sids) s = snd (release d sids s)"

lemma run_keeps: "inv s \<Longrightarrow> inv (run op s) \<and> (owner_of s i = Some q \<longrightarrow> \<not> releases i op \<longrightarrow> owner_of (run op s) i = Some q)"
proof (cases op)
  case (AskOwner d j)
  assume "inv s"
  from ask [OF this, of d j "fst (ask d j s)" "snd (ask d j s)"] AskOwner show ?thesis by simp
next
  case (ClaimFor d1 d2 j own)
  assume "inv s"
  from claim [OF this, of d1 d2 j own "fst (claim d1 d2 j own s)" "snd (claim d1 d2 j own s)"] ClaimFor show ?thesis by auto
next
  case (ReleaseAll d sids)
  assume "inv s"
  from release [OF this, of d sids "fst (release d sids s)" "snd (release d sids s)"] ReleaseAll show ?thesis
    by simp (metis option.distinct(1))
qed

lemma runs_keep:
  "inv s \<Longrightarrow> inv (fold run ops s) \<and> (owner_of s i = Some q \<longrightarrow> (\<forall>op \<in> set ops. \<not> releases i op) \<longrightarrow> owner_of (fold run ops s) i = Some q)"
proof (induction ops arbitrary: s)
  case (Cons op ops)
  from run_keeps [OF Cons.prems, of op i q] have "inv (run op s)" "owner_of s i = Some q \<longrightarrow> \<not> releases i op \<longrightarrow> owner_of (run op s) i = Some q" by auto
  with Cons.IH [OF this(1)] show ?case by auto
qed simp

text \<open>The first claim that succeeds decides, until a release names the session.\<close>

lemma first_claim_wins:
  assumes "inv s" and "claim d1 d2 i own s = (Inr got, s1)" and "\<forall>op \<in> set ops. \<not> releases i op"
    and "claim d3 d4 i other (fold run ops s1) = (Inr got2, s2)"
  shows "got2 = got"
proof -
  from claim [OF assms(1,2)] have "inv s1" "owner_of s1 i = Some got" by auto
  with runs_keep [of s1 ops i got] assms(3) have k: "inv (fold run ops s1)" "owner_of (fold run ops s1) i = Some got" by auto
  from claim [OF k(1) assms(4)] k(2) show ?thesis by auto
qed

end

interpretation mem_store: session_store "\<lambda>_. True" sessions_Owner "\<lambda>d i s. (Inr (sessions_Owner s i), s)"
    "\<lambda>d1 d2 i own s. case sessions_Claim i own s of (got, s') \<Rightarrow> (Inr got, s')" "\<lambda>d sids s. (None, sessions_Release sids s)"
  by unfold_locales (auto simp: sessions_Owner_def [abs_def] sessions_Claim_def sessions_Release_def split: option.split_asm)

definition sess_ok :: "redis_sessions \<Rightarrow> bool" where
  "sess_ok s \<longleftrightarrow> (\<forall>sid own. map_of (rs_cache s) sid = Some own \<longrightarrow> map_of (rs_hash s) (FormatUint sid) = Some own)"

definition sess_owner :: "redis_sessions \<Rightarrow> nat \<Rightarrow> string option" where
  "sess_owner s sid = map_of (rs_hash s) (FormatUint sid)"

lemma sess_Owner_ok:
  assumes "sess_ok s" and "sess_Owner d sid s = (r, s')"
  shows "sess_ok s' \<and> sess_owner s' = sess_owner s \<and> (\<forall>x. r = Inr x \<longrightarrow> x = sess_owner s sid)"
  using assms
  by (cases d) (auto simp: sess_Owner_def sess_ok_def sess_owner_def sess_remember_def update_conv' fun_eq_iff split: option.split_asm if_split_asm)

lemma hsetnx_of: "map_of (hsetnx f v h) x = (if x = f \<and> map_of h f = None then Some v else map_of h x)"
  by (auto simp: hsetnx_def map_add_def split: option.split)

lemma sess_Claim_ok:
  assumes ok: "sess_ok s" and c: "sess_Claim d1 d2 sid own s = (r, s')"
  shows "sess_ok s' \<and> (sess_owner s' = sess_owner s \<or> sess_owner s sid = None \<and> sess_owner s' = (sess_owner s)(sid \<mapsto> own)) \<and>
    (\<forall>got. r = Inr got \<longrightarrow> sess_owner s' sid = Some got)"
proof -
  define s1 where "s1 = (if ran d1 then s\<lparr>rs_hash := hsetnx (FormatUint sid) own (rs_hash s)\<rparr> else s)"
  have s1: "sess_ok s1" "sess_owner s1 = sess_owner s \<or> sess_owner s sid = None \<and> sess_owner s1 = (sess_owner s)(sid \<mapsto> own)"
    using ok by (auto simp: s1_def sess_ok_def sess_owner_def hsetnx_of fun_eq_iff FormatUint_inj)
  obtain r2 s2 where o: "sess_Owner d2 sid s1 = (r2, s2)" by force
  note k = sess_Owner_ok [OF s1(1) o]
  show ?thesis
  proof (cases "d1 = Delivered")
    case False
    with c have "s' = s1 \<and> (\<forall>got. r \<noteq> Inr got)" unfolding sess_Claim_def Let_def s1_def [symmetric] by (cases d1) auto
    with s1 show ?thesis by simp
  next
    case True
    have "s' = s2 \<and> (\<forall>got. r = Inr got \<longrightarrow> r2 = Inr (Some got))"
    proof (cases r2)
      case (Inl e)
      with c True o show ?thesis unfolding sess_Claim_def Let_def s1_def [symmetric] by auto
    next
      case (Inr x)
      with c True o show ?thesis unfolding sess_Claim_def Let_def s1_def [symmetric] by (cases x) auto
    qed
    with k s1(2) show ?thesis by auto
  qed
qed

lemma delete_all_of: "map_of (fold AList.delete ks al) x = (if x \<in> set ks then None else map_of al x)"
  by (induction ks arbitrary: al) (auto simp: delete_conv')

lemma delete_all_FormatUint:
  "map_of (fold (\<lambda>sid. AList.delete (FormatUint sid)) ks al) x = (if x \<in> FormatUint ` set ks then None else map_of al x)"
  by (induction ks arbitrary: al) (auto simp: delete_conv')

lemma FormatUint_image: "FormatUint n \<in> FormatUint ` A \<longleftrightarrow> n \<in> A"
  by (auto simp: FormatUint_inj)

lemma sess_Release_ok:
  assumes "sess_ok s" and "sess_Release d sids s = (e, s')"
  shows "sess_ok s' \<and> (\<forall>x. sess_owner s' x = sess_owner s x \<or> x \<in> set sids \<and> sess_owner s' x = None)"
proof -
  have c: "map_of (rs_cache s') x = (if x \<in> set sids then None else map_of (rs_cache s) x)" for x
    using assms(2) by (cases d) (auto simp: sess_Release_def Let_def delete_all_of)
  have h: "sess_owner s' x = (if ran d \<and> x \<in> set sids then None else sess_owner s x)" for x
    using assms(2) by (cases d) (auto simp: sess_Release_def Let_def delete_all_FormatUint FormatUint_image sess_owner_def)
  have "sess_ok s'" unfolding sess_ok_def
  proof (intro allI impI)
    fix x own assume "map_of (rs_cache s') x = Some own"
    with c have "x \<notin> set sids" "map_of (rs_cache s) x = Some own" by (auto split: if_split_asm)
    with h [of x] assms(1) show "map_of (rs_hash s') (FormatUint x) = Some own" by (simp add: sess_owner_def sess_ok_def)
  qed
  with h show ?thesis by auto
qed

interpretation redis_store: session_store sess_ok sess_owner sess_Owner sess_Claim sess_Release
proof (unfold_locales, goal_cases)
  case 1
  then show ?case by (rule sess_Owner_ok)
next
  case 2
  then show ?case by (rule sess_Claim_ok)
next
  case 3
  then show ?case by (rule sess_Release_ok)
qed


primrec sess_run :: "session_op \<Rightarrow> redis_sessions \<Rightarrow> redis_sessions" where
  "sess_run (AskOwner d i) s = snd (sess_Owner d i s)"
| "sess_run (ClaimFor d1 d2 i own) s = snd (sess_Claim d1 d2 i own s)"
| "sess_run (ReleaseAll d sids) s = snd (sess_Release d sids s)"

lemma sess_run_eq: "redis_store.run op s = sess_run op s"
  by (cases op) simp_all

text \<open>C12: A session cannot be taken over.  Whatever other calls run in between, and whichever of them fail
  before or after Redis executed them, two successful claims of a session that no release names in
  between answer the same owner: the first one recorded, in the cache and in Redis.\<close>

theorem session_keeps_its_owner:
  assumes "sess_ok s" and "sess_Claim d1 d2 sid own s = (Inr got, s1)" and "\<forall>op \<in> set ops. \<not> releases sid op"
    and "sess_Claim d3 d4 sid other (fold sess_run ops s1) = (Inr got2, s2)"
  shows "got2 = got"
proof -
  have "redis_store.run = sess_run" by (intro ext) (rule sess_run_eq)
  with redis_store.first_claim_wins [OF assms(1-3)] assms(4) show ?thesis by simp
qed

theorem session_keeps_its_owner_witness:
  "\<exists>s2. sess_Claim Delivered Delivered 7 ''bob''
      (fold sess_run [ReleaseAll Delivered [8], AskOwner (NotRun ''timeout'') 9]
        \<lparr>rs_cache = [(7, ''ann'')], rs_hash = [(''7'', ''ann'')]\<rparr>) = (Inr ''ann'', s2)"
proof -
  let ?s1 = "\<lparr>rs_cache = [(7, ''ann'')], rs_hash = [(''7'', ''ann'')]\<rparr>"
  let ?ops = "[ReleaseAll Delivered [8], AskOwner (NotRun ''timeout'') 9]"
  have c1: "sess_Claim Delivered Delivered 7 ''ann'' \<lparr>rs_cache = [], rs_hash = []\<rparr> = (Inr ''ann'', ?s1)"
    by (simp add: sess_Claim_def sess_Owner_def sess_remember_def hsetnx_def Let_def)
  have ok: "sess_ok \<lparr>rs_cache = [], rs_hash = []\<rparr>" by (simp add: sess_ok_def)
  obtain got s2 where c2: "sess_Claim Delivered Delivered 7 ''bob'' (fold sess_run ?ops ?s1) = (Inr got, s2)"
    by (simp add: sess_Claim_def sess_Owner_def sess_Release_def hsetnx_def Let_def)
  have "got = ''ann''" by (rule session_keeps_its_owner [OF ok c1 _ c2]) simp
  with c2 show ?thesis by auto
qed

subsection \<open>Id ranges\<close>

text \<open>
  The contract of \<^verbatim>\<open>IDOwners\<close> for ids that are handed out in increasing batches: asking answers the recorded
  owner, and recording a batch above everything recorded gives its ids, and only them, to the owner.
\<close>

locale id_owners =
  fixes inv :: "'s \<Rightarrow> bool" and owner_of :: "'s \<Rightarrow> nat \<Rightarrow> string option"
    and ask :: "delivery \<Rightarrow> nat \<Rightarrow> 's \<Rightarrow> (string + string option) \<times> 's"
    and rec :: "delivery \<Rightarrow> nat \<Rightarrow> nat \<Rightarrow> string \<Rightarrow> 's \<Rightarrow> string option \<times> 's"
  assumes ask: "inv s \<Longrightarrow> ask d i s = (r, s') \<Longrightarrow> inv s' \<and> owner_of s' = owner_of s \<and> (\<forall>x. r = Inr x \<longrightarrow> x = owner_of s i) \<and>
      (d = Delivered \<longrightarrow> r = Inr (owner_of s i))"
    and rec: "inv s \<Longrightarrow> \<forall>i \<ge> lo. owner_of s i = None \<Longrightarrow> lo \<le> hi \<Longrightarrow> hi \<le> max_u64 \<Longrightarrow> own \<noteq> [] \<Longrightarrow> ran d \<Longrightarrow> rec d lo hi own s = (e, s') \<Longrightarrow>
      inv s' \<and> owner_of s' = (\<lambda>i. if lo \<le> i \<and> i \<le> hi then Some own else owner_of s i)"
begin

definition record_batch :: "delivery \<times> nat \<times> nat \<times> string \<Rightarrow> 's \<Rightarrow> 's" where
  "record_batch b s = (case b of (d, lo, hi, own) \<Rightarrow> snd (rec d lo hi own s))"

end

text \<open>Batches as the allocator hands them out: none is empty, each lies above the ones before.\<close>

definition increasing :: "(delivery \<times> nat \<times> nat \<times> string) list \<Rightarrow> bool" where
  "increasing bs \<longleftrightarrow> (\<forall>(d, lo, hi, own) \<in> set bs. ran d \<and> lo \<le> hi \<and> hi \<le> max_u64 \<and> own \<noteq> []) \<and>
     sorted_wrt (\<lambda>(d1, lo1, hi1, own1) (d2, lo2, hi2, own2). hi1 < lo2) bs"

definition batch_owner :: "(delivery \<times> nat \<times> nat \<times> string) list \<Rightarrow> nat \<Rightarrow> string option" where
  "batch_owner bs i = map_option (\<lambda>(d, lo, hi, own). own) (find (\<lambda>(d, lo, hi, own). lo \<le> i \<and> i \<le> hi) bs)"

lemma find_append: "find P (xs @ ys) = (case find P xs of Some x \<Rightarrow> Some x | None \<Rightarrow> find P ys)"
  by (induction xs) auto

lemma find_SomeD: "find P xs = Some x \<Longrightarrow> x \<in> set xs \<and> P x"
  by (induction xs) (auto split: if_split_asm)

context id_owners
begin

lemma batches:
  assumes "inv s" and "\<forall>i. owner_of s i = None" and "increasing bs"
  shows "inv (fold record_batch bs s) \<and> owner_of (fold record_batch bs s) = batch_owner bs"
  using assms(3)
proof (induction bs rule: rev_induct)
  case Nil
  show ?case using assms(1,2) by (auto simp: batch_owner_def)
next
  case (snoc b bs)
  obtain d lo hi own where b: "b = (d, lo, hi, own)" by (metis prod_cases4)
  from snoc.prems b have i: "increasing bs" and v: "ran d" "lo \<le> hi" "hi \<le> max_u64" "own \<noteq> []"
    and above: "\<forall>(d1, lo1, hi1, own1) \<in> set bs. hi1 < lo" by (auto simp: increasing_def sorted_wrt_append)
  let ?s = "fold record_batch bs s"
  note IH = snoc.IH [OF i]
  have none: "find (\<lambda>(d, l, h, own). l \<le> j \<and> j \<le> h) bs = None" if "lo \<le> j" for j
    using above that by (auto simp: find_None_iff)
  obtain e s' where r: "rec d lo hi own ?s = (e, s')" by (rule prod.exhaust)
  have "\<forall>j \<ge> lo. owner_of ?s j = None" using IH none by (simp add: batch_owner_def)
  from rec [OF _ this v(2,3,4,1) r] IH have s': "inv s'" "owner_of s' = (\<lambda>i. if lo \<le> i \<and> i \<le> hi then Some own else batch_owner bs i)"
    by auto
  have "batch_owner (bs @ [b]) i = (if lo \<le> i \<and> i \<le> hi then Some own else batch_owner bs i)" for i
    using none [of i] by (auto simp: batch_owner_def b find_append split: option.split)
  moreover have "fold record_batch (bs @ [b]) s = s'" using r b by (simp add: record_batch_def [of "(d, lo, hi, own)"])
  ultimately show ?case using s' by auto
qed

lemma batches_answer:
  assumes "inv s" and "\<forall>i. owner_of s i = None" and "increasing bs"
  shows "fst (ask Delivered i (fold record_batch bs s)) = Inr (batch_owner bs i)"
  using ask [of "fold record_batch bs s" Delivered i] batches [OF assms] by (metis prod.collapse)

end


subsection \<open>The ranges in memory\<close>

lemma ranges_Owner_append:
  "ranges_Owner (rs @ qs) i = (case ranges_Owner rs i of Some x \<Rightarrow> Some x | None \<Rightarrow> ranges_Owner qs i)"
  by (induction rs) auto

interpretation mem_ranges: id_owners "\<lambda>_. True" slices_Owner "\<lambda>d i s. (Inr (slices_Owner s i), s)" "\<lambda>d lo hi own s. (None, slices_Record lo hi own s)"
  by unfold_locales (auto simp: slices_Owner_def slices_Record_def ranges_Owner_append fun_eq_iff split: option.split)

subsection \<open>The ranges in Redis\<close>

definition member :: "slice_range \<Rightarrow> string" where
  "member r = FormatUint (sr_lo r) @ '':'' @ FormatUint (sr_hi r) @ '':'' @ sr_owner r"

definition zset_of :: "slice_range list \<Rightarrow> zset" where
  "zset_of rs = map (\<lambda>r. (sr_hi r, member r)) rs"

definition good_range :: "slice_range \<Rightarrow> bool" where
  "good_range r \<longleftrightarrow> sr_lo r \<le> sr_hi r \<and> sr_hi r \<le> max_u64 \<and> sr_owner r \<noteq> []"

definition good_ranges :: "slice_range list \<Rightarrow> bool" where
  "good_ranges rs \<longleftrightarrow> (\<forall>r \<in> set rs. good_range r) \<and> sorted_wrt (\<lambda>a b. sr_hi a < sr_lo b) rs"

lemma colon_no_digit: "CHR '':'' \<notin> set (FormatUint n)"
  using FormatUint_digits [of n] by (auto simp: list_all_iff)

lemma lua_number_FormatUint: "lua_number (FormatUint n @ CHR '':'' # r) = Some (FormatUint n, r)"
proof -
  have "takeWhile is_digit (FormatUint n @ CHR '':'' # r) = FormatUint n" "dropWhile is_digit (FormatUint n @ CHR '':'' # r) = CHR '':'' # r"
    using FormatUint_digits [of n] by (simp_all add: takeWhile_append2 dropWhile_append2 list_all_iff)
  then show ?thesis by (simp add: lua_number_def)
qed

lemma match_member: "sr_owner r \<noteq> [] \<Longrightarrow> match_range (member r) = Some (FormatUint (sr_lo r), FormatUint (sr_hi r), sr_owner r)"
  by (simp add: match_range_def member_def lua_number_FormatUint)

lemma split_member: "SplitN 3 CHR '':'' (member r) = [FormatUint (sr_lo r), FormatUint (sr_hi r), sr_owner r]"
  by (simp add: member_def numeral_3_eq_3 IndexByte_append colon_no_digit)

lemma member_inj: "sr_owner r \<noteq> [] \<Longrightarrow> sr_owner q \<noteq> [] \<Longrightarrow> member r = member q \<Longrightarrow> sr_lo r = sr_lo q \<and> sr_hi r = sr_hi q \<and> sr_owner r = sr_owner q"
  using match_member [of r] match_member [of q] by (simp add: FormatUint_inj)

lemma lookup_member:
  assumes "good_range r"
  shows "ranges_lookup quote key (member r) i = Inr (if sr_lo r \<le> i \<and> i \<le> sr_hi r then Some \<lparr>sr_lo = sr_lo r, sr_hi = sr_hi r, sr_owner = sr_owner r\<rparr> else None)"
  using assms by (simp add: ranges_lookup_def split_member ParseUint_FormatUint good_range_def)

text \<open>The first range that ends at or above an id is the only one that can hold it.\<close>

lemma find_hi:
  assumes "good_ranges rs"
  shows "ranges_Owner rs i = (case find (\<lambda>r. i \<le> sr_hi r) rs of Some r \<Rightarrow> if sr_lo r \<le> i then Some (sr_owner r) else None | None \<Rightarrow> None)"
  using assms
proof (induction rs)
  case (Cons r rs)
  then have IH: "ranges_Owner rs i = (case find (\<lambda>r. i \<le> sr_hi r) rs of Some r \<Rightarrow> if sr_lo r \<le> i then Some (sr_owner r) else None | None \<Rightarrow> None)"
    by (simp add: good_ranges_def)
  have above: "ranges_Owner qs i = None" if "\<forall>q \<in> set qs. i < sr_lo q" for qs
    using that by (induction qs) auto
  show ?case
  proof (cases "i \<le> sr_hi r")
    case True
    have "ranges_Owner rs i = None" if "i < sr_lo r"
      by (rule above) (use Cons.prems True in \<open>auto simp: good_ranges_def\<close>)
    with True show ?thesis by auto
  next
    case False
    with IH show ?thesis by simp
  qed
qed simp

lemma range_in:
  assumes "good_ranges rs" and "q \<in> set rs" and "sr_lo q \<le> i" and "i \<le> sr_hi q"
  shows "ranges_Owner rs i = Some (sr_owner q)"
  using assms(1,2)
proof (induction rs)
  case (Cons r rs)
  show ?case
  proof (cases "q = r")
    case True
    with assms(3,4) show ?thesis by simp
  next
    case False
    with Cons.prems have "q \<in> set rs" "sr_hi r < sr_lo q" "good_ranges rs" by (auto simp: good_ranges_def)
    with Cons.IH assms(3) show ?thesis by simp
  qed
qed simp

lemma zset_from: "ZRANGE_from i (zset_of rs) = map_option member (find (\<lambda>r. i \<le> sr_hi r) rs)"
  by (induction rs) (auto simp: ZRANGE_from_def zset_of_def)

definition cached_ok :: "slice_range list \<Rightarrow> slice_range list \<Rightarrow> bool" where
  "cached_ok rs cache \<longleftrightarrow> (\<forall>r \<in> set cache. \<forall>i. sr_lo r \<le> i \<longrightarrow> i \<le> sr_hi r \<longrightarrow> ranges_Owner rs i = Some (sr_owner r))"

definition ranges_ok :: "redis_ranges \<Rightarrow> bool" where
  "ranges_ok s \<longleftrightarrow> (\<exists>rs. rr_zset s = zset_of rs \<and> good_ranges rs \<and> cached_ok rs (rr_cache s))"

text \<open>The owner that the sorted set records, read off its members.\<close>

definition zset_owner :: "zset \<Rightarrow> nat \<Rightarrow> string option" where
  "zset_owner z i = ranges_Owner (List.map_filter (\<lambda>(sc, m). map_option (\<lambda>(lo, hi, own).
     \<lparr>sr_lo = dec_value 0 lo, sr_hi = dec_value 0 hi, sr_owner = own\<rparr>) (match_range m)) z) i"

lemma zset_owner_of: "good_ranges rs \<Longrightarrow> zset_owner (zset_of rs) i = ranges_Owner rs i"
proof -
  assume g: "good_ranges rs"
  have "List.map_filter (\<lambda>(sc, m). map_option (\<lambda>(lo, hi, own). \<lparr>sr_lo = dec_value 0 lo, sr_hi = dec_value 0 hi, sr_owner = own\<rparr>) (match_range m)) (zset_of rs) = rs"
    using g by (induction rs) (simp_all add: zset_of_def List.map_filter_simps match_member good_ranges_def good_range_def)
  then show ?thesis by (simp add: zset_owner_def)
qed

lemma redis_Owner_ok:
  assumes "rr_zset s = zset_of rs" and "good_ranges rs" and "cached_ok rs (rr_cache s)" and "redis_Owner quote key d i s = (r, s')"
  shows "rr_zset s' = zset_of rs \<and> cached_ok rs (rr_cache s') \<and> (\<forall>x. r = Inr x \<longrightarrow> x = ranges_Owner rs i) \<and>
    (d = Delivered \<longrightarrow> r = Inr (ranges_Owner rs i))"
proof (cases "find (\<lambda>r. sr_lo r \<le> i \<and> i \<le> sr_hi r) (rev (rr_cache s))")
  case (Some q)
  then have "q \<in> set (rr_cache s)" "sr_lo q \<le> i" "i \<le> sr_hi q" by (auto dest: find_SomeD)
  with assms Some show ?thesis by (auto simp: redis_Owner_def cached_ok_def)
next
  case None
  note c = None
  show ?thesis
  proof (cases "d = Delivered")
    case False
    with assms(1,3,4) None show ?thesis by (cases d) (auto simp: redis_Owner_def)
  next
    case True
    show ?thesis
    proof (cases "find (\<lambda>r. i \<le> sr_hi r) rs")
      case None
      with assms c True show ?thesis by (auto simp: redis_Owner_def zset_from find_hi)
    next
      case (Some q)
      then have q: "q \<in> set rs" "i \<le> sr_hi q" "good_range q" using assms(2) by (auto simp: good_ranges_def dest: find_SomeD)
      from lookup_member [OF q(3)] Some have z: "answered d (ZRANGE_from i (rr_zset s)) = Inr (Some (member q))"
        using True assms(1) by (simp add: zset_from)
      have f: "ranges_Owner rs i = (if sr_lo q \<le> i then Some (sr_owner q) else None)" using find_hi [OF assms(2), of i] Some by simp
      show ?thesis
      proof (cases "sr_lo q \<le> i")
        case True
        have "r = Inr (Some (sr_owner q))" "s' = ranges_remember \<lparr>sr_lo = sr_lo q, sr_hi = sr_hi q, sr_owner = sr_owner q\<rparr> s"
          using assms(4) c z lookup_member [OF q(3), of quote key i] True q(2) by (auto simp: redis_Owner_def)
        moreover have "cached_ok rs (rr_cache (ranges_remember \<lparr>sr_lo = sr_lo q, sr_hi = sr_hi q, sr_owner = sr_owner q\<rparr> s))"
          using assms(3) range_in [OF assms(2) q(1)] by (auto simp: cached_ok_def ranges_remember_def dest: in_set_dropD)
        ultimately show ?thesis using assms(1) f True by (simp add: ranges_remember_def)
      next
        case False
        with assms(4) c z lookup_member [OF q(3), of quote key i] have "r = Inr None" "s' = s" by (auto simp: redis_Owner_def)
        with assms(1,3) f False show ?thesis by simp
      qed
    qed
  qed
qed

text \<open>Recording above everything recorded: the last range grows or a new one follows it.\<close>

definition with_range :: "slice_range list \<Rightarrow> nat \<Rightarrow> nat \<Rightarrow> string \<Rightarrow> slice_range list" where
  "with_range rs lo hi own =
     (if rs \<noteq> [] \<and> Suc (sr_hi (last rs)) = lo \<and> sr_owner (last rs) = own
      then butlast rs @ [\<lparr>sr_lo = sr_lo (last rs), sr_hi = hi, sr_owner = own\<rparr>]
      else rs @ [\<lparr>sr_lo = lo, sr_hi = hi, sr_owner = own\<rparr>])"

lemma with_range_owner:
  assumes "good_ranges rs" and "\<forall>r \<in> set rs. sr_hi r < lo" and "lo \<le> hi"
  shows "ranges_Owner (with_range rs lo hi own) i = (if lo \<le> i \<and> i \<le> hi then Some own else ranges_Owner rs i)"
proof (cases "rs \<noteq> [] \<and> Suc (sr_hi (last rs)) = lo \<and> sr_owner (last rs) = own")
  case True
  then obtain qs q where rs: "rs = qs @ [q]" by (metis append_butlast_last_id)
  have "ranges_Owner qs j = None" if "sr_lo q \<le> j" for j
  proof -
    have "\<forall>r \<in> set qs. sr_hi r < j" using assms(1) that rs by (auto simp: good_ranges_def sorted_wrt_append)
    then show ?thesis by (induction qs) auto
  qed
  moreover have "sr_lo q \<le> sr_hi q" "Suc (sr_hi q) = lo" "sr_owner q = own" using True assms(1) rs by (auto simp: good_ranges_def good_range_def)
  ultimately show ?thesis using True rs assms(3) by (auto simp: with_range_def ranges_Owner_append split: option.split)
next
  case False
  have "ranges_Owner rs i = None" if "lo \<le> i"
  proof -
    have "\<forall>r \<in> set rs. sr_hi r < i" using assms(2) that by auto
    then show ?thesis by (induction rs) auto
  qed
  with False show ?thesis by (auto simp: with_range_def ranges_Owner_append split: option.split)
qed

lemma with_range_good:
  assumes "good_ranges rs" and "\<forall>r \<in> set rs. sr_hi r < lo" and "lo \<le> hi" and "hi \<le> max_u64" and "own \<noteq> []"
  shows "good_ranges (with_range rs lo hi own)"
proof (cases "rs \<noteq> [] \<and> Suc (sr_hi (last rs)) = lo \<and> sr_owner (last rs) = own")
  case True
  then obtain qs q where rs: "rs = qs @ [q]" by (metis append_butlast_last_id)
  with assms True show ?thesis by (auto simp: with_range_def good_ranges_def good_range_def sorted_wrt_append)
next
  case False
  with assms show ?thesis by (auto simp: with_range_def good_ranges_def good_range_def sorted_wrt_append)
qed

lemma z_insert_last: "\<forall>x \<in> set z. fst x < fst y \<Longrightarrow> z_insert y z = z @ [y]"
  by (induction z) (auto simp: z_before_def)

lemma ZREM_absent: "\<forall>x \<in> set z. snd x \<noteq> m \<Longrightarrow> ZREM m z = z"
  by (simp add: ZREM_def)

lemma ZADD_last:
  assumes "good_ranges rs" and "\<forall>r \<in> set rs. sr_hi r < sr_hi q" and "good_range q"
  shows "ZADD (sr_hi q) (member q) (zset_of rs) = zset_of (rs @ [q])"
proof -
  have "member r \<noteq> member q" if "r \<in> set rs" for r
    using assms that member_inj [of r q] by (auto simp: good_ranges_def good_range_def)
  then have "ZREM (member q) (zset_of rs) = zset_of rs" by (intro ZREM_absent) (auto simp: zset_of_def)
  moreover have "z_insert (sr_hi q, member q) (zset_of rs) = zset_of rs @ [(sr_hi q, member q)]"
    by (rule z_insert_last) (use assms(2) in \<open>auto simp: zset_of_def\<close>)
  ultimately show ?thesis by (simp add: ZADD_def zset_of_def)
qed

lemma ZREM_last:
  assumes "good_ranges (qs @ [q])"
  shows "ZREM (member q) (zset_of (qs @ [q])) = zset_of qs"
proof -
  have "member r \<noteq> member q" if "r \<in> set qs" for r
    using assms that member_inj [of r q] by (auto simp: good_ranges_def good_range_def sorted_wrt_append)
  then have "ZREM (member q) (zset_of qs) = zset_of qs" by (intro ZREM_absent) (auto simp: zset_of_def)
  then show ?thesis by (simp add: ZREM_def zset_of_def)
qed

lemma ZRANGE_below:
  assumes "good_ranges rs" and "\<forall>r \<in> set rs. sr_hi r < lo"
  shows "ZRANGE_at (int lo - 1) (zset_of rs) = (if rs \<noteq> [] \<and> Suc (sr_hi (last rs)) = lo then [member (last rs)] else [])"
proof (cases rs rule: rev_cases)
  case Nil
  then show ?thesis by (simp add: ZRANGE_at_def zset_of_def)
next
  case (snoc qs q)
  have "filter (\<lambda>x. int (fst x) = int lo - 1) (zset_of qs) = []"
    using assms snoc by (fastforce simp: filter_empty_conv zset_of_def good_ranges_def good_range_def sorted_wrt_append)
  then show ?thesis using snoc by (auto simp: ZRANGE_at_def zset_of_def)
qed

lemma mergeRangeLua_ok:
  assumes "good_ranges rs" and "\<forall>r \<in> set rs. sr_hi r < lo" and "lo \<le> hi" and "hi \<le> max_u64" and "own \<noteq> []"
  shows "mergeRangeLua (FormatUint lo) (FormatUint hi) own (zset_of rs) = zset_of (with_range rs lo hi own)"
proof (cases "rs \<noteq> [] \<and> Suc (sr_hi (last rs)) = lo")
  case True
  then obtain qs q where rs: "rs = qs @ [q]" "Suc (sr_hi q) = lo" by (metis append_butlast_last_id last_snoc)
  then have q: "good_range q" "good_ranges qs" "\<forall>r \<in> set qs. sr_hi r < sr_lo q" using assms(1) by (auto simp: good_ranges_def sorted_wrt_append)
  show ?thesis
  proof (cases "sr_owner q = own")
    case own: True
    let ?q = "\<lparr>sr_lo = sr_lo q, sr_hi = hi, sr_owner = own\<rparr>"
    have "merge_prev own [member q] (FormatUint lo, zset_of rs) = (FormatUint (sr_lo q), zset_of qs)"
      using q own rs ZREM_last [of qs q] assms(1) by (simp add: match_member good_range_def)
    then have "mergeRangeLua (FormatUint lo) (FormatUint hi) own (zset_of rs) = ZADD (sr_hi ?q) (member ?q) (zset_of qs)"
      using ZRANGE_below [OF assms(1,2)] True rs(1) by (simp add: mergeRangeLua_def member_def)
    also have "\<dots> = zset_of (qs @ [?q])"
      by (rule ZADD_last) (use q assms rs in \<open>auto simp: good_range_def\<close>)
    finally show ?thesis using rs own by (simp add: with_range_def)
  next
    case False
    let ?q = "\<lparr>sr_lo = lo, sr_hi = hi, sr_owner = own\<rparr>"
    have "merge_prev own [member q] (FormatUint lo, zset_of rs) = (FormatUint lo, zset_of rs)"
      using q False by (simp add: match_member good_range_def)
    then have "mergeRangeLua (FormatUint lo) (FormatUint hi) own (zset_of rs) = ZADD (sr_hi ?q) (member ?q) (zset_of rs)"
      using ZRANGE_below [OF assms(1,2)] True rs(1) by (simp add: mergeRangeLua_def member_def)
    also have "\<dots> = zset_of (rs @ [?q])"
      by (rule ZADD_last) (use assms in \<open>auto simp: good_range_def\<close>)
    finally show ?thesis using rs False by (simp add: with_range_def)
  qed
next
  case False
  let ?q = "\<lparr>sr_lo = lo, sr_hi = hi, sr_owner = own\<rparr>"
  have "mergeRangeLua (FormatUint lo) (FormatUint hi) own (zset_of rs) = ZADD (sr_hi ?q) (member ?q) (zset_of rs)"
    using ZRANGE_below [OF assms(1,2)] False by (simp add: mergeRangeLua_def member_def)
  also have "\<dots> = zset_of (rs @ [?q])"
    by (rule ZADD_last) (use assms in \<open>auto simp: good_range_def\<close>)
  finally show ?thesis using False by (auto simp: with_range_def)
qed


lemma below_fresh:
  assumes "good_ranges rs" and "\<forall>i \<ge> lo. ranges_Owner rs i = None" and "r \<in> set rs"
  shows "sr_hi r < lo"
proof (rule ccontr)
  assume "\<not> sr_hi r < lo"
  then have "ranges_Owner rs (sr_hi r) = None" using assms(2) by simp
  moreover have "sr_lo r \<le> sr_hi r" using assms(1,3) by (auto simp: good_ranges_def good_range_def)
  ultimately show False using range_in [OF assms(1,3), of "sr_hi r"] by simp
qed

lemma ranges_remember_state [simp]:
  "rr_zset (ranges_remember r s) = rr_zset s" "set (rr_cache (ranges_remember r s)) \<subseteq> insert r (set (rr_cache s))"
  by (auto simp: ranges_remember_def dest: in_set_dropD)

lemma redis_Record_state:
  assumes "redis_Record d lo hi own s = (e, s')" and "ran d"
  shows "rr_zset s' = mergeRangeLua (FormatUint lo) (FormatUint hi) own (rr_zset s) \<and>
    rr_cache s' = rr_cache (ranges_remember \<lparr>sr_lo = lo, sr_hi = hi, sr_owner = own\<rparr> s)"
  using assms by (cases d) (auto simp: redis_Record_def Let_def)

lemma redis_Record_ok:
  assumes "ranges_ok s" and "\<forall>i \<ge> lo. zset_owner (rr_zset s) i = None" and v: "lo \<le> hi" "hi \<le> max_u64" "own \<noteq> []"
    and "ran d" and "redis_Record d lo hi own s = (e, s')"
  shows "ranges_ok s' \<and> zset_owner (rr_zset s') = (\<lambda>i. if lo \<le> i \<and> i \<le> hi then Some own else zset_owner (rr_zset s) i)"
proof -
  from assms(1) obtain rs where rs: "rr_zset s = zset_of rs" "good_ranges rs" "cached_ok rs (rr_cache s)" by (auto simp: ranges_ok_def)
  have none: "ranges_Owner rs i = None" if "lo \<le> i" for i
    using assms(2) [rule_format, OF that] unfolding rs(1) zset_owner_of [OF rs(2)] .
  have b: "\<forall>r \<in> set rs. sr_hi r < lo" using below_fresh [OF rs(2)] none by blast
  let ?rs = "with_range rs lo hi own"
  note w = with_range_owner [OF rs(2) b v(1), of own] with_range_good [OF rs(2) b v]
  have s': "rr_zset s' = zset_of ?rs" "set (rr_cache s') \<subseteq> insert \<lparr>sr_lo = lo, sr_hi = hi, sr_owner = own\<rparr> (set (rr_cache s))"
    using redis_Record_state [OF assms(7,6)] ranges_remember_state(2) by (simp_all add: mergeRangeLua_ok [OF rs(2) b v] rs(1))
  have "cached_ok ?rs (rr_cache s')" unfolding cached_ok_def
  proof (intro ballI allI impI)
    fix r i assume r: "r \<in> set (rr_cache s')" and i: "sr_lo r \<le> i" "i \<le> sr_hi r"
    from r s'(2) consider "r = \<lparr>sr_lo = lo, sr_hi = hi, sr_owner = own\<rparr>" | "r \<in> set (rr_cache s)" by auto
    then show "ranges_Owner ?rs i = Some (sr_owner r)"
    proof cases
      case 1
      with i show ?thesis by (simp add: w(1))
    next
      case 2
      with i rs(3) have "ranges_Owner rs i = Some (sr_owner r)" by (simp add: cached_ok_def)
      with none [of i] show ?thesis by (auto simp: w(1))
    qed
  qed
  with s'(1) w(2) have "ranges_ok s'" by (auto simp: ranges_ok_def)
  moreover have "zset_owner (rr_zset s') i = (if lo \<le> i \<and> i \<le> hi then Some own else zset_owner (rr_zset s) i)" for i
    by (simp add: s'(1) rs(1) zset_owner_of [OF w(2)] zset_owner_of [OF rs(2)] w(1))
  ultimately show ?thesis by auto
qed

interpretation redis_owned: id_owners ranges_ok "\<lambda>s. zset_owner (rr_zset s)" "redis_Owner quote key" redis_Record for quote key
proof (unfold_locales, goal_cases)
  case (1 s d i r s')
  then obtain rs where rs: "rr_zset s = zset_of rs" "good_ranges rs" "cached_ok rs (rr_cache s)" by (auto simp: ranges_ok_def)
  note k = redis_Owner_ok [OF rs 1(2)]
  have "ranges_ok s'" unfolding ranges_ok_def by (intro exI [of _ rs] conjI rs(2)) (use k in simp_all)
  moreover have "zset_owner (rr_zset s') = zset_owner (rr_zset s)" unfolding rs(1) k [THEN conjunct1] ..
  moreover have "zset_owner (rr_zset s) i = ranges_Owner rs i" unfolding rs(1) by (rule zset_owner_of [OF rs(2)])
  ultimately show ?case using k [THEN conjunct2, THEN conjunct2] by metis
next
  case (2 s lo hi own d e s')
  show ?case by (rule redis_Record_ok [OF 2])
qed




subsection \<open>Inode numbers\<close>

text \<open>The script that allocates a batch records it as \<^verbatim>\<open>mergeRangeLua\<close> would.\<close>

lemma merge_inodes_one:
  "good_range q \<Longrightarrow> merge_inodes own [member q] (int lo, z) =
     (if sr_owner q = own \<and> Suc (sr_hi q) = lo then (int (sr_lo q), ZREM (member q) z) else (int lo, z))"
  by (auto simp: match_member good_range_def)

lemma merge_prev_one:
  "good_range q \<Longrightarrow> merge_prev own [member q] (FormatUint lo, z) =
     (if sr_owner q = own \<and> Suc (sr_hi q) = lo then (FormatUint (sr_lo q), ZREM (member q) z) else (FormatUint lo, z))"
  by (auto simp: match_member good_range_def)

lemma FormatInt_int: "FormatInt (int n) = FormatUint n"
  by (simp add: FormatInt_def)

lemma inode_merge:
  assumes "good_ranges rs" and "\<forall>r \<in> set rs. sr_hi r < lo"
  shows "(case merge_inodes own (ZRANGE_at (int lo - 1) (zset_of rs)) (int lo, zset_of rs) of
      (l, z1) \<Rightarrow> ZADD hi (FormatInt l @ '':'' @ FormatUint hi @ '':'' @ own) z1) = mergeRangeLua (FormatUint lo) (FormatUint hi) own (zset_of rs)"
proof (cases "rs \<noteq> [] \<and> Suc (sr_hi (last rs)) = lo")
  case True
  then have "good_range (last rs)" using assms(1) by (auto simp: good_ranges_def)
  note merge_inodes_one [OF this, of own lo "zset_of rs"] merge_prev_one [OF this, of own lo "zset_of rs"]
  with True show ?thesis unfolding mergeRangeLua_def FormatUint_value ZRANGE_below [OF assms]
    by (simp del: merge_inodes.simps merge_prev.simps add: FormatInt_int)
next
  case False
  then show ?thesis unfolding mergeRangeLua_def FormatUint_value ZRANGE_below [OF assms] by (auto simp: FormatInt_int)
qed

text \<open>The batches \<open>bs\<close> handed out from \<open>mk\<close> on, as sizes and owners.\<close>

fun alloc_owner :: "nat \<Rightarrow> (nat \<times> string) list \<Rightarrow> nat \<Rightarrow> string option" where
  "alloc_owner mk [] i = None"
| "alloc_owner mk ((n, own) # bs) i = (if mk < i \<and> i \<le> mk + n then Some own else alloc_owner (mk + n) bs i)"

definition alloc_end :: "nat \<Rightarrow> (nat \<times> string) list \<Rightarrow> nat" where
  "alloc_end mk bs = mk + sum_list (map fst bs)"

lemma alloc_owner_append: "alloc_owner mk (bs @ [(n, own)]) i =
    (if alloc_end mk bs < i \<and> i \<le> alloc_end mk bs + n then Some own else alloc_owner mk bs i)"
proof (induction bs arbitrary: mk)
  case (Cons b bs)
  obtain m q where b: "b = (m, q)" by force
  have "alloc_end (mk + m) bs = alloc_end mk (b # bs)" "mk + m \<le> alloc_end (mk + m) bs" by (simp_all add: alloc_end_def b)
  with Cons.IH [of "mk + m"] show ?case by (auto simp: b)
qed (simp add: alloc_end_def)

lemma alloc_owner_Some: "alloc_owner mk bs i \<noteq> None \<longleftrightarrow> mk < i \<and> i \<le> alloc_end mk bs"
proof (induction bs arbitrary: mk)
  case (Cons b bs)
  obtain m q where b: "b = (m, q)" by force
  have "alloc_end (mk + m) bs = alloc_end mk (b # bs)" "mk + m \<le> alloc_end (mk + m) bs" by (simp_all add: alloc_end_def b)
  with Cons.IH [of "mk + m"] show ?case by (auto simp: b)
qed (simp add: alloc_end_def)

definition inodes_ok :: "nat \<Rightarrow> (nat \<times> string) list \<Rightarrow> inode_store \<Rightarrow> bool" where
  "inodes_ok mk bs s \<longleftrightarrow> is_next s = Some (FormatUint (alloc_end mk bs)) \<and> is_mark s = (if bs = [] then None else Some (FormatUint mk)) \<and>
     (\<exists>rs. is_owners s = zset_of rs \<and> good_ranges rs \<and> (\<forall>i. ranges_Owner rs i = alloc_owner mk bs i))"

lemma inodeAllocLua_ok:
  assumes ok: "inodes_ok mk bs s" and n: "0 < n" "own \<noteq> []" "int (alloc_end mk bs + n) \<le> max_i64"
  shows "\<exists>s'. inodeAllocLua (int n) own s = (Inr (int (alloc_end mk bs + n)), s') \<and> inodes_ok mk (bs @ [(n, own)]) s'"
proof -
  let ?nx = "alloc_end mk bs"
  let ?lo = "Suc ?nx" and ?hi = "?nx + n"
  from ok obtain rs where rs: "is_owners s = zset_of rs" "good_ranges rs" "\<forall>i. ranges_Owner rs i = alloc_owner mk bs i"
    and nx: "is_next s = Some (FormatUint ?nx)" and mk: "is_mark s = (if bs = [] then None else Some (FormatUint mk))"
    by (auto simp: inodes_ok_def)
  have "\<forall>i \<ge> ?lo. ranges_Owner rs i = None" using rs(3) alloc_owner_Some [of mk bs] by (metis Suc_n_not_le_n le_trans)
  then have b: "\<forall>r \<in> set rs. sr_hi r < ?lo" using below_fresh [OF rs(2)] by blast
  have v: "?lo \<le> ?hi" "?hi \<le> max_u64" using n by (simp_all add: go_arith)
  let ?rs = "with_range rs ?lo ?hi own"
  have z: "(case merge_inodes own (ZRANGE_at (int ?nx) (zset_of rs)) (int ?nx + 1, zset_of rs) of
      (l, z1) \<Rightarrow> ZADD ?hi (FormatInt l @ '':'' @ FormatUint ?hi @ '':'' @ own) z1) = zset_of ?rs"
    using inode_merge [OF rs(2) b, where own = own and hi = ?hi] mergeRangeLua_ok [OF rs(2) b v n(2)] by (simp add: add.commute)
  have incr: "redis_INCRBY (Some (FormatUint ?nx)) (int n) = Inr (int ?hi)"
    using RedisInt_FormatInt [of "int ?nx"] n(3) by (simp add: redis_INCRBY_def FormatInt_int go_arith)
  let ?s1 = "set_mark s"
  have s1: "is_next ?s1 = Some (FormatUint ?nx)" "is_owners ?s1 = zset_of rs" "is_mark ?s1 = Some (FormatUint mk)"
    using nx mk rs(1) by (auto simp: set_mark_def alloc_end_def)
  let ?s' = "?s1\<lparr>is_next := Some (FormatUint ?hi), is_owners := zset_of ?rs\<rparr>"
  have "inodeAllocLua (int n) own s = (Inr (int ?hi), ?s')"
    using z incr s1 FormatInt_int [of ?hi] by (auto simp: inodeAllocLua_def Let_def nat_int_add split: prod.split_asm)
  moreover have "inodes_ok mk (bs @ [(n, own)]) ?s'" unfolding inodes_ok_def
  proof (intro conjI exI [of _ ?rs])
    show "good_ranges ?rs" by (rule with_range_good [OF rs(2) b v n(2)])
    show "\<forall>i. ranges_Owner ?rs i = alloc_owner mk (bs @ [(n, own)]) i"
      by (simp add: with_range_owner [OF rs(2) b v(1)] alloc_owner_append rs(3) Suc_le_eq)
  qed (simp_all add: s1 alloc_end_def add.assoc)
  ultimately show ?thesis by blast
qed



end
