(* ===== verification/Accounting.thy ===== *)
theory Accounting
  imports Decide
begin

section \<open>Values and scope of the accounting hashes (accounting.go)\<close>

text \<open>
  The two checks that run between the guard and the policy: what a write may store in a dir-stat, usage
  or quota hash, and, while per-person grants are in force, above which depth no quota row may be set.
\<close>

definition counterHash :: "string \<Rightarrow> bool" where
  "counterHash shape \<longleftrightarrow> shape \<in> {''dirDataLength'', ''dirUsedSpace'', ''dirUsedInodes'', ''dirQuotaUsedSpace'', ''dirQuotaUsedInodes''}"

definition canonicalInt :: "bytes \<Rightarrow> bool" where
  "canonicalInt s = (case ParseInt s of (v, None) \<Rightarrow> FormatInt v = s | (v, Some e) \<Rightarrow> False)"

definition quota_incr :: "punit \<Rightarrow> key_write \<Rightarrow> denial option" where
  "quota_incr u w =
     (let n = cmd_name (cmd_of u w) in
      if global_shape (w_key w) = ''dirQuota'' \<and> (n = ''HINCRBY'' \<or> n = ''HINCRBYFLOAT'')
      then Some (refuse ReasonAdminOnly (n @ '' on '' @ w_raw w @ '': quota definitions are only set (juicefs quota set)''))
      else None)"

fun every_second_canonical :: "bytes list \<Rightarrow> bool" where
  "every_second_canonical [] = True"
| "every_second_canonical [v] = canonicalInt v"
| "every_second_canonical (v # f # r) = (canonicalInt v \<and> every_second_canonical r)"

definition bad_value :: "key_write \<Rightarrow> string \<Rightarrow> denial option" where
  "bad_value w what = Some (refuse ReasonBGOnly (what @ '' on '' @ w_raw w @ '': juicefs stores only int64 values there''))"

definition value_denial :: "punit \<Rightarrow> key_write \<Rightarrow> denial option" where
  "value_denial u w =
     (let c = cmd_of u w; n = cmd_name c in
      if k_group (w_key w) \<noteq> GDirstat \<and> k_group (w_key w) \<noteq> GQuota then None
      else if n = ''HINCRBYFLOAT'' then bad_value w ''HINCRBYFLOAT''
      else if n = ''HINCRBY'' then
        (if length (cmd_args c) \<noteq> 4 \<or> \<not> canonicalInt (cmd_args c ! 3)
         then bad_value w ''HINCRBY with a delta that is not an int64'' else None)
      else if n = ''HSET'' \<or> n = ''HMSET'' \<or> n = ''HSETNX'' then
        (if \<not> counterHash (global_shape (w_key w)) then None
         else if \<not> every_second_canonical (drop 3 (cmd_args c)) then bad_value w (n @ '' of a value that is not an int64'')
         else None)
      else None)"

text \<open>The first refusal of a list of writes.\<close>

fun first_denial :: "('a \<Rightarrow> denial option) \<Rightarrow> 'a list \<Rightarrow> denial option" where
  "first_denial f [] = None"
| "first_denial f (w # ws) = (case f w of Some d \<Rightarrow> Some d | None \<Rightarrow> first_denial f ws)"

definition accountingValueDenial :: "principal \<Rightarrow> punit \<Rightarrow> denial option" where
  "accountingValueDenial p u =
     (case first_denial (quota_incr u) (u_writes u) of
        Some d \<Rightarrow> Some d
      | None \<Rightarrow> if p_kind p = KindBG then None else first_denial (value_denial u) (u_writes u))"

subsection \<open>Quotas above the project depth\<close>

definition quota_hashes :: "string set" where
  "quota_hashes = {''dirQuota'', ''dirQuotaUsedSpace'', ''dirQuotaUsedInodes''}"

definition whole_key :: "cmd \<Rightarrow> denial option" where
  "whole_key c =
     (if (cmd_name c = ''RESTORE'' \<or> cmd_name c = ''MOVE'') \<and> 1 < length (cmd_args c) \<and> cmd_args c ! 1 \<in> quota_hashes
      then Some (refuse ReasonNotGranted (cmd_name c @ '' of '' @ (cmd_args c ! 1) @
        '': while per-person grants are in force, quota rows are changed one field at a time''))
      else None)"

fun rows_scope :: "side \<Rightarrow> string \<Rightarrow> key_write \<Rightarrow> stat_row list \<Rightarrow> ancestry \<Rightarrow> denial option \<times> ancestry" where
  "rows_scope side n w [] a = (None, a)"
| "rows_scope side n w (r # rs) a =
     (if sr_op r \<noteq> ''set'' then rows_scope side n w rs a
      else case resolveDir side (sr_dir r) a of
        (res, a1) \<Rightarrow>
          if (case res of Inr loc \<Rightarrow> loc_kind loc \<noteq> NsRoot | Inl e \<Rightarrow> False) then rows_scope side n w rs a1
          else
            let lbl = label a1 (sr_dir r);
                what = ''folder '' @ inoStr (sr_dir r) @ (if lbl \<noteq> [] then '' ('' @ lbl @ '')'' else []) @
                  (case res of Inl e \<Rightarrow> '', which the proxy cannot place ('' @ e @ '')'' | Inr loc \<Rightarrow> [])
            in (Some (refuse ReasonNotGranted (n @ '' '' @ w_raw w @ '' of '' @ what @
                  '': while per-person grants are in force, quotas are supported only on project folders and below'')), a1))"

fun writes_scope :: "side \<Rightarrow> punit \<Rightarrow> key_write list \<Rightarrow> ancestry \<Rightarrow> denial option \<times> ancestry" where
  "writes_scope side u [] a = (None, a)"
| "writes_scope side u (w # ws) a =
     (let c = cmd_of u w; n = cmd_name c in
      if global_shape (w_key w) \<notin> quota_hashes then writes_scope side u ws a
      else if n \<notin> {''HSET'', ''HSETNX'', ''HMSET'', ''HDEL'', ''HINCRBY'', ''HINCRBYFLOAT''} then
        (Some (refuse ReasonNotGranted (n @ '' of '' @ w_raw w @
          '' as a whole: while per-person grants are in force, quota rows are changed one field at a time'')), a)
      else case rows_scope side n w (statRowsOf n (w_key w) (cmd_args c)) a of
        (Some d, a1) \<Rightarrow> (Some d, a1)
      | (None, a1) \<Rightarrow> writes_scope side u ws a1)"

definition quotaScopeDenial :: "side \<Rightarrow> principal \<Rightarrow> punit \<Rightarrow> ancestry \<Rightarrow> denial option \<times> ancestry" where
  "quotaScopeDenial side p u a =
     (if p_kind p = KindBG then (None, a)
      else case first_denial whole_key (u_cmds u) of
        Some d \<Rightarrow> (Some d, a)
      | None \<Rightarrow> writes_scope side u (u_writes u) a)"

end
