(* ===== verification/Conn.thy ===== *)
theory Conn
  imports Accounting Lease_Cmd Stores
begin

section \<open>A client connection (proxy.go)\<close>

text \<open>
  The state machine of one connection.  The command goroutine reads commands, decides units and queues one
  \<open>slot\<close> per expected reply; the reply goroutine pairs the frames of Redis with the slots.  The record
  \<open>pconn\<close> is the state of both and of the parts of the proxy they use (guard, engine, owner stores).

  \<open>c_uw\<close> is every command written to Redis, in order, \<open>c_cw\<close> every byte written to the client.  Closures of a
  slot are data: a \<open>hook\<close> names what a reply teaches the proxy, \<open>unit_end\<close> what ends a unit.  The record
  \<open>conn_ctx\<close> holds what a call meets outside the connection: the reads and clocks of the gates, the mode and
  the fence of the proxy, whether a dial, a flush or a write succeeds, and the checks that are not modelled
  (replacement protocol, audit log).  A handler runs as one step; a failed write is remembered in \<open>c_werr\<close>,
  as \<^verbatim>\<open>bufio.Writer\<close> remembers it.  \<open>c_units\<close> is a history: each unit that was decided, with its outcome and
  the commands the proxy added to it.
\<close>

datatype hook =
  HookWatch nat | HookSelect | HookUpID | HookSession string int | HookSlice string int | HookInode string int | HookTrash int

record unit_end =
  ud_effects :: "guard_effect list"
  ud_done :: "(principal \<times> punit \<times> ticket) option"

record slot =
  sl_synth :: "bytes option"
  sl_drop :: bool
  sl_exec :: bool
  sl_execCount :: nat
  sl_strip :: nat
  sl_onExec :: "(principal \<times> (nat \<times> string) list) option"
  sl_toRaw :: bool
  sl_sub :: string
  sl_subN :: int
  sl_hook :: "hook option"
  sl_done :: "unit_end option"

definition plain_slot :: slot where
  "plain_slot = \<lparr>sl_synth = None, sl_drop = False, sl_exec = False, sl_execCount = 0, sl_strip = 0, sl_onExec = None,
     sl_toRaw = False, sl_sub = [], sl_subN = 0, sl_hook = None, sl_done = None\<rparr>"

definition drop_slot :: slot where "drop_slot = plain_slot\<lparr>sl_drop := True\<rparr>"

definition synth_slot :: "bytes \<Rightarrow> slot" where "synth_slot b = plain_slot\<lparr>sl_synth := Some b\<rparr>"

definition hook_slot :: "hook \<Rightarrow> slot" where "hook_slot h = plain_slot\<lparr>sl_hook := Some h\<rparr>"

record txn_state =
  tx_cmds :: "cmd list"
  tx_poison :: string

record unit_history =
  h_unit :: punit
  h_denial :: "denial option"
  h_sent :: "bytes list list"

record pconn =
  c_id :: nat
  c_up :: bool
  c_uw :: "bytes list list"
  c_werr :: bool
  c_cw :: bytes
  c_revoked :: bool
  c_q :: "slot list"
  c_fwd :: int
  c_rawmode :: bool
  c_qBytes :: int
  c_overflow :: bool
  c_subs :: "(string \<times> string list) list"
  c_principal :: "principal option"
  c_resp3 :: bool
  c_subscribed :: bool
  c_db :: int
  c_await :: "int option"
  c_txn :: "txn_state option"
  c_watched :: "string list"
  c_watchNo :: nat
  c_watchAck :: "(nat \<times> bool) option"
  c_upID :: nat
  c_trashAlloc :: "(int \<times> nat) option"
  c_guard :: guard
  c_engine :: engine
  c_sess :: redis_sessions
  c_slices :: redis_ranges
  c_inodes :: redis_ranges
  c_units :: "unit_history list"

record conn_ctx =
  y_reads :: reads
  y_decide :: decide_ctx
  y_local :: local_ctx
  y_person :: "string \<Rightarrow> person option"
  y_inForce :: bool
  y_mode :: mode
  y_fenced :: bool
  y_leaseEngine :: bool
  y_singleton :: bool
  y_replace :: "punit \<Rightarrow> denial option \<times> bytes list option"
  y_audit :: "punit \<Rightarrow> denial option"
  y_special :: "bytes list \<Rightarrow> bytes"
  y_auth :: "string \<Rightarrow> string \<Rightarrow> principal option"
  y_dial :: bool
  y_flush :: bool
  y_write :: "bytes list \<Rightarrow> bool"
  y_ack :: bool
  y_idle :: bool
  y_inodeOwner :: "nat \<Rightarrow> string + string option"
  y_inodeMark :: "string + nat"
  y_inodeScript :: string
  y_claim :: "int \<Rightarrow> delivery \<times> delivery"
  y_record :: delivery
  y_now :: int
  y_ds :: "nat \<Rightarrow> delivery"
  y_kill :: "string option"
  y_ticket :: "ticket \<Rightarrow> ticket"
  y_allowedDBs :: "int list"
  y_maxBytes :: int
  y_maxReplies :: nat

text \<open>How a handler ends: the connection goes on, closes, closes for a full reply queue, or the run panics.\<close>

datatype cres = COk | CClose | COverflow | CPanic

fun cthen :: "cres \<times> pconn \<Rightarrow> (pconn \<Rightarrow> cres \<times> pconn) \<Rightarrow> cres \<times> pconn" where
  "cthen (COk, c) f = f c"
| "cthen (r, c) f = (r, c)"

subsection \<open>The end of a unit\<close>

text \<open>\<open>y_ticket\<close> is what the fence timer has made of the ticket by then.\<close>

definition run_done :: "conn_ctx \<Rightarrow> outcome \<Rightarrow> unit_end option \<Rightarrow> pconn \<Rightarrow> pconn" where
  "run_done cx oc ue c =
     (case ue of
        None \<Rightarrow> c
      | Some x \<Rightarrow>
          let c1 = (if ud_effects x \<noteq> [] \<and> Committed oc \<and> \<not> Lost oc then c\<lparr>c_guard := Commit (ud_effects x) (c_guard c)\<rparr> else c) in
          (case ud_done x of
             None \<Rightarrow> c1
           | Some (p, u, tk) \<Rightarrow>
               c1\<lparr>c_engine := snd (done_unit (y_now cx) (y_ds cx) (y_kill cx) p u oc (y_ticket cx tk) (c_engine c1))\<rparr>))"

definition commitOnSuccess :: "guard_effect list \<Rightarrow> (principal \<times> punit \<times> ticket) option \<Rightarrow> unit_end option" where
  "commitOnSuccess effects dn = (if effects = [] \<and> dn = None then None else Some \<lparr>ud_effects = effects, ud_done = dn\<rparr>)"

definition not_sent :: "pconn \<Rightarrow> outcome" where
  "not_sent c = \<lparr>Forwarded = False, Committed = False, Lost = False, o_conn = c_id c\<rparr>"

definition lost :: "pconn \<Rightarrow> outcome" where
  "lost c = \<lparr>Forwarded = True, Committed = False, Lost = True, o_conn = c_id c\<rparr>"

subsection \<open>Queueing\<close>

definition slotCost :: int where "slotCost = 96"

definition account :: "conn_ctx \<Rightarrow> int \<Rightarrow> pconn \<Rightarrow> pconn" where
  "account cx n c =
     (let b = c_qBytes c + n in
      c\<lparr>c_qBytes := b, c_overflow := c_overflow c \<or> 0 < n \<and> (y_maxBytes cx < b \<or> y_maxReplies cx < length (c_q c))\<rparr>)"

definition write_up :: "conn_ctx \<Rightarrow> bytes list \<Rightarrow> pconn \<Rightarrow> pconn" where
  "write_up cx args c =
     (if c_werr c \<or> \<not> y_write cx args then c\<lparr>c_werr := True\<rparr> else c\<lparr>c_uw := c_uw c @ [args]\<rparr>)"

definition pingArgs :: "bytes list" where "pingArgs = [''PING'']"

definition reply :: "conn_ctx \<Rightarrow> bytes \<Rightarrow> pconn \<Rightarrow> pconn" where
  "reply cx b c =
     (if \<not> c_up c then c\<lparr>c_cw := c_cw c @ b\<rparr>
      else
        let wake = (c_fwd c = 0);
            c1 = (if wake then account cx slotCost (c\<lparr>c_q := c_q c @ [drop_slot], c_fwd := c_fwd c + 1\<rparr>) else c);
            c2 = account cx (slotCost + int (length b)) (c1\<lparr>c_q := c_q c1 @ [synth_slot b]\<rparr>)
        in if wake then write_up cx pingArgs c2 else c2)"

text \<open>A revocation falls between two turns, so \<^verbatim>\<open>forward\<close> sees it at its first test.\<close>

definition forward :: "conn_ctx \<Rightarrow> bytes list \<Rightarrow> slot \<Rightarrow> pconn \<Rightarrow> cres \<times> pconn" where
  "forward cx args s c =
     (if c_revoked c then (CClose, run_done cx (not_sent c) (sl_done s) c)
      else
        let c1 = account cx slotCost (c\<lparr>c_q := c_q c @ [s], c_fwd := c_fwd c + 1\<rparr>) in
        if c_overflow c1 then (COverflow, c1)
        else
          let c2 = write_up cx args c1 in (if c_werr c2 then CClose else COk, c2))"

definition flushUpstream :: "conn_ctx \<Rightarrow> pconn \<Rightarrow> bool" where
  "flushUpstream cx c \<longleftrightarrow> \<not> c_revoked c \<and> \<not> c_werr c \<and> y_flush cx"

definition writeNoSlot :: "conn_ctx \<Rightarrow> bytes list \<Rightarrow> pconn \<Rightarrow> cres \<times> pconn" where
  "writeNoSlot cx args c =
     (if c_revoked c then (CClose, c)
      else let c1 = write_up cx args c in (if c_werr c1 then CClose else COk, c1))"

definition errReply :: "string \<Rightarrow> bytes" where "errReply msg = ''-'' @ msg @ CRLF"

subsection \<open>What a reply teaches the proxy\<close>

text \<open>
  The session ids of a reply \<open>r\<close> to \<^verbatim>\<open>INCRBY nextsession n\<close> are the positive ones of \<open>r - n + 1 .. r\<close>; Redis
  refuses an increment that overflows, so the bounds of the loop do not wrap.
\<close>

definition sessionHook :: "conn_ctx \<Rightarrow> string \<Rightarrow> int \<Rightarrow> resp_value \<Rightarrow> pconn \<Rightarrow> pconn" where
  "sessionHook cx owner n v c =
     (if v_type v \<noteq> CHR '':'' then c
      else c\<lparr>c_sess := fold (\<lambda>sid s. if sid \<le> 0 then s
          else snd (sess_Claim (fst (y_claim cx sid)) (snd (y_claim cx sid)) (nat sid) owner s)) [v_int v - n + 1 .. v_int v] (c_sess c)\<rparr>)"

definition idHook :: "conn_ctx \<Rightarrow> string \<Rightarrow> int \<Rightarrow> resp_value \<Rightarrow> pconn \<Rightarrow> pconn" where
  "idHook cx owner n v c =
     (if v_type v \<noteq> CHR '':'' \<or> v_int v < n then c
      else c\<lparr>c_slices := snd (redis_Record (y_record cx) (nat (v_int v - n + 1)) (nat (v_int v)) owner (c_slices c))\<rparr>)"

fun run_hook :: "conn_ctx \<Rightarrow> hook \<Rightarrow> resp_value \<Rightarrow> pconn \<Rightarrow> pconn" where
  "run_hook cx (HookWatch k) v c =
     (case c_watchAck c of Some (j, acked) \<Rightarrow> if j = k then c\<lparr>c_watchAck := Some (j, True)\<rparr> else c | None \<Rightarrow> c)"
| "run_hook cx HookSelect v c =
     (case c_await c of
        None \<Rightarrow> c
      | Some n \<Rightarrow> c\<lparr>c_db := (if v_type v = CHR ''+'' then n else c_db c), c_await := None\<rparr>)"
| "run_hook cx HookUpID v c = (if v_type v = CHR '':'' \<and> 0 < v_int v then c\<lparr>c_upID := nat (v_int v)\<rparr> else c)"
| "run_hook cx (HookSession owner n) v c = sessionHook cx owner n v c"
| "run_hook cx (HookSlice owner n) v c = idHook cx owner n v c"
| "run_hook cx (HookInode owner n) v c =
     (if v_type v = CHR '':'' \<and> n \<le> v_int v
      then c\<lparr>c_inodes := ranges_remember \<lparr>sr_lo = nat (v_int v - n + 1), sr_hi = nat (v_int v), sr_owner = owner\<rparr> (c_inodes c)\<rparr> else c)"
| "run_hook cx (HookTrash db) v c =
     (if v_type v = CHR '':'' \<and> 0 < v_int v then c\<lparr>c_trashAlloc := Some (db, nat (v_int v))\<rparr> else c)"

definition run_onExec :: "principal \<times> (nat \<times> string) list \<Rightarrow> resp_value \<Rightarrow> pconn \<Rightarrow> pconn" where
  "run_onExec x v c =
     (if v_type v \<noteq> CHR ''*'' \<or> v_null v then c
      else c\<lparr>c_guard := fold (\<lambda>(i, f) g. if i < length (v_elems v) \<and> v_type (v_elems v ! i) = CHR '':'' \<and> v_int (v_elems v ! i) < 0
          then NoteDropped (fst x) f g else g) (snd x) (c_guard c)\<rparr>)"

subsection \<open>Relaying frames\<close>

datatype frame_err = FrameEOF | FrameWire wire_err | FrameDesync | FrameIncomplete | FrameCommandError | FrameReceipt

definition tee :: "nat \<Rightarrow> bytes \<Rightarrow> frame_err + (frame_info \<times> resp_value \<times> bytes \<times> bytes)" where
  "tee sz ur =
     (case CopyFrame sz ur of
        Inl e \<Rightarrow> Inl (FrameWire e)
      | Inr (info, b, r) \<Rightarrow>
          (case ReadValue sz b of Inl e \<Rightarrow> Inl (FrameWire e) | Inr (v, _) \<Rightarrow> Inr (info, v, b, r)))"

definition subKinds :: "string \<Rightarrow> string option" where
  "subKinds k =
     (if k = ''subscribe'' \<or> k = ''unsubscribe'' then Some ''subscribe''
      else if k = ''psubscribe'' \<or> k = ''punsubscribe'' then Some ''psubscribe''
      else if k = ''ssubscribe'' \<or> k = ''sunsubscribe'' then Some ''ssubscribe'' else None)"

definition sub_set :: "(string \<times> string list) list \<Rightarrow> string \<Rightarrow> string list" where
  "sub_set m b = (case map_of m b of Some s \<Rightarrow> s | None \<Rightarrow> [])"

text \<open>The slot a confirmation answers is the subscribe-family slot at the head of the queue.\<close>

definition push_slot :: "conn_ctx \<Rightarrow> string \<Rightarrow> nat \<Rightarrow> pconn \<Rightarrow> pconn" where
  "push_slot cx kd n c =
     (case c_q c of
        [] \<Rightarrow> c
      | h # q \<Rightarrow>
          if sl_synth h \<noteq> None \<or> sl_sub h \<noteq> kd then c
          else
            let k = (if sl_subN h < 0 then int (max n 1) else sl_subN h) - 1 in
            if k \<le> 0 then account cx (- slotCost) (c\<lparr>c_q := q, c_fwd := c_fwd c - 1\<rparr>)
            else c\<lparr>c_q := h\<lparr>sl_subN := k\<rparr> # q\<rparr>)"

definition pushFrame :: "conn_ctx \<Rightarrow> resp_value \<Rightarrow> pconn \<Rightarrow> pconn" where
  "pushFrame cx v c =
     (case v_elems v of
        [] \<Rightarrow> c
      | e # es \<Rightarrow>
          let kd = ToLower (v_str e) in
          (case subKinds kd of
             None \<Rightarrow> c
           | Some base \<Rightarrow>
               let set0 = sub_set (c_subs c) base; c1 = push_slot cx kd (length set0) c in
               (case es of
                  [] \<Rightarrow> c1
                | ch # _ \<Rightarrow>
                    if v_null ch then c1
                    else if kd = base then c1\<lparr>c_subs := AList.update base (List.insert (v_str ch) set0) (c_subs c1)\<rparr>
                    else c1\<lparr>c_subs := AList.update base (removeAll (v_str ch) set0) (c_subs c1)\<rparr>)))"

text \<open>The reply to a protected EXEC: aborted, or complete, without an error and with its receipt stored.\<close>

definition protected_exec :: "nat \<Rightarrow> resp_value \<Rightarrow> frame_err option" where
  "protected_exec n v =
     (if n = 0 \<or> (v_type v = CHR ''*'' \<or> v_type v = CHR ''_'') \<and> v_null v then None
      else if v_type v \<noteq> CHR ''*'' \<or> length (v_elems v) \<noteq> n then Some FrameIncomplete
      else if v_type (last (v_elems v)) \<noteq> CHR ''+'' \<or> v_str (last (v_elems v)) \<noteq> ''OK'' then Some FrameReceipt
      else if \<exists>x \<in> set (v_elems v). v_type x = CHR ''-'' then Some FrameCommandError
      else None)"

text \<open>What a frame becomes for its slot: the bytes for the client, and the rest of the stream.\<close>

definition slot_frame ::
    "conn_ctx \<Rightarrow> nat \<Rightarrow> slot \<Rightarrow> bytes \<Rightarrow> pconn \<Rightarrow> (frame_err + frame_info \<times> bytes \<times> bytes) \<times> pconn" where
  "slot_frame cx sz s ur c =
     (if 0 < sl_strip s \<or> sl_onExec s \<noteq> None then
        (case tee sz ur of
           Inl e \<Rightarrow> (Inl e, c)
         | Inr (info, v, b, r) \<Rightarrow>
             (case protected_exec (sl_execCount s) v of
                Some e \<Rightarrow> (Inl e, c)
              | None \<Rightarrow>
                  let c1 = (case sl_onExec s of Some x \<Rightarrow> run_onExec x v c | None \<Rightarrow> c) in
                  if 0 < sl_strip s \<and> v_type v = CHR ''*'' \<and> \<not> v_null v \<and> sl_strip s \<le> length (v_elems v) then
                    (case EncodeValue (Value (v_type v) (v_str v) (v_int v) (take (length (v_elems v) - sl_strip s) (v_elems v)) (v_null v)) of
                       Inl e \<Rightarrow> (Inl (FrameWire e), c1)
                     | Inr b' \<Rightarrow> (Inr (info, b', r), c1))
                  else (Inr (info, b, r), c1)))
      else
        (case sl_hook s of
           Some h \<Rightarrow>
             (case tee sz ur of
                Inl e \<Rightarrow> (Inl e, c)
              | Inr (info, v, b, r) \<Rightarrow> (Inr (info, b, r), run_hook cx h v c))
         | None \<Rightarrow> (case CopyFrame sz ur of Inl e \<Rightarrow> (Inl (FrameWire e), c) | Inr (info, b, r) \<Rightarrow> (Inr (info, b, r), c))))"

definition frame_outcome :: "slot \<Rightarrow> frame_info \<Rightarrow> pconn \<Rightarrow> outcome" where
  "frame_outcome s info c =
     \<lparr>Forwarded = True,
      Committed = (\<not> IsError info \<and> (sl_exec s \<longrightarrow> \<not> f_null info \<and> f_type info = CHR ''*'')),
      Lost = False, o_conn = c_id c\<rparr>"

definition frame :: "conn_ctx \<Rightarrow> nat \<Rightarrow> bytes \<Rightarrow> pconn \<Rightarrow> (frame_err + bytes) \<times> pconn" where
  "frame cx sz ur c =
     (if ur = [] then (Inl FrameEOF, c)
      else if c_rawmode c then
        (case CopyFrame sz ur of Inl e \<Rightarrow> (Inl (FrameWire e), c) | Inr (info, b, r) \<Rightarrow> (Inr r, c\<lparr>c_cw := c_cw c @ b\<rparr>))
      else if hd ur = CHR ''>'' then
        (case tee sz ur of
           Inl e \<Rightarrow> (Inl e, c)
         | Inr (info, v, b, r) \<Rightarrow> let c1 = pushFrame cx v c in (Inr r, c1\<lparr>c_cw := c_cw c1 @ b\<rparr>))
      else
        (case c_q c of
           [] \<Rightarrow> (Inl FrameDesync, c)
         | s # q \<Rightarrow>
             if sl_synth s \<noteq> None then (Inl FrameDesync, c)
             else
               let c1 = account cx (- slotCost) (c\<lparr>c_q := q, c_fwd := c_fwd c - 1, c_rawmode := c_rawmode c \<or> sl_toRaw s\<rparr>) in
               (case slot_frame cx sz s ur c1 of
                  (Inl e, c2) \<Rightarrow> (Inl e, if e = FrameWire PanicMakeslice then c2 else run_done cx (lost c2) (sl_done s) c2)
                | (Inr (info, b, r), c2) \<Rightarrow>
                    let c3 = (if sl_drop s then c2 else c2\<lparr>c_cw := c_cw c2 @ b\<rparr>) in
                    (Inr r, run_done cx (frame_outcome s info c3) (sl_done s) c3))))"

text \<open>The proxy-made replies at the head of the queue.\<close>

fun leading_synths :: "slot list \<Rightarrow> bytes list" where
  "leading_synths [] = []"
| "leading_synths (s # q) = (case sl_synth s of Some b \<Rightarrow> b # leading_synths q | None \<Rightarrow> [])"

definition write_synth1 :: "conn_ctx \<Rightarrow> bytes \<Rightarrow> pconn \<Rightarrow> pconn" where
  "write_synth1 cx b c =
     (let c1 = account cx (- (slotCost + int (length b))) (c\<lparr>c_q := tl (c_q c)\<rparr>) in c1\<lparr>c_cw := c_cw c1 @ b\<rparr>)"

definition writeSynth :: "conn_ctx \<Rightarrow> pconn \<Rightarrow> pconn" where
  "writeSynth cx c = fold (write_synth1 cx) (leading_synths (c_q c)) c"

text \<open>One turn of \<^verbatim>\<open>replyLoop\<close>.\<close>

definition reply_turn :: "conn_ctx \<Rightarrow> nat \<Rightarrow> bytes \<Rightarrow> pconn \<Rightarrow> (frame_err + bytes) \<times> pconn" where
  "reply_turn cx sz ur c =
     (case frame cx sz ur c of
        (Inl e, c1) \<Rightarrow> (Inl e, c1)
      | (Inr r, c1) \<Rightarrow> (Inr r, writeSynth cx c1))"

subsection \<open>Units\<close>

definition upstreamName :: "pconn \<Rightarrow> string" where
  "upstreamName c = UpstreamName (case c_principal c of Some p \<Rightarrow> p_name p | None \<Rightarrow> []) (c_id c)"

text \<open>\<^verbatim>\<open>confirmWatch\<close>: \<open>y_ack\<close> is whether the reply to the last WATCH arrives while it waits.\<close>

definition confirmWatch :: "conn_ctx \<Rightarrow> pconn \<Rightarrow> string option" where
  "confirmWatch cx c =
     (case c_watchAck c of
        None \<Rightarrow> Some ''no WATCH on this connection''
      | Some (j, acked) \<Rightarrow>
          if \<not> flushUpstream cx c then Some ''respproxy: closing connection''
          else if acked \<or> y_ack cx then None else Some ''WATCH reply timed out'')"

definition newUnit :: "conn_ctx \<Rightarrow> unit_kind \<Rightarrow> cmd list \<Rightarrow> pconn \<Rightarrow> punit" where
  "newUnit cx kd cmds c =
     \<lparr>u_kind = kd, u_db = c_db c, u_cmds = cmds, u_watched = [], u_writes = [], u_project = [], u_refInodes = [],
      u_trashAlloc = 0, u_rewrite = None, u_mode = y_mode cx\<rparr>"

text \<open>The closures and names \<^verbatim>\<open>newUnit\<close> gives a unit, as the guard and the policy see them.\<close>

definition before_side :: "conn_ctx \<Rightarrow> punit \<Rightarrow> pconn \<Rightarrow> string option option" where
  "before_side cx u c = (if u_kind u = UnitTxn then Some (confirmWatch cx c) else None)"

definition unit_reads :: "conn_ctx \<Rightarrow> punit \<Rightarrow> pconn \<Rightarrow> reads" where
  "unit_reads cx u c = (y_reads cx)\<lparr>r_beforeSide := before_side cx u c, r_upstreamID := c_upID c\<rparr>"

definition unit_env_of :: "conn_ctx \<Rightarrow> principal \<Rightarrow> punit \<Rightarrow> pconn \<Rightarrow> unit_env" where
  "unit_env_of cx p u c =
     (let pe = (if p_kind p = KindMac then y_person cx (p_name p) else None) in
      \<lparr>v_person = pe, v_unassigned = (p_kind p = KindMac \<and> pe = None \<and> y_inForce cx),
       v_inodeOwner = Some (y_inodeOwner cx), v_inodeMark = Some (y_inodeMark cx),
       v_beforeSide = before_side cx u c, v_connID = c_id c, v_upstreamName = upstreamName c\<rparr>)"

subsection \<open>The decision on a unit\<close>

record decision =
  dn_deny :: "denial option"
  dn_ticket :: "ticket option"
  dn_effects :: "guard_effect list"
  dn_unit :: punit
  dn_receipt :: "bytes list option"

definition refused :: "denial \<Rightarrow> punit \<Rightarrow> decision" where
  "refused d u = \<lparr>dn_deny = Some d, dn_ticket = None, dn_effects = [], dn_unit = u, dn_receipt = None\<rparr>"

text \<open>The policy: the lease engine, or \<^verbatim>\<open>AllowProjectWrites\<close>.\<close>

definition policy_decide ::
    "conn_ctx \<Rightarrow> principal \<Rightarrow> punit \<Rightarrow> pconn \<Rightarrow> denial option \<times> ticket option \<times> pconn" where
  "policy_decide cx p u c =
     (if u_project u \<noteq> [] \<and> y_leaseEngine cx then
        (case Decide (y_decide cx) p u (unit_env_of cx p u c) (c_engine c) of
           (tk, e) \<Rightarrow> (tk_deny tk, Some tk, c\<lparr>c_engine := e\<rparr>))
      else (None, None, c))"

definition relaxed :: "mode \<Rightarrow> denial option \<Rightarrow> denial option" where
  "relaxed md d =
     (case d of
        None \<Rightarrow> None
      | Some x \<Rightarrow> if (md = ModeObserve \<or> md = ModePassthrough) \<and> \<not> enforcedInEveryMode (d_reason x) then None else Some x)"

definition scope_denial :: "conn_ctx \<Rightarrow> principal \<Rightarrow> punit \<Rightarrow> pconn \<Rightarrow> denial option \<times> pconn" where
  "scope_denial cx p u c =
     (if y_leaseEngine cx \<and> y_inForce cx then
        (case quotaScopeDenial (x_side (y_decide cx)) p u (e_anc (c_engine c)) of
           (d, a) \<Rightarrow> (d, c\<lparr>c_engine := (c_engine c)\<lparr>e_anc := a\<rparr>\<rparr>))
      else (None, c))"

definition conn_decide :: "conn_ctx \<Rightarrow> principal \<Rightarrow> punit \<Rightarrow> pconn \<Rightarrow> decision option \<times> pconn" where
  "conn_decide cx p u c =
     (if y_fenced cx then (Some (refused (refuse ReasonProxyFenced ''singleton lease not renewed within its TTL'') u), c)
      else
        (case Check (unit_reads cx u c) p u (c_guard c) of
           (Panicked, u1, g1) \<Rightarrow> (None, c\<lparr>c_guard := g1\<rparr>)
         | (Refused d, u1, g1) \<Rightarrow> (Some (refused d u1), c\<lparr>c_guard := g1\<rparr>)
         | (Passed es, u1, g1) \<Rightarrow>
             let c1 = c\<lparr>c_guard := g1\<rparr> in
             (case accountingValueDenial p u1 of
                Some d \<Rightarrow> (Some (refused d u1), c1)
              | None \<Rightarrow>
                  (case scope_denial cx p u1 c1 of
                     (Some d, c2) \<Rightarrow> (Some (refused d u1), c2)
                   | (None, c2) \<Rightarrow>
                       (case policy_decide cx p u1 c2 of
                          (d3, tk, c3) \<Rightarrow>
                            (case relaxed (u_mode u1) d3 of
                               Some d \<Rightarrow> (Some \<lparr>dn_deny = Some d, dn_ticket = tk, dn_effects = es, dn_unit = u1, dn_receipt = None\<rparr>, c3)
                             | None \<Rightarrow>
                                 (case y_replace cx u1 of
                                    (d5, rc) \<Rightarrow>
                                      (Some \<lparr>dn_deny = d5, dn_ticket = tk, dn_effects = es, dn_unit = u1,
                                         dn_receipt = (if u_kind u1 = UnitTxn then rc else None)\<rparr>, c3))))))))"

text \<open>The audit log may still refuse; its refusal replaces an admission.\<close>

definition audited :: "conn_ctx \<Rightarrow> decision \<Rightarrow> denial option" where
  "audited cx dn = (case dn_deny dn of Some d \<Rightarrow> Some d | None \<Rightarrow> y_audit cx (dn_unit dn))"

definition unit_done :: "principal \<Rightarrow> decision \<Rightarrow> (principal \<times> punit \<times> ticket) option" where
  "unit_done p dn = map_option (\<lambda>tk. (p, dn_unit dn, tk)) (dn_ticket dn)"

text \<open>Ends the unit of a decision that is not carried out.\<close>

definition abandon :: "conn_ctx \<Rightarrow> principal \<Rightarrow> decision \<Rightarrow> pconn \<Rightarrow> pconn" where
  "abandon cx p dn c =
     (case unit_done p dn of
        None \<Rightarrow> c
      | Some x \<Rightarrow> run_done cx (not_sent c) (Some \<lparr>ud_effects = [], ud_done = Some x\<rparr>) c)"

definition note_unit :: "punit \<Rightarrow> denial option \<Rightarrow> bytes list list \<Rightarrow> pconn \<Rightarrow> pconn" where
  "note_unit u d sent c = c\<lparr>c_units := c_units c @ [\<lparr>h_unit = u, h_denial = d, h_sent = sent\<rparr>]\<rparr>"

subsection \<open>A command outside MULTI\<close>

text \<open>What is forwarded for an admitted command, and the hook of its slot.\<close>

definition alloc_args :: "conn_ctx \<Rightarrow> principal \<Rightarrow> punit \<Rightarrow> bytes list \<Rightarrow> bytes list" where
  "alloc_args cx p u args =
     (case Allocation u of
        (counter, n) \<Rightarrow>
          if counter = ''nextinode'' then
            [''EVAL'', y_inodeScript cx, ''3'', args ! 1, ''jmlease:v1:inodes'', ''jmlease:v1:inodes:mark'', FormatInt n, p_name p]
          else args)"

definition alloc_hook :: "principal \<Rightarrow> punit \<Rightarrow> pconn \<Rightarrow> hook option" where
  "alloc_hook p u c =
     (case Allocation u of
        (counter, n) \<Rightarrow>
          if counter = ''nextsession'' then Some (HookSession (p_name p) n)
          else if counter = ''nextchunk'' then Some (HookSlice (p_name p) n)
          else if counter = ''nextinode'' then Some (HookInode (p_name p) n)
          else if counter = ''nextTrash'' then Some (HookTrash (c_db c))
          else None)"

definition gateBare :: "conn_ctx \<Rightarrow> principal \<Rightarrow> bytes list \<Rightarrow> command \<Rightarrow> pconn \<Rightarrow> cres \<times> pconn" where
  "gateBare cx p args info c =
     (let u = newUnit cx UnitBare [\<lparr>cmd_args = args, cmd_info = info\<rparr>] c in
      case conn_decide cx p u c of
        (None, c1) \<Rightarrow> (CPanic, c1)
      | (Some dn, c1) \<Rightarrow>
          (case audited cx dn of
             Some d \<Rightarrow> (COk, reply cx (Reply d) (note_unit (dn_unit dn) (Some d) [] (abandon cx p dn c1)))
           | None \<Rightarrow>
               let s = plain_slot\<lparr>sl_done := commitOnSuccess (dn_effects dn) (unit_done p dn), sl_hook := alloc_hook p (dn_unit dn) c1\<rparr>;
                   args1 = (case u_rewrite (dn_unit dn) of Some rw \<Rightarrow> rw | None \<Rightarrow> alloc_args cx p (dn_unit dn) args)
               in forward cx args1 s (note_unit (dn_unit dn) None [args1] c1)))"

subsection \<open>A transaction\<close>

text \<open>The commands the proxy adds before EXEC: the used bits of newly linked slices, and the receipt.\<close>

definition used_bit_args :: "nat \<Rightarrow> bytes list" where
  "used_bit_args i = [''SETBIT'', UsedBitKey i, FormatUint (UsedBitOffset i), ''1'']"

definition used_ids :: "guard_effect list \<Rightarrow> nat list" where
  "used_ids es = concat (map ge_sliceUsed es)"

fun forward_hidden :: "conn_ctx \<Rightarrow> bytes list list \<Rightarrow> pconn \<Rightarrow> cres \<times> pconn" where
  "forward_hidden cx [] c = (COk, c)"
| "forward_hidden cx (a # as) c = cthen (forward cx a drop_slot c) (forward_hidden cx as)"

definition slice_decs :: "cmd list \<Rightarrow> (nat \<times> string) list" where
  "slice_decs cmds = List.map_filter (\<lambda>(i, cm).
     if cmd_name cm = ''HINCRBY'' \<and> length (cmd_args cm) = 4 \<and> cmd_args cm ! 1 = ''sliceRef'' \<and>
        (case RedisInt (cmd_args cm ! 3) of Some n \<Rightarrow> n < 0 | None \<Rightarrow> False)
     then Some (i, cmd_args cm ! 2) else None) (enumerate 0 cmds)"

definition exec_slot :: "principal \<Rightarrow> decision \<Rightarrow> slot" where
  "exec_slot p dn =
     (let u = dn_unit dn; extra = length (used_ids (dn_effects dn)) + (if dn_receipt dn = None then 0 else 1);
          decs = slice_decs (u_cmds u) in
      plain_slot\<lparr>sl_exec := True, sl_strip := extra,
        sl_execCount := (if dn_receipt dn = None then 0 else length (u_cmds u) + extra),
        sl_onExec := (if decs \<noteq> [] \<and> p_kind p \<noteq> KindBG \<and> p_kind p \<noteq> KindAdmin then Some (p, decs) else None),
        sl_done := commitOnSuccess (dn_effects dn) (unit_done p dn)\<rparr>)"

definition exec_send :: "conn_ctx \<Rightarrow> principal \<Rightarrow> decision \<Rightarrow> pconn \<Rightarrow> cres \<times> pconn" where
  "exec_send cx p dn c =
     cthen (forward_hidden cx (map used_bit_args (used_ids (dn_effects dn))) c) (\<lambda>c1.
       case dn_receipt dn of
         None \<Rightarrow> forward cx [''EXEC''] (exec_slot p dn) c1
       | Some rc \<Rightarrow>
           (case forward cx rc drop_slot c1 of
              (COk, c2) \<Rightarrow> forward cx [''EXEC''] (exec_slot p dn) c2
            | (r, c2) \<Rightarrow> (r, run_done cx (lost c2) (Some \<lparr>ud_effects = [], ud_done = unit_done p dn\<rparr>) c2)))"

definition exec_unit :: "conn_ctx \<Rightarrow> txn_state \<Rightarrow> pconn \<Rightarrow> punit" where
  "exec_unit cx t c =
     (newUnit cx UnitTxn (tx_cmds t) c)\<lparr>u_watched := c_watched c,
        u_trashAlloc := (case c_trashAlloc c of Some (db, n) \<Rightarrow> if db = c_db c then n else 0 | None \<Rightarrow> 0)\<rparr>"

definition exec_decide :: "conn_ctx \<Rightarrow> principal \<Rightarrow> txn_state \<Rightarrow> punit \<Rightarrow> pconn \<Rightarrow> decision option \<times> pconn" where
  "exec_decide cx p t u c =
     (if tx_poison t \<noteq> [] then (Some (refused (refuse ReasonUnknownKey (tx_poison t)) u), c) else conn_decide cx p u c)"

definition exec :: "conn_ctx \<Rightarrow> principal \<Rightarrow> txn_state \<Rightarrow> pconn \<Rightarrow> cres \<times> pconn" where
  "exec cx p t c =
     (let u = exec_unit cx t c; c0 = c\<lparr>c_txn := None, c_watched := [], c_trashAlloc := None\<rparr> in
      case exec_decide cx p t u c0 of
        (None, c1) \<Rightarrow> (CPanic, c1)
      | (Some dn, c1) \<Rightarrow>
          (case audited cx dn of
             Some d \<Rightarrow>
               cthen (forward cx [''DISCARD''] drop_slot (note_unit (dn_unit dn) (Some d) [] (abandon cx p dn c1)))
                 (\<lambda>c2. (COk, reply cx (Reply d) c2))
           | None \<Rightarrow>
               exec_send cx p dn (note_unit (dn_unit dn) None
                 (map cmd_args (tx_cmds t) @ map used_bit_args (used_ids (dn_effects dn)) @
                  (case dn_receipt dn of Some rc \<Rightarrow> [rc] | None \<Rightarrow> [])) c1)))"

definition queued_cmd :: "bytes list \<Rightarrow> command \<Rightarrow> txn_state \<Rightarrow> txn_state" where
  "queued_cmd args info t = t\<lparr>tx_cmds := tx_cmds t @ [\<lparr>cmd_args = args, cmd_info = info\<rparr>]\<rparr>"

definition not_in_multi :: "command \<Rightarrow> bool" where
  "not_in_multi info \<longleftrightarrow> c_name info \<in> {''AUTH'', ''HELLO'', ''SELECT'', ''CLIENT'', ''QUIT''} \<or>
     c_class info \<in> {ClassLocal, ClassPubSub, ClassForbidden}"

definition inTxn :: "conn_ctx \<Rightarrow> principal \<Rightarrow> txn_state \<Rightarrow> bytes list \<Rightarrow> command \<Rightarrow> pconn \<Rightarrow> cres \<times> pconn" where
  "inTxn cx p t args info c =
     (let name = c_name info in
      if name = ''EXEC'' then exec cx p t c
      else if name = ''DISCARD'' then forward cx args plain_slot (c\<lparr>c_txn := None, c_watched := []\<rparr>)
      else if name = ''MULTI'' \<or> name = ''WATCH'' then forward cx args plain_slot c
      else if not_in_multi info then
        (COk, reply cx (errReply (''ERR proxy: '' @ name @ '' is not allowed inside MULTI''))
           (c\<lparr>c_txn := Some (if tx_poison t = [] then t\<lparr>tx_poison := name @ '' inside MULTI''\<rparr> else t)\<rparr>))
      else forward cx args plain_slot (c\<lparr>c_txn := Some (queued_cmd args info t)\<rparr>))"

subsection \<open>Login\<close>

definition wrongPass :: string where "wrongPass = ''WRONGPASS invalid username-password pair or user is disabled.''"

definition authenticate :: "conn_ctx \<Rightarrow> string \<Rightarrow> string \<Rightarrow> pconn \<Rightarrow> bool \<times> pconn" where
  "authenticate cx user pass c =
     (case y_auth cx user pass of
        Some p \<Rightarrow> (True, c\<lparr>c_principal := Some p\<rparr>)
      | None \<Rightarrow> (False, reply cx (errReply wrongPass) c))"

definition ensureUpstream :: "conn_ctx \<Rightarrow> pconn \<Rightarrow> bool \<times> pconn" where
  "ensureUpstream cx c =
     (if c_up c then (True, c)
      else if c_revoked c \<or> \<not> y_dial cx then (False, c\<lparr>c_cw := c_cw c @ ''-ERR proxy: metadata server unavailable'' @ CRLF\<rparr>)
      else
        (case forward cx [''CLIENT'', ''ID''] (drop_slot\<lparr>sl_hook := Some HookUpID\<rparr>) (c\<lparr>c_up := True\<rparr>) of
           (r, c1) \<Rightarrow> (r = COk, c1)))"

definition auth :: "conn_ctx \<Rightarrow> bytes list \<Rightarrow> pconn \<Rightarrow> bool \<times> pconn" where
  "auth cx args c =
     (if length args \<noteq> 2 \<and> length args \<noteq> 3 then
        (True, reply cx (errReply (''ERR wrong number of arguments for '' @ [CHR 0x27] @ ''auth'' @ [CHR 0x27] @ '' command'')) c)
      else
        (case (if length args = 2 then authenticate cx ''default'' (args ! 1) c else authenticate cx (args ! 1) (args ! 2) c) of
           (False, c1) \<Rightarrow> (True, c1)
         | (True, c1) \<Rightarrow>
             (case ensureUpstream cx c1 of
                (False, c2) \<Rightarrow> (False, c2)
              | (True, c2) \<Rightarrow>
                  (case forward cx [''CLIENT'', ''SETNAME'', upstreamName c2] drop_slot c2 of
                     (COk, c3) \<Rightarrow> (True, reply cx (''+OK'' @ CRLF) c3)
                   | (r, c3) \<Rightarrow> (False, c3)))))"

fun hello_options :: "bytes list \<Rightarrow> (string \<times> string) option \<Rightarrow> string + (string \<times> string) option" where
  "hello_options [] cred = Inr cred"
| "hello_options (a # as) cred =
     (if ToUpper a = ''AUTH'' then
        (case as of
           user # pass # rest \<Rightarrow> hello_options rest (Some (user, pass))
         | _ \<Rightarrow> Inl (''ERR Syntax error in HELLO option '' @ [CHR 0x27] @ ''auth'' @ [CHR 0x27]))
      else if ToUpper a = ''SETNAME'' then
        (case as of
           nm # rest \<Rightarrow> hello_options rest cred
         | [] \<Rightarrow> Inl (''ERR Syntax error in HELLO option '' @ [CHR 0x27] @ ''setname'' @ [CHR 0x27]))
      else Inl ''ERR Syntax error in HELLO option'')"

definition hello_send :: "conn_ctx \<Rightarrow> bytes list \<Rightarrow> pconn \<Rightarrow> bool \<times> pconn" where
  "hello_send cx args c =
     (case ensureUpstream cx c of
        (False, c1) \<Rightarrow> (False, c1)
      | (True, c1) \<Rightarrow>
          if length args \<le> 1 then (case forward cx [''HELLO''] plain_slot c1 of (r, c2) \<Rightarrow> (r = COk, c2))
          else
            (case forward cx [''HELLO'', args ! 1, ''SETNAME'', upstreamName c1] plain_slot (c1\<lparr>c_resp3 := (args ! 1 = ''3'')\<rparr>) of
               (r, c2) \<Rightarrow> (r = COk, c2)))"

definition hello :: "conn_ctx \<Rightarrow> bytes list \<Rightarrow> pconn \<Rightarrow> bool \<times> pconn" where
  "hello cx args c =
     (if 1 < length args \<and> args ! 1 \<noteq> ''2'' \<and> args ! 1 \<noteq> ''3'' then (True, reply cx (errReply ''NOPROTO unsupported protocol version'') c)
      else
        (case hello_options (drop 2 args) None of
           Inl msg \<Rightarrow> (True, reply cx (errReply msg) c)
         | Inr (Some (user, pass)) \<Rightarrow>
             (case authenticate cx user pass c of
                (False, c1) \<Rightarrow> (True, c1)
              | (True, c1) \<Rightarrow> hello_send cx args c1)
         | Inr None \<Rightarrow>
             if c_principal c = None then (True, reply cx (Reply (refuse ReasonAuthRequired [])) c)
             else hello_send cx args c))"

text \<open>One command before the login: \<^const>\<open>False\<close> closes the connection, \<^const>\<open>None\<close> is the panic of \<^const>\<open>Classify\<close>.\<close>

definition preAuth_step :: "conn_ctx \<Rightarrow> bytes list \<Rightarrow> pconn \<Rightarrow> bool option \<times> pconn" where
  "preAuth_step cx args c =
     (if args = [] then (Some True, c)
      else case Classify args of
        None \<Rightarrow> (None, c)
      | Some info \<Rightarrow>
          let name = c_name info in
          if name = ''AUTH'' then apfst Some (auth cx args c)
          else if name = ''HELLO'' then apfst Some (hello cx args c)
          else if name = ''QUIT'' then (Some False, reply cx (''+OK'' @ CRLF) c)
          else (Some True, reply cx (Reply (refuse ReasonAuthRequired [])) c))"

subsection \<open>Commands\<close>

definition dbAllowed :: "conn_ctx \<Rightarrow> int \<Rightarrow> bool" where "dbAllowed cx n \<longleftrightarrow> n \<in> set (y_allowedDBs cx)"

text \<open>\<^verbatim>\<open>selectDB\<close> waits for the reply: \<open>c_await\<close> holds the database until the hook of its slot has run.\<close>

definition select_arg :: "bytes list \<Rightarrow> int option" where
  "select_arg args =
     (if length args = 2 then (case ParseInt (args ! 1) of (v, None) \<Rightarrow> if 0 \<le> v then Some v else None | (v, Some e) \<Rightarrow> None) else None)"

definition selectDB :: "conn_ctx \<Rightarrow> principal \<Rightarrow> bytes list \<Rightarrow> pconn \<Rightarrow> cres \<times> pconn" where
  "selectDB cx p args c =
     (case select_arg args of
        None \<Rightarrow> forward cx args plain_slot c
      | Some n \<Rightarrow>
          if p_kind p \<noteq> KindAdmin \<and> \<not> dbAllowed cx n then
            (COk, reply cx (Reply (refuse ReasonAdminOnly (''SELECT '' @ FormatInt n @ '': not a configured DB''))) c)
          else
            cthen (forward cx args (hook_slot HookSelect) c) (\<lambda>c1.
              if flushUpstream cx c1 then (COk, c1\<lparr>c_await := Some n\<rparr>) else (CClose, c1)))"

definition subscribe :: "conn_ctx \<Rightarrow> bytes list \<Rightarrow> string \<Rightarrow> pconn \<Rightarrow> cres \<times> pconn" where
  "subscribe cx args name c =
     (if name = ''PUBSUB'' then forward cx args plain_slot c
      else if c_resp3 c then
        let kd = ToLower name; n = int (length args) - 1 in
        forward cx args (plain_slot\<lparr>sl_sub := kd, sl_subN := (if n = 0 \<and> Contains kd ''unsubscribe'' then - 1 else n)\<rparr>) c
      else forward cx args (plain_slot\<lparr>sl_toRaw := True\<rparr>) (c\<lparr>c_subscribed := True\<rparr>))"

text \<open>\<^verbatim>\<open>JM.*\<close>: \<open>y_special\<close> is the reply of the replacement subcommands, which are not modelled.\<close>

definition lease_sub :: "bytes list \<Rightarrow> string \<Rightarrow> bool" where
  "lease_sub args sub \<longleftrightarrow> 2 \<le> length args \<and> fold_ascii (args ! 0) = ''JM.LEASE'' \<and> fold_ascii (args ! 1) = sub"

definition special_gate :: "conn_ctx \<Rightarrow> bytes list \<Rightarrow> pconn \<Rightarrow> bytes" where
  "special_gate cx args c = (if flushUpstream cx c then y_special cx args else errFrame ''upstream unavailable'')"

definition local_cmd :: "conn_ctx \<Rightarrow> principal \<Rightarrow> bytes list \<Rightarrow> pconn \<Rightarrow> pconn" where
  "local_cmd cx p args c =
     (let enforcing = (y_leaseEngine cx \<and> y_mode cx = ModeEnforce \<and> y_singleton cx) in
      if y_fenced cx then reply cx (Reply (refuse ReasonProxyFenced ''singleton ownership proof lost'')) c
      else if lease_sub args ''REPLACEMENT_CAPABILITIES'' then
        reply cx (if length args \<noteq> 2 then errFrame ''REPLACEMENT_CAPABILITIES takes no arguments'' else special_gate cx args c) c
      else if lease_sub args ''CHECK_REPLACE'' then
        reply cx (if \<not> enforcing \<or> length args \<noteq> 5
          then errFrame ''CHECK_REPLACE requires enforcing singleton lease service and project/accepted/current epochs''
          else special_gate cx args c) c
      else if lease_sub args ''ARM_REPLACE'' then
        reply cx (if \<not> enforcing \<or> length args \<noteq> 3 \<and> length args \<noteq> 4
          then errFrame ''ARM_REPLACE requires enforcing singleton lease service, one record and optional exact prior record''
          else if \<not> flushUpstream cx c then errFrame ''upstream unavailable''
          else if length args = 4 \<and> args ! 3 = [] then errFrame ''expected replacement record must be nonempty''
          else y_special cx args) c
      else if y_leaseEngine cx then
        (case HandleLocal (y_local cx) p args (c_engine c) of
           (Some b, e) \<Rightarrow> reply cx b (c\<lparr>c_engine := e\<rparr>)
         | (None, e) \<Rightarrow> c\<lparr>c_engine := e\<rparr>)
      else reply cx (errReply (''ERR unknown command '' @ [CHR 0x27] @ sanitizeToken (args ! 0) @ [CHR 0x27] @ '' (no lease service in this proxy)'')) c)"

definition roArgs :: "bytes list \<Rightarrow> bytes list" where
  "roArgs args =
     (if ToUpper (args ! 0) = ''EVAL'' then args[0 := ''EVAL_RO'']
      else if ToUpper (args ! 0) = ''EVALSHA'' then args[0 := ''EVALSHA_RO''] else args)"

definition watch_cmd :: "conn_ctx \<Rightarrow> bytes list \<Rightarrow> pconn \<Rightarrow> cres \<times> pconn" where
  "watch_cmd cx args c =
     (let k = c_watchNo c + 1 in
      forward cx args (hook_slot (HookWatch k))
        (c\<lparr>c_watched := c_watched c @ take (8192 - length (c_watched c)) (drop 1 args), c_watchNo := k, c_watchAck := Some (k, False)\<rparr>))"

definition class_cmd :: "conn_ctx \<Rightarrow> principal \<Rightarrow> bytes list \<Rightarrow> command \<Rightarrow> pconn \<Rightarrow> cres \<times> pconn" where
  "class_cmd cx p args info c =
     (if c_class info = ClassForbidden then
        (COk, reply cx (Reply (refuse ReasonAdminOnly (c_name info @ '' breaks the proxy'' @ [CHR 0x27] @ ''s reply stream''))) c)
      else if c_class info = ClassLocal then (COk, local_cmd cx p args c)
      else if c_class info = ClassPubSub then subscribe cx args (c_name info) c
      else if \<not> needsGate info then forward cx args plain_slot c
      else gateBare cx p args info c)"

definition bare_cmd :: "conn_ctx \<Rightarrow> principal \<Rightarrow> bytes list \<Rightarrow> command \<Rightarrow> pconn \<Rightarrow> cres \<times> pconn" where
  "bare_cmd cx p args info c =
     (let name = c_name info in
      if name = ''AUTH'' then (COk, snd (auth cx args c))
      else if name = ''HELLO'' then (COk, snd (hello cx args c))
      else if name = ''QUIT'' then forward cx args plain_slot c
      else if name = ''SELECT'' then selectDB cx p args c
      else if name = ''MULTI'' then forward cx args plain_slot (c\<lparr>c_txn := Some \<lparr>tx_cmds = [], tx_poison = []\<rparr>\<rparr>)
      else if name = ''EXEC'' \<or> name = ''DISCARD'' \<or> name = ''UNWATCH'' then forward cx args plain_slot (c\<lparr>c_watched := []\<rparr>)
      else if name = ''WATCH'' then watch_cmd cx args c
      else if name = ''CLIENT'' \<and> 3 \<le> length args \<and> fold_ascii (args ! 1) = ''SETNAME'' then
        forward cx [''CLIENT'', ''SETNAME'', upstreamName c] plain_slot c
      else class_cmd cx p args info c)"

definition pubsub_names :: "string set" where
  "pubsub_names = {''SUBSCRIBE'', ''PSUBSCRIBE'', ''SSUBSCRIBE'', ''UNSUBSCRIBE'', ''PUNSUBSCRIBE'', ''SUNSUBSCRIBE'', ''PING'', ''QUIT''}"

definition dispatch :: "conn_ctx \<Rightarrow> bytes list \<Rightarrow> command \<Rightarrow> pconn \<Rightarrow> cres \<times> pconn" where
  "dispatch cx args info c =
     (if c_subscribed c then (if c_name info \<in> pubsub_names then writeNoSlot cx args c else (CClose, c))
      else case c_principal c of
        None \<Rightarrow> (CPanic, c)
      | Some p \<Rightarrow> (case c_txn c of Some t \<Rightarrow> inTxn cx p t args info c | None \<Rightarrow> bare_cmd cx p args info c))"

definition conn_command :: "conn_ctx \<Rightarrow> bytes list \<Rightarrow> pconn \<Rightarrow> cres \<times> pconn" where
  "conn_command cx args c =
     (if c_revoked c then (CClose, c)
      else case Classify args of
        None \<Rightarrow> (CPanic, c)
      | Some info \<Rightarrow> dispatch cx (if c_script info \<noteq> [] then roArgs args else args) info c)"

text \<open>One turn of \<^verbatim>\<open>commandLoop\<close>.\<close>

definition command_turn :: "conn_ctx \<Rightarrow> bytes list \<Rightarrow> pconn \<Rightarrow> cres \<times> pconn" where
  "command_turn cx args c =
     (if args = [] then (COk, c)
      else if c_revoked c then (CClose, c)
      else cthen (conn_command cx args c) (\<lambda>c1.
        if c_overflow c1 then (COverflow, c1)
        else if y_idle cx \<and> \<not> flushUpstream cx c1 then (CClose, c1) else (COk, c1)))"

text \<open>The units still waiting when a connection ends are lost.\<close>

definition conn_end :: "conn_ctx \<Rightarrow> pconn \<Rightarrow> pconn" where
  "conn_end cx c = fold (\<lambda>s c. run_done cx (lost c) (sl_done s) c) (c_q c) (c\<lparr>c_q := []\<rparr>)"

end
