(* ===== verification/Guard_Samples.thy ===== *)
theory Guard_Samples
  imports Guard_Gates Classify_Props
begin

section \<open>Bare units of one write\<close>

text \<open>
  How \<^const>\<open>Check\<close> runs on a unit of one bare write outside the trash, the chunk lists and the deletion
  records: every phase before the key-class gate lets it through.  Sample principals, commands and
  answers of the stores, on which the properties of the guard are evaluated.
\<close>

text \<open>A command as the proxy queues it: a write is classified from its own arguments (a pinned script, which is
  a read, from the arguments before they became the read-only form).\<close>

definition classified :: "cmd \<Rightarrow> bool" where
  "classified c \<longleftrightarrow> (c_class (cmd_info c) = ClassWrite \<longrightarrow> Classify (cmd_args c) = Some (cmd_info c))"

definition write_cmd :: "bytes list \<Rightarrow> key_ref \<Rightarrow> cmd" where
  "write_cmd args k =
     \<lparr>cmd_args = args, cmd_info = (mk_command (args ! 0) ClassWrite)\<lparr>c_keys := [k], c_raw := [args ! 1]\<rparr>\<rparr>"

definition bare_unit :: "cmd \<Rightarrow> punit" where
  "bare_unit c = \<lparr>u_kind = UnitBare, u_db = 1, u_cmds = [c], u_watched = [], u_writes = [], u_project = [],
     u_refInodes = [], u_trashAlloc = 0, u_rewrite = None, u_mode = ModeEnforce\<rparr>"

definition sample_reads :: reads where
  "sample_reads = \<lparr>r_now = 0, r_sessOwner = (\<lambda>sid. Inr (if sid = 7 then Some ''ann'' else None)),
     r_sliceOwner = (\<lambda>_. Inr None), r_sliceUsed = (\<lambda>_. Inr False), r_chunks = None, r_counter = None,
     r_side = None, r_beforeSide = None, r_upstreamID = 0, r_order = id\<rparr>"

definition ann :: principal where
  "ann = \<lparr>p_name = ''ann'', p_kind = KindMac, p_host = ''mac''\<rparr>"

definition gateway :: principal where
  "gateway = \<lparr>p_name = ''dav'', p_kind = KindWebDAV, p_host = ''mac''\<rparr>"

definition set_presence :: cmd where
  "set_presence = write_cmd [''SET'', ''jum:presence:mac'', ''1''] (ParseKey ''jum:presence:mac'')"

definition set_inode :: cmd where
  "set_inode = write_cmd [''SET'', ''i5'', ''x''] (ParseKey ''i5'')"

definition next_inode :: cmd where
  "next_inode = write_cmd [''INCRBY'', ''nextinode'', ''1024''] (ParseKey ''nextinode'')"

definition drop_session :: cmd where
  "drop_session = write_cmd [''ZREM'', ''allSessions'', ''7''] (ParseKey ''allSessions'')"

lemma classified_write_cmd:
  assumes "map_of commands name = Some (ClassWrite, k1)" and "name \<notin> {''CONFIG'', ''SCRIPT'', ''CLIENT''}"
    and "ToUpper name = name" and "\<not> HasPrefix name ''JM.''"
  shows "classified (write_cmd (name # r # rest) (ParseKey r))"
  using assms
  by (simp add: classified_def write_cmd_def Classify_def classifySub_def mk_command_def k1_def
      key_args.simps [of _ "Suc 0"] key_args.simps [of _ "Suc (Suc 0)"])

lemma Check_bare_write:
  assumes "c = write_cmd args k" and "args ! 0 \<noteq> ''COPY''" and "integerArgsOK c" and "\<not> k_trash k"
    and "p_kind p \<notin> {KindAdmin, KindBG}" and "k_shape k \<noteq> ShapeChunk"
    and "global_shape k \<noteq> ''sliceRef''" and "global_shape k \<noteq> ''delfiles''"
  shows "Check R p (bare_unit c) g =
    (let w = \<lparr>w_cmd = 0, w_key = k, w_raw = args ! 1, w_class = baseClass k (args ! 0)\<rparr> in
     key_gate R p [w] [] ((bare_unit c)\<lparr>u_writes := [w]\<rparr>) g)"
proof -
  define w where "w = \<lparr>w_cmd = 0, w_key = k, w_raw = args ! 1, w_class = baseClass k (args ! 0)\<rparr>"
  define u where "u = (bare_unit c)\<lparr>u_writes := [w]\<rparr>"
  have g1: "command_gate p 0 (u_cmds (bare_unit c)) = Passed [w]"
    using assms(2,3,5)
    by (simp add: assms(1) bare_unit_def write_cmd_def mk_command_def command_gate1_def command_writes_def w_def)
  have g2: "refine_trash R p u = Passed u"
    using assms(4) by (simp add: refine_trash_def refine_write_def u_def w_def bare_unit_def)
  have g3: "own_records R p g u = Passed ([], u)"
    using assms(7,8) by (simp add: own_records_def u_def w_def bare_unit_def)
  have sc: "sc_badNumber (newSliceScope u) = None" "sc_firstUse (newSliceScope u) = []"
    using assms(6,7) by (simp_all add: newSliceScope_def u_def scope_write_def Let_def scope_increment_def w_def empty_scope_def)
  have g4: "slice_phase R p g [] u = Passed ([], u)"
    using assms(6) sc by (simp add: slice_phase_def validatePushes_def) (simp add: u_def w_def bare_unit_def)
  have "check_phases R p g (bare_unit c) = Passed ([], u)"
    using g1 g2 g3 g4 by (simp add: check_phases_def u_def bare_unit_def)
  then show ?thesis by (simp add: Check_def w_def u_def Let_def)
qed


lemma bare_commands:
  "map_of commands ''SET'' = Some (ClassWrite, k1)"
  "map_of commands ''INCRBY'' = Some (ClassWrite, k1)"
  "map_of commands ''ZREM'' = Some (ClassWrite, k1)"
  by code_simp+

lemma classified_samples [simp]:
  "classified set_presence" "classified set_inode" "classified next_inode" "classified drop_session"
  by (simp_all add: set_presence_def set_inode_def next_inode_def drop_session_def classified_write_cmd
      bare_commands)

lemma sample_keys:
  "ParseKey ''jum:presence:mac'' = (plain_ref ShapePresence GPresence)\<lparr>k_suffix := ''mac''\<rparr>"
  "ParseKey ''i5'' = (plain_ref ShapeInode GInode)\<lparr>k_ino := 5, k_hasIno := True\<rparr>"
  "ParseKey ''nextinode'' = plain_ref (ShapeGlobal ''nextinode'') GCounter"
  "ParseKey ''allSessions'' = plain_ref (ShapeGlobal ''allSessions'') GSession"
proof -
  have "digits ''5'' = Some 5" using digits_FormatUint [of 5] by (simp add: go_arith)
  then show "ParseKey ''i5'' = (plain_ref ShapeInode GInode)\<lparr>k_ino := 5, k_hasIno := True\<rparr>"
    by (simp add: ParseKey_eval TrashInode_def plain_ref_def)
qed (simp_all add: ParseKey_eval plain_ref_def suffix_ref_def)

text \<open>What the samples come to.\<close>

definition sample_unit :: "cmd \<Rightarrow> key_ref \<Rightarrow> string \<Rightarrow> key_class \<Rightarrow> punit" where
  "sample_unit c k raw cl = (bare_unit c)\<lparr>u_writes := [\<lparr>w_cmd = 0, w_key = k, w_raw = raw, w_class = cl\<rparr>]\<rparr>"

lemma RedisInt_1024: "RedisInt ''1024'' = Some 1024"
  using RedisInt_FormatInt [of 1024] by (simp add: go_arith FormatInt_def)

lemmas sample_eval = write_cmd_def mk_command_def integerArgsOK_def integer_positions_def sample_keys
  plain_ref_def global_shape_def RedisInt_1024 key_gate1_def cmd_of_def baseClass_def sample_unit_def Let_def

lemma Check_set_presence:
  assumes "p = ann \<or> p = gateway"
  shows "Check sample_reads p (bare_unit set_presence) NewGuard =
    (Passed [], sample_unit set_presence (ParseKey ''jum:presence:mac'') ''jum:presence:mac'' KCPresence, NewGuard)"
  unfolding set_presence_def using assms
  by (subst Check_bare_write [OF refl])
    (auto simp: sample_eval ann_def gateway_def host_def bare_unit_def)

lemma Check_set_inode:
  "Check sample_reads ann (bare_unit set_inode) NewGuard =
    (Passed [], (sample_unit set_inode (ParseKey ''i5'') ''i5'' KCProject)
       \<lparr>u_project := [\<lparr>w_cmd = 0, w_key = ParseKey ''i5'', w_raw = ''i5'', w_class = KCProject\<rparr>]\<rparr>, NewGuard)"
  unfolding set_inode_def
  by (subst Check_bare_write [OF refl]) (auto simp: sample_eval ann_def bare_unit_def)

lemma Check_next_inode:
  "Check sample_reads ann (bare_unit next_inode) NewGuard =
    (Passed [], sample_unit next_inode (ParseKey ''nextinode'') ''nextinode'' KCCounter, NewGuard)"
  unfolding next_inode_def
  by (subst Check_bare_write [OF refl])
    (auto simp: sample_eval ann_def bare_unit_def counterGate_def allocator_denial_def counterDelta_def maxAlloc_def)

lemma drop_session_ids: "sessionIDs ''ZREM'' (ParseKey ''allSessions'') [''ZREM'', ''allSessions'', ''7''] = [7]"
proof -
  have "digits ''7'' = Some 7" using digits_FormatUint [of 7] by (simp add: go_arith)
  then show ?thesis by (simp add: sessionIDs_def sample_keys plain_ref_def)
qed

lemma Check_drop_session:
  "Check sample_reads ann (bare_unit drop_session) NewGuard =
    (Passed [no_effect\<lparr>ge_release := [7]\<rparr>],
     sample_unit drop_session (ParseKey ''allSessions'') ''allSessions'' KCSession, NewGuard)"
  unfolding drop_session_def using drop_session_ids
  by (subst Check_bare_write [OF refl])
    (auto simp: sample_eval ann_def bare_unit_def sessionGate_def sample_reads_def)

end
