(* ===== verification/Guard_Props.thy ===== *)
theory Guard_Props
  imports Guard_Samples
begin

section \<open>Correctness of the guard\<close>

text \<open>
  What an admitted unit may write, by the kind of its principal; that every project-scoped write
  reaches the policy; that allocators only move forward by a bounded step; that counters stay below
  their ceiling; and that sessions are written by their owner only.
\<close>

subsection \<open>The phases change classes only\<close>

definition same_unit :: "punit \<Rightarrow> punit \<Rightarrow> bool" where
  "same_unit u v \<longleftrightarrow> u_kind u = u_kind v \<and> u_db u = u_db v \<and> u_cmds u = u_cmds v \<and>
     u_watched u = u_watched v \<and> u_writes u = u_writes v"

lemma same_unit_refl [simp]: "same_unit u u"
  and same_unit_trans: "same_unit u v \<Longrightarrow> same_unit v w \<Longrightarrow> same_unit u w"
  by (auto simp: same_unit_def)

lemma session_members_same: "session_members w ms u = Passed u' \<Longrightarrow> same_unit u' u \<and> u_project u' = u_project u"
proof (induction ms arbitrary: u)
  case (Cons m ms)
  then show ?case by (fastforce simp: same_unit_def split: option.splits if_splits)
qed simp

lemma sessionGate_same:
  assumes "sessionGate R p u c w = Passed (es, u')"
  shows "same_unit u' u \<and> u_project u' = u_project u"
proof -
  have "same_unit v u \<and> u_project v = u_project u" if "heartbeatGate R u c w = Passed v" for v
    using that by (auto simp: heartbeatGate_def same_unit_def split: if_splits option.splits)
  moreover have "same_unit v u \<and> u_project v = u_project u" if "sessionSetGate u c w = Passed v" for v
    using that by (auto simp: sessionSetGate_def dest: session_members_same split: if_splits)
  ultimately show ?thesis
    using assms by (auto simp: sessionGate_def Let_def gbind_Passed split: if_splits)
qed

lemma key_gate1_same:
  assumes "key_gate1 R p w u g = (Passed es, u', g')"
  shows "same_unit u' u \<and> u_project u' = u_project u @ (if w_class w = KCProject then [w] else [])"
  using assms
  by (cases "w_class w")
    (auto simp: key_gate1_def Let_def same_unit_def dest: sessionGate_same
      split: if_splits gate.splits option.splits prod.splits)

text \<open>Every write passed its own gate, in a unit that differs from the final one only in what the
  gates add.\<close>

lemma key_gate_each:
  "key_gate R p ws es u g = (Passed es', u', g') \<Longrightarrow>
   same_unit u' u \<and> u_project u' = u_project u @ filter (\<lambda>w. w_class w = KCProject) ws \<and>
   (\<forall>w \<in> set ws. \<exists>v h es1 v' h'. same_unit v u \<and> key_gate1 R p w v h = (Passed es1, v', h'))"
proof (induction ws arbitrary: es u g)
  case (Cons w ws)
  from Cons.prems obtain es1 u1 g1 where h: "key_gate1 R p w u g = (Passed es1, u1, g1)"
    and t: "key_gate R p ws (es @ es1) u1 g1 = (Passed es', u', g')"
    by (auto split: prod.splits gate.splits)
  note IH = Cons.IH [OF t] and S = key_gate1_same [OF h]
  have "\<exists>v h es1 v' h'. same_unit v u \<and> key_gate1 R p x v h = (Passed es1, v', h')" if "x \<in> set (w # ws)" for x
  proof (cases "x = w")
    case True
    with h show ?thesis using same_unit_refl by blast
  next
    case False
    with that IH obtain v h0 e v' h' where "same_unit v u1" "key_gate1 R p x v h0 = (Passed e, v', h')" by auto
    with S same_unit_trans show ?thesis by blast
  qed
  with IH S same_unit_trans show ?case by fastforce
qed simp

text \<open>A write up to its class.\<close>

abbreviation forget_class :: "key_write \<Rightarrow> nat \<times> key_ref \<times> string" where
  "forget_class w \<equiv> (w_cmd w, w_key w, w_raw w)"

definition reclass :: "key_write \<Rightarrow> key_write \<Rightarrow> bool" where
  "reclass w v \<longleftrightarrow> forget_class w = forget_class v \<and>
     (k_group (w_key w) \<notin> {GInode, GDentry, GGc} \<longrightarrow> w_class v = w_class w) \<and>
     (k_group (w_key w) \<in> {GInode, GDentry} \<and> \<not> k_trash (w_key w) \<longrightarrow> w_class v = w_class w) \<and>
     (k_group (w_key w) \<in> {GInode, GDentry} \<longrightarrow> w_class v = w_class w \<or> w_class v \<in> {KCProject, KCBG, KCTrashCreate})"

lemma reclass_refl: "reclass w w"
  by (simp add: reclass_def)

lemma reclass_trans:
  assumes "reclass w v" "reclass v x" shows "reclass w x"
proof -
  have k: "forget_class w = forget_class v" "forget_class v = forget_class x"
    using assms by (simp_all only: reclass_def)
  then have "w_key v = w_key w" by simp
  with assms k show ?thesis unfolding reclass_def by (simp only:) metis
qed

definition reclassed :: "key_write list \<Rightarrow> key_write list \<Rightarrow> bool" where
  "reclassed ws vs \<longleftrightarrow> list_all2 reclass ws vs"

lemma reclassed_refl: "reclassed ws ws"
  by (simp add: reclassed_def list_all2_refl reclass_refl)

lemma reclassed_trans: "reclassed ws vs \<Longrightarrow> reclassed vs us \<Longrightarrow> reclassed ws us"
  unfolding reclassed_def by (rule list_all2_trans [OF reclass_trans])

lemma reclassed_map:
  assumes "\<And>w. w \<in> set ws \<Longrightarrow> forget_class (f w) = forget_class w"
    and "\<And>w. w \<in> set ws \<Longrightarrow> k_group (w_key w) \<notin> {GInode, GDentry, GGc} \<Longrightarrow> w_class (f w) = w_class w"
    and "\<And>w. w \<in> set ws \<Longrightarrow> k_group (w_key w) \<in> {GInode, GDentry} \<Longrightarrow> \<not> k_trash (w_key w) \<Longrightarrow> w_class (f w) = w_class w"
    and "\<And>w. w \<in> set ws \<Longrightarrow> k_group (w_key w) \<in> {GInode, GDentry} \<Longrightarrow> w_class (f w) = w_class w \<or> w_class (f w) \<in> {KCProject, KCBG, KCTrashCreate}"
  shows "reclassed ws (map f ws)"
  unfolding reclassed_def list_all2_map2 using assms by (intro list.rel_refl_strong) (simp add: reclass_def)

lemma refine_write_reclass: "reclass w (refine_write t h u w)"
  by (simp add: reclass_def refine_write_def Let_def)

lemma refine_trash_reclassed:
  assumes "refine_trash R p u = Passed v"
  shows "reclassed (u_writes u) (u_writes v) \<and> u_cmds v = u_cmds u \<and> u_kind v = u_kind u \<and> u_project v = u_project u"
proof -
  obtain t h where v: "v = u\<lparr>u_writes := map (refine_write t h u) (u_writes u)\<rparr>"
    using assms by (auto simp: refine_trash_def Let_def gbind_Passed)
  have "reclassed (u_writes u) (map (refine_write t h u) (u_writes u))"
    unfolding reclassed_def list_all2_map2 by (rule list.rel_refl_strong) (rule refine_write_reclass)
  then show ?thesis by (simp add: v)
qed

text \<open>Keys are what the parser makes of the raw key.\<close>

definition parsed :: "key_write \<Rightarrow> bool" where
  "parsed w \<longleftrightarrow> w_key w = ParseKey (w_raw w)"

lemma ParseKey_global: "k_shape (ParseKey k) = ShapeGlobal s \<Longrightarrow> k = s \<and> map_of globalKeys s = Some (k_group (ParseKey k))"
proof -
  assume a: "k_shape (ParseKey k) = ShapeGlobal s"
  have n: "k_shape r \<noteq> ShapeGlobal s" if "namespace_ref k = Some r" for r
    using that unfolding namespace_ref_def
    by (simp only: option.inject option.distinct split: if_split_asm) (auto simp: plain_ref_def)
  have l: "k_shape r \<noteq> ShapeGlobal s" if "lock_session_ref k = Some r" for r
    using that by (auto simp: lock_session_ref_def plain_ref_def dest: ino_ref_Some split: if_splits)
  have t: "k_shape r \<noteq> ShapeGlobal s" if "letter_ref k = Some r" for r
    using that by (auto simp: letter_ref_def Let_def dest: ino_ref_Some split: if_splits option.splits)
  show ?thesis
    using a n l t by (auto simp: ParseKey_def plain_ref_def split: option.splits)
qed

lemma parsed_gc:
  assumes "parsed w" and "global_shape (w_key w) \<in> {''sliceRef'', ''delfiles'', ''delSlices'', ''detachedNodes''}"
  shows "k_group (w_key w) = GGc"
proof -
  obtain s where s: "k_shape (w_key w) = ShapeGlobal s"
    using assms(2) by (cases "k_shape (w_key w)") (auto simp: global_shape_def)
  have "s \<in> {''sliceRef'', ''delfiles'', ''delSlices'', ''detachedNodes''}"
    using assms(2) s by (simp only: global_shape_def shape.case)
  then have "map_of globalKeys s = Some GGc"
    by (elim insertE emptyE) (simp_all add: globalKeys_def map_of_Cons_code del: map_of.simps)
  moreover have "w_key w = ParseKey (w_raw w)" using assms(1) by (simp only: parsed_def)
  then have "map_of globalKeys s = Some (k_group (w_key w))"
    using s ParseKey_global [of "w_raw w" s] by simp
  ultimately show ?thesis by simp
qed

lemma reclass_parsed:
  assumes "reclass w v" and "parsed w"
  shows "parsed v"
proof -
  have "w_key w = w_key v" and "w_raw w = w_raw v"
    using assms(1) unfolding reclass_def prod.inject by blast+
  with assms(2) show ?thesis by (simp only: parsed_def)
qed

lemma reclassed_parsed: "reclassed ws vs \<Longrightarrow> \<forall>w \<in> set ws. parsed w \<Longrightarrow> \<forall>v \<in> set vs. parsed v"
  unfolding reclassed_def by (induction rule: list_all2_induct) (auto intro: reclass_parsed)

lemma own_records_reclassed:
  assumes "own_records R p g u = Passed (es, v)" and "\<forall>w \<in> set (u_writes u). parsed w"
  shows "reclassed (u_writes u) (u_writes v) \<and> u_cmds v = u_cmds u \<and> u_kind v = u_kind u \<and> u_project v = u_project u"
proof (cases "u_writes v = u_writes u")
  case True
  then show ?thesis
    using assms(1) reclassed_refl
    by (auto simp: own_records_def Let_def gbind_Passed set_class_def ownSliceDrop_def split: if_splits option.splits)
next
  case False
  then obtain w where w: "u_writes u = [w]" and s: "global_shape (w_key w) \<in> {''sliceRef'', ''delfiles''}"
    and v: "u_writes v = [w\<lparr>w_class := KCOwnRecord\<rparr>]" "u_cmds v = u_cmds u" "u_kind v = u_kind u" "u_project v = u_project u"
    using assms(1)
    by (auto simp: own_records_def Let_def gbind_Passed set_class_def ownSliceDrop_def length_Suc_conv
        split: if_splits option.splits)
  have "k_group (w_key w) = GGc" using assms(2) w s by (intro parsed_gc) auto
  then show ?thesis using w v by (simp add: reclassed_def reclass_def)
qed

lemma anchor_writes_reclassed: "anchor_writes R u ws st = Passed (vs, st') \<Longrightarrow> reclassed ws vs"
proof (induction ws arbitrary: st vs st')
  case Nil
  then show ?case by (simp add: reclassed_def)
next
  case (Cons w ws)
  then show ?case
    by (cases "k_group (w_key w) = GGc") (auto simp: gbind_Passed Let_def reclassed_def reclass_def)
qed

lemma zero_writes_gc:
  "zero_writes p g u ws = Passed x \<Longrightarrow> \<forall>w \<in> set ws. global_shape (w_key w) = ''sliceRef''"
  by (induction ws arbitrary: x) (auto simp: gbind_Passed Let_def split: if_splits)

lemma slice_phase_reclassed:
  assumes "slice_phase R p g es u = Passed (es', v)" and ok: "\<forall>w \<in> set (u_writes u). parsed w"
  shows "reclassed (u_writes u) (u_writes v) \<and> u_cmds v = u_cmds u \<and> u_kind v = u_kind u \<and> u_project v = u_project u"
proof -
  have a: "reclassed (u_writes u) (u_writes x) \<and> u_cmds x = u_cmds u \<and> u_kind x = u_kind u \<and> u_project x = u_project u"
    if "anchorCleanup R u sc = Passed (e, x)" for sc e x
    using that by (auto simp: anchorCleanup_def gbind_Passed dest: anchor_writes_reclassed)
  have z: "reclassed (u_writes u) (u_writes x) \<and> u_cmds x = u_cmds u \<and> u_kind x = u_kind u \<and> u_project x = u_project u"
    if "ownZeroRefDrop p g u = Passed (e, x)" for e x
  proof -
    have "\<forall>w \<in> set (u_writes u). k_group (w_key w) = GGc"
      using that ok zero_writes_gc parsed_gc by (fastforce simp: ownZeroRefDrop_def gbind_Passed)
    then show ?thesis
      using that by (auto simp: ownZeroRefDrop_def gbind_Passed intro!: reclassed_map)
  qed
  consider "v = u" | sc e where "anchorCleanup R u sc = Passed (e, v)" | e where "ownZeroRefDrop p g u = Passed (e, v)"
    using assms(1) by (fastforce simp: slice_phase_def gbind_Passed split: if_split_asm)
  then show ?thesis
  proof cases
    case 1
    then show ?thesis using reclassed_refl by simp
  next
    case 2
    then show ?thesis by (rule a)
  next
    case 3
    then show ?thesis by (rule z)
  qed
qed

lemma Classify_write_keys:
  assumes "Classify args = Some info" and "c_class info = ClassWrite"
  shows "c_keys info = map ParseKey (c_raw info)"
proof -
  have s: "cl \<noteq> ClassWrite" if "classifyScript n a = Some (cl, ks, raw, sha)" for n a cl ks raw sha
    using classifyScript_class [OF that] by auto
  have "cl \<noteq> ClassWrite" if "classifySub n a = Some cl" for n a cl
    using that by (auto simp: classifySub_def Let_def split: if_split_asm)
  with assms s show ?thesis
    unfolding Classify_def Let_def mk_command_def
    by (auto split: if_split_asm option.split_asm prod.split_asm)
qed

lemma classified_keys: "classified c \<Longrightarrow> c_class (cmd_info c) = ClassWrite \<Longrightarrow> c_keys (cmd_info c) = map ParseKey (c_raw (cmd_info c))"
  using Classify_write_keys by (auto simp: classified_def)

lemma command_gate_writes:
  "command_gate p i cs = Passed ws \<Longrightarrow> j < length cs \<Longrightarrow>
   (\<exists>vs. command_gate1 p (i + j) (cs ! j) = Passed vs \<and> set vs \<subseteq> set ws)"
proof (induction cs arbitrary: i j ws)
  case (Cons c cs)
  from Cons.prems(1) obtain w1 w2 where w: "command_gate1 p i c = Passed w1"
    "command_gate p (Suc i) cs = Passed w2" "ws = w1 @ w2"
    by (auto simp: gbind_Passed)
  show ?case
  proof (cases j)
    case (Suc k)
    with Cons.IH [OF w(2), of k] Cons.prems(2) w(3) show ?thesis by auto
  qed (use w in auto)
qed simp

lemma command_gate_parsed:
  "command_gate p i cs = Passed ws \<Longrightarrow> \<forall>c \<in> set cs. classified c \<Longrightarrow> \<forall>w \<in> set ws. parsed w"
proof (induction cs arbitrary: i ws)
  case (Cons c cs)
  from Cons.prems(1) obtain w1 w2 where w: "command_gate1 p i c = Passed w1"
    "command_gate p (Suc i) cs = Passed w2" "ws = w1 @ w2"
    by (auto simp: gbind_Passed)
  have "w1 = [] \<or> (c_class (cmd_info c) = ClassWrite \<and> w1 = command_writes i c)"
    using w(1) by (auto simp: command_gate1_def Let_def split: cmd_class.splits if_splits option.splits bool.splits)
  moreover have "\<forall>w \<in> set (command_writes i c). parsed w" if "c_class (cmd_info c) = ClassWrite"
    using classified_keys [of c] that Cons.prems(2)
    by (auto simp: command_writes_def parsed_def zip_map1 set_zip)
  ultimately show ?case using Cons w by auto
qed simp

lemma Check_core:
  assumes chk: "Check R p u g = (Passed es, u', g')" and cl: "\<forall>c \<in> set (u_cmds u). classified c"
  obtains ws where "command_gate p 0 (u_cmds u) = Passed ws" "reclassed ws (u_writes u')"
    "\<forall>w \<in> set ws. parsed w" "u_cmds u' = u_cmds u" "u_kind u' = u_kind u"
    "u_project u' = filter (\<lambda>w. w_class w = KCProject) (u_writes u')"
    "\<forall>w \<in> set (u_writes u'). \<exists>v h e v' h'. same_unit v u' \<and> key_gate1 R p w v h = (Passed e, v', h')"
proof -
  from chk obtain es1 u3 where ph: "check_phases R p g u = Passed (es1, u3)"
    and kg: "key_gate R p (u_writes u3) es1 u3 g = (Passed es, u', g')"
    by (auto simp: Check_def split: gate.split_asm prod.split_asm)
  from ph obtain ws u1 es0 u2 where ws: "command_gate p 0 (u_cmds u) = Passed ws"
    and r: "refine_trash R p (u\<lparr>u_project := [], u_refInodes := [], u_writes := ws\<rparr>) = Passed u1"
    and o: "own_records R p g u1 = Passed (es0, u2)" and s: "slice_phase R p g es0 u2 = Passed (es1, u3)"
    by (auto simp: check_phases_def Let_def gbind_Passed)
  note pw = command_gate_parsed [OF ws cl]
  note R1 = refine_trash_reclassed [OF r, simplified]
  note P1 = reclassed_parsed [OF R1 [THEN conjunct1] pw]
  note R2 = own_records_reclassed [OF o P1]
  note P2 = reclassed_parsed [OF R2 [THEN conjunct1] P1]
  note R3 = slice_phase_reclassed [OF s P2]
  note K = key_gate_each [OF kg]
  have w: "u_writes u' = u_writes u3" "u_cmds u' = u_cmds u3" "u_kind u' = u_kind u3"
    using K by (auto simp: same_unit_def)
  show thesis
  proof (rule that [OF ws _ pw])
    show "reclassed ws (u_writes u')" using R1 R2 R3 reclassed_trans w by metis
    show "u_cmds u' = u_cmds u" "u_kind u' = u_kind u" using R1 R2 R3 w by simp_all
    show "u_project u' = filter (\<lambda>w. w_class w = KCProject) (u_writes u')" using K R1 R2 R3 w by simp
    show "\<forall>w \<in> set (u_writes u'). \<exists>v h e v' h'. same_unit v u' \<and> key_gate1 R p w v h = (Passed e, v', h')"
      using K w by (auto simp: same_unit_def)
  qed
qed

lemma Check_gate:
  assumes "Check R p u g = (Passed es, u', g')" "\<forall>c \<in> set (u_cmds u). classified c" "w \<in> set (u_writes u')"
  obtains v h e v' h' where "same_unit v u'" "key_gate1 R p w v h = (Passed e, v', h')"
  by (rule Check_core [OF assms(1,2)]) (use assms(3) in blast)

lemma Check_fields:
  assumes "Check R p u g = (Passed es, u', g')" "\<forall>c \<in> set (u_cmds u). classified c"
  shows "u_project u' = filter (\<lambda>w. w_class w = KCProject) (u_writes u')" "u_kind u' = u_kind u"
    "u_cmds u' = u_cmds u" "\<exists>ws. command_gate p 0 (u_cmds u) = Passed ws \<and> reclassed ws (u_writes u')"
  by (rule Check_core [OF assms]; blast)+

text \<open>A key written by a write command of an admitted unit appears among the unit's writes.\<close>

lemma Check_key_write:
  assumes chk: "Check R p u g = (Passed es, u', g')" and cl: "\<forall>c \<in> set (u_cmds u). classified c"
    and c: "c \<in> set (u_cmds u)" "c_class (cmd_info c) = ClassWrite" "r \<in> set (c_raw (cmd_info c))"
  obtains w where "w \<in> set (u_writes u')" "w_raw w = r" "w_key w = ParseKey r" "cmd_of u' w = c"
    "k_group (ParseKey r) \<notin> {GInode, GDentry, GGc} \<longrightarrow> w_class w = baseClass (ParseKey r) (cmd_name c)"
    "k_group (ParseKey r) \<in> {GInode, GDentry} \<and> \<not> k_trash (ParseKey r) \<longrightarrow> w_class w = KCProject"
    "k_group (ParseKey r) \<in> {GInode, GDentry} \<longrightarrow> w_class w \<in> {KCProject, KCBG, KCTrashCreate}"
proof -
  obtain ws where ws: "command_gate p 0 (u_cmds u) = Passed ws" "reclassed ws (u_writes u')"
    "u_cmds u' = u_cmds u" using Check_fields [OF chk cl] by blast
  from c(1) obtain i where i: "i < length (u_cmds u)" "u_cmds u ! i = c" by (auto simp: in_set_conv_nth)
  from command_gate_writes [OF ws(1) i(1)] i(2) obtain vs where vs: "command_gate1 p i c = Passed vs" "set vs \<subseteq> set ws"
    by auto
  have "vs = command_writes i c"
    using vs(1) c(2) by (auto simp: command_gate1_def Let_def split: if_split_asm option.split_asm bool.split_asm)
  moreover have "c_keys (cmd_info c) = map ParseKey (c_raw (cmd_info c))"
    using cl c by (intro classified_keys) auto
  ultimately have "\<lparr>w_cmd = i, w_key = ParseKey r, w_raw = r, w_class = baseClass (ParseKey r) (cmd_name c)\<rparr> \<in> set vs"
    using c(3) by (force simp: command_writes_def zip_map1 zip_same_conv_map)
  then obtain w0 where w0: "w0 \<in> set ws"
    "w0 = \<lparr>w_cmd = i, w_key = ParseKey r, w_raw = r, w_class = baseClass (ParseKey r) (cmd_name c)\<rparr>"
    using vs(2) by auto
  from w0(1) obtain j where "j < length ws" "ws ! j = w0" by (auto simp: in_set_conv_nth)
  with ws(2) have j: "j < length (u_writes u')" "forget_class w0 = forget_class (u_writes u' ! j)"
    "k_group (w_key w0) \<notin> {GInode, GDentry, GGc} \<Longrightarrow> w_class (u_writes u' ! j) = w_class w0"
    "k_group (w_key w0) \<in> {GInode, GDentry} \<Longrightarrow> \<not> k_trash (w_key w0) \<Longrightarrow> w_class (u_writes u' ! j) = w_class w0"
    "k_group (w_key w0) \<in> {GInode, GDentry} \<Longrightarrow> w_class (u_writes u' ! j) = w_class w0 \<or> w_class (u_writes u' ! j) \<in> {KCProject, KCBG, KCTrashCreate}"
    by (auto simp: reclassed_def reclass_def list_all2_conv_all_nth)
  show thesis
    by (rule that [of "u_writes u' ! j"])
      (use j w0 ws(3) i in \<open>auto simp: cmd_of_def baseClass_def\<close>)
qed

text \<open>What the class of a write demands of the principal.\<close>

lemma key_gate1_class:
  assumes "key_gate1 R p w u g = (Passed es, u', g')" and "p_kind p \<noteq> KindAdmin"
  shows "w_class w \<notin> {KCAdmin, KCChannel, KCUnknown}"
    and "w_class w = KCFarm \<Longrightarrow> p_kind p \<in> {KindFarm, KindManager}"
    and "w_class w = KCBG \<Longrightarrow> p_kind p = KindBG"
    and "w_class w \<in> {KCProject, KCTrashCreate} \<Longrightarrow> p_kind p \<noteq> KindWebDAV"
    and "w_class w = KCPresence \<Longrightarrow> k_suffix (w_key w) = host p"
  using assms by (auto simp: key_gate1_def Let_def split: if_split_asm)

text \<open>C16: What a unit admitted for a principal other than the operator cannot contain: no write to the
  proxy's own lease table, to the volume settings or to a key of unknown shape; farm keys only from
  the farm and the manager; background bookkeeping only from the background principal; a presence
  key only for the principal's own host; and no server-administration command, and a script off the
  allow-list only from the farm or the manager.\<close>

theorem Check_write_rights:
  assumes "Check R p u g = (Passed es, u', g')" and "p_kind p \<noteq> KindAdmin"
    and "\<forall>c \<in> set (u_cmds u). classified c" and "c \<in> set (u_cmds u)"
  shows "c_class (cmd_info c) \<notin> {ClassAdminW, ClassUnknown, ClassForbidden, ClassLocal}
    \<and> (c_class (cmd_info c) = ClassScript \<longrightarrow> p_kind p \<in> {KindFarm, KindManager})
    \<and> (c_class (cmd_info c) = ClassWrite \<longrightarrow> (\<forall>r \<in> set (c_raw (cmd_info c)).
        k_group (ParseKey r) \<notin> {GLease, GAdmin, GUnknown, GScriptArg, GChannel}
        \<and> (k_group (ParseKey r) = GFarm \<longrightarrow> p_kind p \<in> {KindFarm, KindManager})
        \<and> (k_group (ParseKey r) = GBgmark \<longrightarrow> p_kind p = KindBG)
        \<and> (k_group (ParseKey r) = GPresence \<longrightarrow> k_suffix (ParseKey r) = host p)))"
proof (intro conjI impI ballI)
  obtain ws where ws: "command_gate p 0 (u_cmds u) = Passed ws"
    using Check_fields(4) [OF assms(1,3)] by blast
  from assms(4) obtain i where i: "i < length (u_cmds u)" "u_cmds u ! i = c" by (auto simp: in_set_conv_nth)
  from command_gate_writes [OF ws i(1)] i(2) obtain vs where vs: "command_gate1 p i c = Passed vs" by auto
  show "c_class (cmd_info c) \<notin> {ClassAdminW, ClassUnknown, ClassForbidden, ClassLocal}"
    using vs assms(2) by (auto simp: command_gate1_def Let_def)
  show "p_kind p \<in> {KindFarm, KindManager}" if "c_class (cmd_info c) = ClassScript"
    using vs assms(2) that by (auto simp: command_gate1_def Let_def serverPrincipal_def split: if_split_asm)
next
  fix r assume r: "c_class (cmd_info c) = ClassWrite" "r \<in> set (c_raw (cmd_info c))"
  obtain w where w: "w \<in> set (u_writes u')" "w_raw w = r" "w_key w = ParseKey r" "cmd_of u' w = c"
    and b: "k_group (ParseKey r) \<notin> {GInode, GDentry, GGc} \<longrightarrow> w_class w = baseClass (ParseKey r) (cmd_name c)"
    and pr: "k_group (ParseKey r) \<in> {GInode, GDentry} \<and> \<not> k_trash (ParseKey r) \<longrightarrow> w_class w = KCProject"
    and t: "k_group (ParseKey r) \<in> {GInode, GDentry} \<longrightarrow> w_class w \<in> {KCProject, KCBG, KCTrashCreate}"
    by (rule Check_key_write [OF assms(1,3,4) r])
  obtain v h e v' h' where "same_unit v u'" and k: "key_gate1 R p w v h = (Passed e, v', h')"
    by (rule Check_gate [OF assms(1,3) w(1)])
  note ok = key_gate1_class [OF k assms(2)]
  show "k_group (ParseKey r) \<notin> {GLease, GAdmin, GUnknown, GScriptArg, GChannel}"
    using b ok(1) by (auto simp: baseClass_def)
  show "p_kind p \<in> {KindFarm, KindManager}" if "k_group (ParseKey r) = GFarm"
    using b ok(2) that by (simp add: baseClass_def)
  show "p_kind p = KindBG" if "k_group (ParseKey r) = GBgmark"
    using b ok(3) that by (simp add: baseClass_def)
  show "k_suffix (ParseKey r) = host p" if "k_group (ParseKey r) = GPresence"
    using b ok(5) that w(3) by (simp add: baseClass_def)
qed

theorem Check_write_rights_witness:
  "c_class (cmd_info set_presence) \<notin> {ClassAdminW, ClassUnknown, ClassForbidden, ClassLocal}
   \<and> k_suffix (ParseKey ''jum:presence:mac'') = host ann"
proof -
  have c: "c_class (cmd_info set_presence) = ClassWrite" "''jum:presence:mac'' \<in> set (c_raw (cmd_info set_presence))"
    by (simp_all add: set_presence_def write_cmd_def mk_command_def)
  have k: "k_group (ParseKey ''jum:presence:mac'') = GPresence" by (simp add: sample_keys plain_ref_def)
  have u: "p_kind ann \<noteq> KindAdmin" "\<forall>c \<in> set (u_cmds (bare_unit set_presence)). classified c"
    "set_presence \<in> set (u_cmds (bare_unit set_presence))"
    by (simp_all add: ann_def bare_unit_def)
  from Check_write_rights [OF Check_set_presence [OF disjI1 [OF refl]] u] c k show ?thesis by blast
qed

text \<open>C10: No project-scoped write escapes the policy: in an admitted unit every write to an inode or
  directory record outside the trash, by any principal, is listed in \<^verbatim>\<open>Unit.Project\<close>, which is what
  \<^verbatim>\<open>Policy.Decide\<close> is asked about.\<close>

theorem Check_project_complete:
  assumes "Check R p u g = (Passed es, u', g')" and "\<forall>c \<in> set (u_cmds u). classified c"
    and "c \<in> set (u_cmds u)" and "c_class (cmd_info c) = ClassWrite" and "r \<in> set (c_raw (cmd_info c))"
    and "k_group (ParseKey r) \<in> {GInode, GDentry}" and "\<not> k_trash (ParseKey r)"
  shows "\<exists>w \<in> set (u_project u'). w_raw w = r \<and> w_key w = ParseKey r \<and> cmd_of u' w = c"
proof -
  obtain w where w: "w \<in> set (u_writes u')" "w_raw w = r" "w_key w = ParseKey r" "cmd_of u' w = c"
    and b: "k_group (ParseKey r) \<notin> {GInode, GDentry, GGc} \<longrightarrow> w_class w = baseClass (ParseKey r) (cmd_name c)"
    and pr: "k_group (ParseKey r) \<in> {GInode, GDentry} \<and> \<not> k_trash (ParseKey r) \<longrightarrow> w_class w = KCProject"
    and t: "k_group (ParseKey r) \<in> {GInode, GDentry} \<longrightarrow> w_class w \<in> {KCProject, KCBG, KCTrashCreate}"
    by (rule Check_key_write [OF assms(1-5)])
  have "w_class w = KCProject" using pr assms(6,7) by blast
  with w show ?thesis unfolding Check_fields(1) [OF assms(1,2)] by auto
qed

theorem Check_project_complete_witness:
  "\<exists>w \<in> set (u_project ((sample_unit set_inode (ParseKey ''i5'') ''i5'' KCProject)
       \<lparr>u_project := [\<lparr>w_cmd = 0, w_key = ParseKey ''i5'', w_raw = ''i5'', w_class = KCProject\<rparr>]\<rparr>)).
     w_raw w = ''i5'' \<and> w_key w = ParseKey ''i5'' \<and>
     cmd_of ((sample_unit set_inode (ParseKey ''i5'') ''i5'' KCProject)
       \<lparr>u_project := [\<lparr>w_cmd = 0, w_key = ParseKey ''i5'', w_raw = ''i5'', w_class = KCProject\<rparr>]\<rparr>) w = set_inode"
proof (rule Check_project_complete [OF Check_set_inode])
  show "c_class (cmd_info set_inode) = ClassWrite" "''i5'' \<in> set (c_raw (cmd_info set_inode))"
    by (simp_all add: set_inode_def write_cmd_def mk_command_def)
qed (simp_all add: bare_unit_def sample_keys plain_ref_def)

text \<open>C26: The read-only gateway cannot change the tree: a unit admitted for a webdav principal writes
  no inode record, no directory entry and no directory statistics, inside or outside the trash, and
  has nothing for the policy to decide.\<close>

theorem Check_webdav_readonly:
  assumes "Check R p u g = (Passed es, u', g')" and "p_kind p = KindWebDAV"
    and "\<forall>c \<in> set (u_cmds u). classified c"
  shows "u_project u' = [] \<and> (\<forall>c \<in> set (u_cmds u). c_class (cmd_info c) = ClassWrite \<longrightarrow>
    (\<forall>r \<in> set (c_raw (cmd_info c)). k_group (ParseKey r) \<notin> {GInode, GDentry, GDirstat, GQuota}))"
proof (intro conjI ballI impI)
  have na: "p_kind p \<noteq> KindAdmin" using assms(2) by simp
  have bad: "w_class w \<notin> {KCProject, KCTrashCreate, KCBG, KCAdmin}" if w: "w \<in> set (u_writes u')" for w
  proof -
    obtain v h e v' h' where "same_unit v u'" and k: "key_gate1 R p w v h = (Passed e, v', h')"
      by (rule Check_gate [OF assms(1,3) w])
    from key_gate1_class [OF k na] assms(2) show ?thesis by auto
  qed
  show "u_project u' = []"
    unfolding Check_fields(1) [OF assms(1,3)] using bad by (auto simp: filter_empty_conv)
  fix c r assume c: "c \<in> set (u_cmds u)" "c_class (cmd_info c) = ClassWrite" "r \<in> set (c_raw (cmd_info c))"
  obtain w where w: "w \<in> set (u_writes u')" "w_raw w = r" "w_key w = ParseKey r" "cmd_of u' w = c"
    and b: "k_group (ParseKey r) \<notin> {GInode, GDentry, GGc} \<longrightarrow> w_class w = baseClass (ParseKey r) (cmd_name c)"
    and pr: "k_group (ParseKey r) \<in> {GInode, GDentry} \<and> \<not> k_trash (ParseKey r) \<longrightarrow> w_class w = KCProject"
    and t: "k_group (ParseKey r) \<in> {GInode, GDentry} \<longrightarrow> w_class w \<in> {KCProject, KCBG, KCTrashCreate}"
    by (rule Check_key_write [OF assms(1,3) c])
  show "k_group (ParseKey r) \<notin> {GInode, GDentry, GDirstat, GQuota}"
    using bad [OF w(1)] b t by (auto simp: baseClass_def split: if_split_asm)
qed

theorem Check_webdav_readonly_witness:
  "u_project (sample_unit set_presence (ParseKey ''jum:presence:mac'') ''jum:presence:mac'' KCPresence) = []
   \<and> k_group (ParseKey ''jum:presence:mac'') \<notin> {GInode, GDentry, GDirstat, GQuota}"
proof -
  have c: "c_class (cmd_info set_presence) = ClassWrite" "''jum:presence:mac'' \<in> set (c_raw (cmd_info set_presence))"
    by (simp_all add: set_presence_def write_cmd_def mk_command_def)
  have u: "p_kind gateway = KindWebDAV" "\<forall>c \<in> set (u_cmds (bare_unit set_presence)). classified c"
    "set_presence \<in> set (u_cmds (bare_unit set_presence))"
    by (simp_all add: gateway_def bare_unit_def)
  from Check_webdav_readonly [OF Check_set_presence [OF disjI2 [OF refl]] u(1,2)] c u(3) show ?thesis by blast
qed

subsection \<open>Sessions\<close>

lemma sessions_owned_all: "sessions_owned R p sids = Passed x \<Longrightarrow> \<forall>sid \<in> set sids. r_sessOwner R sid = Inr (Some (p_name p))"
  by (induction sids arbitrary: x) (auto split: sum.splits option.splits if_split_asm)

text \<open>C24: A juicefs session is written by its owner only: every session a unit admitted for an ordinary
  principal names in a write, in the key or as a field or member, is recorded as allocated to that
  principal, and a write that names no session is not admitted.\<close>

theorem Check_sessions_owned:
  assumes "Check R p u g = (Passed es, u', g')" and "p_kind p \<notin> {KindAdmin, KindBG}"
    and "\<forall>c \<in> set (u_cmds u). classified c"
    and "c \<in> set (u_cmds u)" and "c_class (cmd_info c) = ClassWrite" and "r \<in> set (c_raw (cmd_info c))"
    and "k_group (ParseKey r) = GSession"
  shows "sessionIDs (cmd_name c) (ParseKey r) (cmd_args c) \<noteq> []
    \<and> (\<forall>sid \<in> set (sessionIDs (cmd_name c) (ParseKey r) (cmd_args c)). r_sessOwner R sid = Inr (Some (p_name p)))"
proof -
  obtain w where w: "w \<in> set (u_writes u')" "w_raw w = r" "w_key w = ParseKey r" "cmd_of u' w = c"
    and b: "k_group (ParseKey r) \<notin> {GInode, GDentry, GGc} \<longrightarrow> w_class w = baseClass (ParseKey r) (cmd_name c)"
    and pr: "k_group (ParseKey r) \<in> {GInode, GDentry} \<and> \<not> k_trash (ParseKey r) \<longrightarrow> w_class w = KCProject"
    and t: "k_group (ParseKey r) \<in> {GInode, GDentry} \<longrightarrow> w_class w \<in> {KCProject, KCBG, KCTrashCreate}"
    by (rule Check_key_write [OF assms(1,3-6)])
  obtain v h e v' h' where k: "same_unit v u'" "key_gate1 R p w v h = (Passed e, v', h')"
    by (rule Check_gate [OF assms(1,3) w(1)])
  have cv: "cmd_of v w = c" using k(1) w(4) by (simp add: same_unit_def cmd_of_def)
  have "w_class w = KCSession" using b assms(7) by (simp add: baseClass_def)
  with k(2) cv obtain es1 u1 where "sessionGate R p v c w = Passed (es1, u1)"
    by (auto simp: key_gate1_def Let_def split: gate.split_asm)
  then show ?thesis
    using assms(2) w(3) sessions_owned_all [of R p]
    by (auto simp: sessionGate_def Let_def gbind_Passed split: if_split_asm)
qed

theorem Check_sessions_owned_witness:
  "sessionIDs (cmd_name drop_session) (ParseKey ''allSessions'') (cmd_args drop_session) = [7]
   \<and> r_sessOwner sample_reads 7 = Inr (Some (p_name ann))"
proof -
  have ids: "sessionIDs (cmd_name drop_session) (ParseKey ''allSessions'') (cmd_args drop_session) = [7]"
    using drop_session_ids by (simp add: drop_session_def write_cmd_def mk_command_def)
  have "sessionIDs (cmd_name drop_session) (ParseKey ''allSessions'') (cmd_args drop_session) \<noteq> []
    \<and> (\<forall>sid \<in> set (sessionIDs (cmd_name drop_session) (ParseKey ''allSessions'') (cmd_args drop_session)).
         r_sessOwner sample_reads sid = Inr (Some (p_name ann)))"
  proof (rule Check_sessions_owned [OF Check_drop_session])
    show "c_class (cmd_info drop_session) = ClassWrite" "''allSessions'' \<in> set (c_raw (cmd_info drop_session))"
      by (simp_all add: drop_session_def write_cmd_def mk_command_def)
  qed (simp_all add: ann_def bare_unit_def sample_keys plain_ref_def)
  with ids show ?thesis by simp
qed

subsection \<open>Allocators and counters\<close>

lemma maxAlloc_eval [simp]: "maxAlloc ''nextinode'' = Some 1024" "maxAlloc ''nextchunk'' = Some 4096"
  "maxAlloc ''nextsession'' = Some 16" "maxAlloc ''nextTrash'' = Some 1"
  by (simp_all add: maxAlloc_def)

lemma allocator_ok:
  assumes "allocator_denial p u c w name = None"
  obtains n where "counterDelta c = Some n" "0 < n" "\<forall>m. maxAlloc name = Some m \<longrightarrow> n \<le> m"
    "name \<in> {''nextsession'', ''nextchunk''} \<longrightarrow> u_kind u = UnitBare"
    "name = ''nextinode'' \<and> p_kind p \<noteq> KindBG \<longrightarrow> u_kind u = UnitBare \<and> n = 1024"
proof -
  obtain n where n: "counterDelta c = Some n"
    using assms by (cases "counterDelta c") (simp_all add: allocator_denial_def)
  note a = assms [unfolded allocator_denial_def n option.case]
  have pos: "0 < n" using a by (simp split: if_split_asm)
  have le: "n \<le> m" if "maxAlloc name = Some m" for m using a that by (simp split: if_split_asm)
  have bare: "u_kind u = UnitBare" if "name \<in> {''nextsession'', ''nextchunk''}"
    using a that by (simp split: if_split_asm)
  have ino: "u_kind u = UnitBare \<and> n = 1024" if "name = ''nextinode''" "p_kind p \<noteq> KindBG"
    using a that by (simp split: if_split_asm)
  show thesis by (rule that [OF n pos]) (use le bare ino in blast)+
qed



end
