(* ===== verification/Conn_Props.thy ===== *)
theory Conn_Props
  imports Conn Guard_Props Decide_Props
begin

section \<open>Properties of a connection\<close>

text \<open>
  What a turn does to the queue of reply slots, and that each command of the client is answered exactly once
  and in order, in every interleaving of the turns of the command goroutine and the reply goroutine.
\<close>

subsection \<open>What leaves the wire alone\<close>

definition quiet :: "pconn \<Rightarrow> pconn \<Rightarrow> bool" where
  "quiet c c' \<longleftrightarrow> c_q c' = c_q c \<and> c_fwd c' = c_fwd c \<and> c_uw c' = c_uw c \<and> c_werr c' = c_werr c \<and> c_cw c' = c_cw c \<and>
     c_up c' = c_up c \<and> c_overflow c' = c_overflow c \<and> c_revoked c' = c_revoked c \<and> c_rawmode c' = c_rawmode c \<and>
     c_txn c' = c_txn c \<and> c_subscribed c' = c_subscribed c \<and> c_units c' = c_units c"

lemma quiet_refl [simp]: "quiet c c"
  and quiet_trans: "quiet a b \<Longrightarrow> quiet b c \<Longrightarrow> quiet a c"
  by (simp_all add: quiet_def)

lemma run_done_quiet [simp]: "quiet c (run_done cx oc x c)"
  by (simp add: quiet_def run_done_def Let_def split: option.split prod.split)

lemma abandon_quiet [simp]: "quiet c (abandon cx p dn c)"
  by (simp add: abandon_def split: option.split)

lemma run_hook_quiet [simp]: "quiet c (run_hook cx h v c)"
  by (cases h) (simp_all add: quiet_def sessionHook_def idHook_def split: option.split prod.split)

lemma run_onExec_quiet [simp]: "quiet c (run_onExec x v c)"
  by (simp add: quiet_def run_onExec_def)

lemma scope_denial_quiet: "scope_denial cx p u c = (d, c') \<Longrightarrow> quiet c c'"
  by (auto simp: scope_denial_def quiet_def split: if_split_asm prod.split_asm)

lemma policy_decide_quiet: "policy_decide cx p u c = (d, tk, c') \<Longrightarrow> quiet c c'"
  by (auto simp: policy_decide_def quiet_def split: if_split_asm prod.split_asm)

lemma conn_decide_quiet:
  assumes "conn_decide cx p u c = (r, c')"
  shows "quiet c c'"
proof (cases "y_fenced cx")
  case True
  with assms show ?thesis by (simp add: conn_decide_def)
next
  case False
  obtain g u1 g1 where chk: "Check (unit_reads cx u c) p u (c_guard c) = (g, u1, g1)" by (rule prod_cases3)
  let ?c1 = "c\<lparr>c_guard := g1\<rparr>"
  obtain d2 c2 where sc: "scope_denial cx p u1 ?c1 = (d2, c2)" by (rule prod.exhaust)
  obtain d3 tk c3 where pd: "policy_decide cx p u1 c2 = (d3, tk, c3)" by (rule prod_cases3)
  have q: "quiet c ?c1" "quiet c c2" "quiet c c3"
    using quiet_trans scope_denial_quiet [OF sc] policy_decide_quiet [OF pd] by (auto simp: quiet_def)
  have "c' \<in> {?c1, c2, c3}"
    using assms False chk sc pd
    by (cases g; cases "accountingValueDenial p u1"; cases d2; cases "relaxed (u_mode u1) d3"; cases "y_replace cx u1")
      (simp_all add: conn_decide_def Let_def)
  with q show ?thesis by auto
qed

lemma exec_decide_quiet: "exec_decide cx p t u c = (r, c') \<Longrightarrow> quiet c c'"
  by (auto simp: exec_decide_def dest: conn_decide_quiet split: if_split_asm)

subsection \<open>Slots and commands are queued together\<close>

definition waiting :: "slot list \<Rightarrow> nat" where "waiting q = length (filter (\<lambda>s. sl_synth s = None) q)"

definition shown :: "slot list \<Rightarrow> nat" where "shown q = length (filter (\<lambda>s. \<not> sl_drop s) q)"

lemma waiting_simps [simp]: "waiting [] = 0" "waiting (a @ b) = waiting a + waiting b"
    "waiting (s # q) = (if sl_synth s = None then 1 else 0) + waiting q"
  and shown_simps [simp]: "shown [] = 0" "shown (a @ b) = shown a + shown b"
    "shown (s # q) = (if sl_drop s then 0 else 1) + shown q"
  by (simp_all add: waiting_def shown_def)

text \<open>\<open>n\<close> replies for the client are added to the queue, and one command is written per waiting slot.\<close>

definition queues :: "nat \<Rightarrow> pconn \<Rightarrow> pconn \<Rightarrow> bool" where
  "queues n c c' \<longleftrightarrow> (\<exists>new ws. c_q c' = c_q c @ new \<and> c_uw c' = c_uw c @ ws \<and> c_fwd c' = c_fwd c + int (waiting new) \<and>
     shown new = n \<and> (\<not> c_werr c' \<longrightarrow> \<not> c_werr c \<and> length ws = waiting new) \<and>
     (c_fwd c = 0 \<and> new \<noteq> [] \<longrightarrow> sl_synth (hd new) = None)) \<and>
     c_cw c' = c_cw c \<and> c_up c' = c_up c \<and> c_revoked c' = c_revoked c \<and> c_rawmode c' = c_rawmode c"

lemma queuesI:
  assumes "c_q c' = c_q c @ new" and "c_uw c' = c_uw c @ ws" and "c_fwd c' = c_fwd c + int (waiting new)" and "shown new = n"
    and "\<not> c_werr c' \<Longrightarrow> \<not> c_werr c \<and> length ws = waiting new"
    and "c_fwd c = 0 \<Longrightarrow> new \<noteq> [] \<Longrightarrow> sl_synth (hd new) = None"
    and "c_cw c' = c_cw c" and "c_up c' = c_up c" and "c_revoked c' = c_revoked c" and "c_rawmode c' = c_rawmode c"
  shows "queues n c c'"
  unfolding queues_def by (intro conjI exI [of _ new] exI [of _ ws] impI; (elim conjE)?; simp add: assms)

lemma quiet_queues: "quiet c c' \<Longrightarrow> queues 0 c c'"
  by (auto simp: quiet_def intro: queuesI [of _ _ "[]" "[]"])

lemma queues_refl [simp]: "queues 0 c c"
  by (rule quiet_queues) simp

lemma queues_upd [simp]:
  "queues n (c\<lparr>c_txn := t\<rparr>) c' = queues n c c'" "queues n (c\<lparr>c_watched := w\<rparr>) c' = queues n c c'"
  "queues n (c\<lparr>c_subscribed := b\<rparr>) c' = queues n c c'" "queues n (c\<lparr>c_principal := p\<rparr>) c' = queues n c c'"
  "queues n (c\<lparr>c_resp3 := b\<rparr>) c' = queues n c c'" "queues n (c\<lparr>c_engine := e\<rparr>) c' = queues n c c'"
  "queues n (c\<lparr>c_watchNo := i\<rparr>) c' = queues n c c'" "queues n (c\<lparr>c_watchAck := a\<rparr>) c' = queues n c c'"
  "queues n c (c'\<lparr>c_await := x\<rparr>) = queues n c c'"
  by (simp_all add: queues_def)

lemma queues_up: "queues n c c' \<Longrightarrow> c_up c' = c_up c" "queues n c c' \<Longrightarrow> c_revoked c' = c_revoked c"
  by (simp_all add: queues_def)

lemma queues_trans:
  assumes "queues m a b" and "queues n b c"
  shows "queues (m + n) a c"
proof -
  obtain n1 w1 where 1: "c_q b = c_q a @ n1" "c_uw b = c_uw a @ w1" "c_fwd b = c_fwd a + int (waiting n1)" "shown n1 = m"
    "\<not> c_werr b \<longrightarrow> \<not> c_werr a \<and> length w1 = waiting n1" "c_fwd a = 0 \<and> n1 \<noteq> [] \<longrightarrow> sl_synth (hd n1) = None"
    using assms(1) by (auto simp: queues_def)
  obtain n2 w2 where 2: "c_q c = c_q b @ n2" "c_uw c = c_uw b @ w2" "c_fwd c = c_fwd b + int (waiting n2)" "shown n2 = n"
    "\<not> c_werr c \<longrightarrow> \<not> c_werr b \<and> length w2 = waiting n2" "c_fwd b = 0 \<and> n2 \<noteq> [] \<longrightarrow> sl_synth (hd n2) = None"
    using assms(2) by (auto simp: queues_def)
  show ?thesis
  proof (rule queuesI [of _ _ "n1 @ n2" "w1 @ w2"])
    show "sl_synth (hd (n1 @ n2)) = None" if "c_fwd a = 0" "n1 @ n2 \<noteq> []"
      using that 1(3,6) 2(6) by (cases n1) auto
  qed (use assms 1 2 in \<open>auto simp: queues_def\<close>)
qed

lemma queues_0_left: "quiet a b \<Longrightarrow> queues n b c \<Longrightarrow> queues n a c"
  using queues_trans [OF quiet_queues] by fastforce

lemma account_sel [simp]:
  "c_q (account cx n c) = c_q c" "c_fwd (account cx n c) = c_fwd c" "c_uw (account cx n c) = c_uw c"
  "c_werr (account cx n c) = c_werr c" "c_cw (account cx n c) = c_cw c" "c_up (account cx n c) = c_up c"
  "c_revoked (account cx n c) = c_revoked c" "c_rawmode (account cx n c) = c_rawmode c" "c_txn (account cx n c) = c_txn c"
  "c_subscribed (account cx n c) = c_subscribed c" "c_units (account cx n c) = c_units c" "c_await (account cx n c) = c_await c"
  "c_id (account cx n c) = c_id c" "c_principal (account cx n c) = c_principal c"
  by (simp_all add: account_def Let_def)

lemma write_up_sel [simp]:
  "c_q (write_up cx args c) = c_q c" "c_fwd (write_up cx args c) = c_fwd c" "c_cw (write_up cx args c) = c_cw c"
  "c_up (write_up cx args c) = c_up c" "c_revoked (write_up cx args c) = c_revoked c" "c_rawmode (write_up cx args c) = c_rawmode c"
  "c_txn (write_up cx args c) = c_txn c" "c_subscribed (write_up cx args c) = c_subscribed c"
  "c_units (write_up cx args c) = c_units c" "c_overflow (write_up cx args c) = c_overflow c"
  "c_await (write_up cx args c) = c_await c" "c_id (write_up cx args c) = c_id c" "c_principal (write_up cx args c) = c_principal c"
  by (simp_all add: write_up_def)

lemma write_up_uw: "c_uw (write_up cx args c) = c_uw c @ (if c_werr (write_up cx args c) then [] else [args])"
  and write_up_werr: "c_werr c \<Longrightarrow> c_werr (write_up cx args c)"
  by (simp_all add: write_up_def)

lemma slot_sel [simp]: "sl_synth plain_slot = None" "\<not> sl_drop plain_slot" "sl_synth drop_slot = None" "sl_drop drop_slot"
    "sl_synth (synth_slot b) = Some b" "\<not> sl_drop (synth_slot b)" "sl_synth (hook_slot h) = None" "\<not> sl_drop (hook_slot h)"
  by (simp_all add: plain_slot_def drop_slot_def synth_slot_def hook_slot_def)

lemma write_up_queues:
  assumes "c_q c2 = c_q c @ new" and "c_uw c2 = c_uw c" and "c_werr c2 = c_werr c" and "c_fwd c2 = c_fwd c + int (waiting new)"
    and "shown new = n" and "waiting new = 1" and "c_fwd c = 0 \<Longrightarrow> sl_synth (hd new) = None"
    and "c_cw c2 = c_cw c" and "c_up c2 = c_up c" and "c_revoked c2 = c_revoked c" and "c_rawmode c2 = c_rawmode c"
  shows "queues n c (write_up cx args c2)"
  by (rule queuesI [of _ _ new "if c_werr (write_up cx args c2) then [] else [args]"])
    (use assms write_up_werr [of c2 cx args] in \<open>auto simp: write_up_uw [of cx args c2]\<close>)

lemma reply_queues:
  assumes "c_up c"
  shows "queues 1 c (reply cx b c)"
proof (cases "c_fwd c = 0")
  case True
  with assms show ?thesis
    by (auto simp: reply_def Let_def intro: write_up_queues [of _ _ "[drop_slot, synth_slot b]"])
next
  case False
  with assms show ?thesis
    by (intro queuesI [of _ _ "[synth_slot b]" "[]"]) (auto simp: reply_def Let_def)
qed

lemma forward_queues:
  assumes "forward cx args s c = (COk, c')" and "sl_synth s = None"
  shows "queues (if sl_drop s then 0 else 1) c c'"
  using assms by (auto simp: forward_def Let_def split: if_split_asm intro: write_up_queues [of _ _ "[s]"])

text \<open>A command that is not forwarded leaves a mark that stops the connection.\<close>

lemma forward_fails:
  "forward cx args s c = (r, c') \<Longrightarrow> \<not> c_revoked c \<Longrightarrow> \<not> c_werr c' \<Longrightarrow> \<not> c_overflow c' \<Longrightarrow> r = COk"
  by (auto simp: forward_def Let_def split: if_split_asm)

lemma account_overflow: "c_overflow c \<Longrightarrow> c_overflow (account cx n c)"
  by (simp add: account_def Let_def)

lemma reply_marks: "c_werr c \<Longrightarrow> c_werr (reply cx b c)" "c_overflow c \<Longrightarrow> c_overflow (reply cx b c)"
  by (auto simp: reply_def Let_def intro!: write_up_werr account_overflow)

lemma forward_hidden_queues: "forward_hidden cx as c = (COk, c') \<Longrightarrow> queues 0 c c'"
proof (induction as arbitrary: c)
  case (Cons a as)
  then obtain c1 where f: "forward cx a drop_slot c = (COk, c1)" "forward_hidden cx as c1 = (COk, c')"
    by (cases "forward cx a drop_slot c"; cases "fst (forward cx a drop_slot c)") auto
  show ?case using queues_trans [OF forward_queues [OF f(1)] Cons.IH [OF f(2)]] by simp
qed simp

lemma cthen_ok: "cthen m f = (COk, c') \<Longrightarrow> \<exists>c1. m = (COk, c1) \<and> f c1 = (COk, c')"
  by (cases m; cases "fst m") auto

lemma exec_slot_sel [simp]: "sl_synth (exec_slot p dn) = None" "\<not> sl_drop (exec_slot p dn)"
  by (simp_all add: exec_slot_def Let_def)

lemma exec_send_queues:
  assumes "exec_send cx p dn c = (COk, c')"
  shows "queues 1 c c'"
proof -
  from assms obtain c1 where h: "forward_hidden cx (map used_bit_args (used_ids (dn_effects dn))) c = (COk, c1)"
    and r: "(case dn_receipt dn of None \<Rightarrow> forward cx [''EXEC''] (exec_slot p dn) c1
       | Some rc \<Rightarrow> (case forward cx rc drop_slot c1 of (COk, c2) \<Rightarrow> forward cx [''EXEC''] (exec_slot p dn) c2
            | (r, c2) \<Rightarrow> (r, run_done cx (lost c2) (Some \<lparr>ud_effects = [], ud_done = unit_done p dn\<rparr>) c2))) = (COk, c')"
    unfolding exec_send_def by (auto dest!: cthen_ok)
  have "queues 1 c1 c'"
  proof (cases "dn_receipt dn")
    case None
    with r have "forward cx [''EXEC''] (exec_slot p dn) c1 = (COk, c')" by simp
    from forward_queues [OF this] show ?thesis by simp
  next
    case (Some rc)
    obtain q c2 where f: "forward cx rc drop_slot c1 = (q, c2)" by (rule prod.exhaust)
    with r Some have q: "q = COk" "forward cx [''EXEC''] (exec_slot p dn) c2 = (COk, c')" by (cases q; simp)+
    show ?thesis using queues_trans [OF forward_queues [OF f [unfolded q(1)]] forward_queues [OF q(2)]] by simp
  qed
  then show ?thesis using queues_trans [OF forward_hidden_queues [OF h]] by fastforce
qed

lemma quiet_note [simp]: "queues n (note_unit u d s c) c' = queues n c c'"
  by (simp add: queues_def note_unit_def)

lemma exec_queues:
  assumes "exec cx p t c = (COk, c')" and "c_up c"
  shows "queues 1 c c'"
proof -
  let ?c0 = "c\<lparr>c_txn := None, c_watched := [], c_trashAlloc := None\<rparr>"
  obtain r c1 where d: "exec_decide cx p t (exec_unit cx t c) ?c0 = (r, c1)" by (rule prod.exhaust)
  obtain dn where r: "r = Some dn" using assms(1) d by (cases r) (simp_all add: exec_def Let_def)
  have q: "queues 0 c c1" using quiet_queues [OF exec_decide_quiet [OF d]] by (simp add: queues_def)
  then have up: "c_up c1" using assms(2) by (simp add: queues_def)
  have "queues 1 c1 c'"
  proof (cases "audited cx dn")
    case None
    with assms(1) d r obtain xs where "exec_send cx p dn (note_unit (dn_unit dn) None xs c1) = (COk, c')"
      by (auto simp: exec_def Let_def)
    from exec_send_queues [OF this] show ?thesis by simp
  next
    case (Some dd)
    let ?c2 = "note_unit (dn_unit dn) (Some dd) [] (abandon cx p dn c1)"
    from assms(1) d r Some obtain c3 where f: "forward cx [''DISCARD''] drop_slot ?c2 = (COk, c3)" and c': "c' = reply cx (Reply dd) c3"
      by (auto simp: exec_def Let_def dest!: cthen_ok)
    have a: "queues 0 c1 c3" using forward_queues [OF f] queues_trans [OF quiet_queues [OF abandon_quiet]] by fastforce
    then have "c_up c3" using up by (simp add: queues_def)
    from queues_trans [OF a reply_queues [OF this]] show ?thesis by (simp add: c')
  qed
  with q show ?thesis using queues_trans by fastforce
qed

lemma gateBare_queues:
  assumes "gateBare cx p args info c = (COk, c')" and "c_up c"
  shows "queues 1 c c'"
proof -
  let ?u = "newUnit cx UnitBare [\<lparr>cmd_args = args, cmd_info = info\<rparr>] c"
  obtain r c1 where d: "conn_decide cx p ?u c = (r, c1)" by (rule prod.exhaust)
  obtain dn where r: "r = Some dn" using assms(1) d by (cases r) (simp_all add: gateBare_def Let_def)
  have q: "queues 0 c c1" by (rule quiet_queues [OF conn_decide_quiet [OF d]])
  have "queues 1 c1 c'"
  proof (cases "audited cx dn")
    case None
    with assms(1) d r obtain a s u x where f: "forward cx a s (note_unit u None x c1) = (COk, c')"
      and s: "sl_synth s = None" "\<not> sl_drop s"
      by (auto simp: gateBare_def Let_def)
    from forward_queues [OF f s(1)] s(2) show ?thesis by simp
  next
    case (Some dd)
    let ?c2 = "note_unit (dn_unit dn) (Some dd) [] (abandon cx p dn c1)"
    have a: "queues 0 c1 ?c2" using quiet_queues [OF abandon_quiet, of c1] by (simp add: queues_def note_unit_def)
    then have "c_up ?c2" using queues_up [OF q] queues_up [OF a] assms(2) by simp
    from queues_trans [OF a reply_queues [OF this, of cx "Reply dd"]] show ?thesis
      using assms(1) d r Some by (simp add: gateBare_def Let_def)
  qed
  with q show ?thesis using queues_trans by fastforce
qed

subsection \<open>Every command queues one reply\<close>

lemma ensureUpstream_up: "c_up c \<Longrightarrow> ensureUpstream cx c = (True, c)"
  by (simp add: ensureUpstream_def)

lemma authenticate_queues:
  assumes "authenticate cx user pass c = (r, c')" and "c_up c"
  shows "if r then queues 0 c c' else queues 1 c c'"
  using assms reply_queues [OF assms(2)] by (auto simp: authenticate_def quiet_queues quiet_def split: option.split_asm)

lemma authenticate_keeps:
  assumes "authenticate cx user pass c = (True, c')"
  shows "c_revoked c' = c_revoked c \<and> c_up c' = c_up c"
  using assms by (auto simp: authenticate_def split: option.split_asm)

lemma auth_queues:
  assumes "auth cx args c = (r, c')" and "c_up c" and "\<not> c_revoked c" and "\<not> c_werr c'" and "\<not> c_overflow c'"
  shows "queues 1 c c'"
proof (cases "length args \<noteq> 2 \<and> length args \<noteq> 3")
  case True
  with assms(1) reply_queues [OF assms(2)] show ?thesis by (auto simp: auth_def)
next
  case False
  then obtain user pass where ar: "auth cx args c = (case authenticate cx user pass c of
           (False, c1) \<Rightarrow> (True, c1)
         | (True, c1) \<Rightarrow>
             (case ensureUpstream cx c1 of
                (False, c2) \<Rightarrow> (False, c2)
              | (True, c2) \<Rightarrow>
                  (case forward cx [''CLIENT'', ''SETNAME'', upstreamName c2] drop_slot c2 of
                     (COk, c3) \<Rightarrow> (True, reply cx (''+OK'' @ CRLF) c3)
                   | (r, c3) \<Rightarrow> (False, c3))))"
    by (auto simp: auth_def)
  obtain b c1 where a: "authenticate cx user pass c = (b, c1)" by (rule prod.exhaust)
  show ?thesis
  proof (cases b)
    case False
    with ar a assms(1) authenticate_queues [OF a assms(2)] show ?thesis by simp
  next
    case True
    then have q: "queues 0 c c1" using authenticate_queues [OF a assms(2)] by simp
    have up: "c_up c1" "\<not> c_revoked c1" using queues_up [OF q] assms(2,3) by simp_all
    obtain x c3 where f: "forward cx [''CLIENT'', ''SETNAME'', upstreamName c1] drop_slot c1 = (x, c3)" by (rule prod.exhaust)
    have c': "(r, c') = (case x of COk \<Rightarrow> (True, reply cx (''+OK'' @ CRLF) c3) | _ \<Rightarrow> (False, c3))"
      using ar a True assms(1) f by (cases x) (simp_all add: ensureUpstream_up [OF up(1)])
    then have "\<not> c_werr c3" "\<not> c_overflow c3" using assms(4,5) reply_marks [of c3 cx "''+OK'' @ CRLF"] by (cases x; auto)+
    from forward_fails [OF f up(2) this] have x: "x = COk" .
    have q3: "queues 0 c1 c3" using forward_queues [OF f [unfolded x]] by simp
    then have "queues 1 c3 c'" using reply_queues [of c3 cx "''+OK'' @ CRLF"] queues_up [OF q3] up c' x by simp
    with queues_trans [OF queues_trans [OF q q3]] show ?thesis by fastforce
  qed
qed

lemma forward_any:
  assumes "forward cx a plain_slot c = (x, c')" and "\<not> c_revoked c" and "\<not> c_werr c'" and "\<not> c_overflow c'"
  shows "queues 1 c c'"
  using forward_queues [OF assms(1) [unfolded forward_fails [OF assms]]] by simp

lemma hello_send_queues:
  assumes "hello_send cx args c = (r, c')" and "c_up c" and "\<not> c_revoked c" and "\<not> c_werr c'" and "\<not> c_overflow c'"
  shows "queues 1 c c'"
proof (cases "length args \<le> 1")
  case True
  with assms(1) obtain x where "forward cx [''HELLO''] plain_slot c = (x, c')"
    by (auto simp: hello_send_def ensureUpstream_up [OF assms(2)] split: prod.split_asm)
  from forward_any [OF this assms(3-)] show ?thesis .
next
  case False
  let ?c = "c\<lparr>c_resp3 := (args ! 1 = ''3'')\<rparr>"
  from False assms(1) obtain x where "forward cx [''HELLO'', args ! 1, ''SETNAME'', upstreamName c] plain_slot ?c = (x, c')"
    by (auto simp: hello_send_def ensureUpstream_up [OF assms(2)] split: prod.split_asm)
  from forward_any [OF this _ assms(4,5)] show ?thesis using assms(3) by simp
qed

lemma hello_queues:
  assumes "hello cx args c = (r, c')" and "c_up c" and "\<not> c_revoked c" and "\<not> c_werr c'" and "\<not> c_overflow c'"
  shows "queues 1 c c'"
proof -
  note rq = reply_queues [OF assms(2)]
  show ?thesis
  proof (cases "1 < length args \<and> args ! 1 \<noteq> ''2'' \<and> args ! 1 \<noteq> ''3''")
    case True
    with assms(1) rq show ?thesis by (auto simp: hello_def)
  next
    case False
    note nv = this
    show ?thesis
    proof (cases "hello_options (drop 2 args) None")
      case (Inl msg)
      with nv assms(1) rq show ?thesis by (auto simp: hello_def)
    next
      case (Inr cred)
      show ?thesis
      proof (cases cred)
        case None
        show ?thesis
        proof (cases "c_principal c = None")
          case True
          with nv Inr None assms(1) rq show ?thesis by (auto simp: hello_def)
        next
          case False
          with nv Inr None assms(1) have "hello_send cx args c = (r, c')" by (auto simp: hello_def)
          from hello_send_queues [OF this assms(2-)] show ?thesis .
        qed
      next
        case (Some up)
        obtain user pass b c1 where x: "up = (user, pass)" and a: "authenticate cx user pass c = (b, c1)" by (metis prod.exhaust)
        show ?thesis
        proof (cases b)
          case False
          with nv Inr Some x a assms(1) authenticate_queues [OF a assms(2)] show ?thesis by (auto simp: hello_def)
        next
          case True
          then have q: "queues 0 c c1" using authenticate_queues [OF a assms(2)] by simp
          have h: "hello_send cx args c1 = (r, c')" using nv Inr Some x a True assms(1) by (auto simp: hello_def)
          have "queues 1 c1 c'" by (rule hello_send_queues [OF h _ _ assms(4,5)]) (use queues_up [OF q] assms(2,3) in simp_all)
          with q show ?thesis using queues_trans by fastforce
        qed
      qed
    qed
  qed
qed

lemma selectDB_queues:
  assumes "selectDB cx p args c = (COk, c')" and "c_up c"
  shows "queues 1 c c'"
proof (cases "select_arg args")
  case None
  with assms(1) have "forward cx args plain_slot c = (COk, c')" by (simp add: selectDB_def)
  from forward_queues [OF this] show ?thesis by simp
next
  case (Some n)
  show ?thesis
  proof (cases "p_kind p \<noteq> KindAdmin \<and> \<not> dbAllowed cx n")
    case True
    with assms(1) Some reply_queues [OF assms(2)] show ?thesis by (auto simp: selectDB_def)
  next
    case False
    with assms(1) Some obtain c1 where "forward cx args (hook_slot HookSelect) c = (COk, c1)" and c': "c' = c1\<lparr>c_await := Some n\<rparr>"
      by (auto simp: selectDB_def dest!: cthen_ok split: if_split_asm)
    from forward_queues [OF this(1)] c' show ?thesis by simp
  qed
qed

lemma subscribe_queues:
  assumes "subscribe cx args name c = (COk, c')"
  shows "queues 1 c c'"
proof (cases "name = ''PUBSUB''")
  case True
  with assms have "forward cx args plain_slot c = (COk, c')" by (simp add: subscribe_def)
  from forward_queues [OF this] show ?thesis by simp
next
  case False
  show ?thesis
  proof (cases "c_resp3 c")
    case True
    with False assms obtain s where f: "forward cx args s c = (COk, c')" "sl_synth s = None" "\<not> sl_drop s"
      by (auto simp: subscribe_def Let_def)
    from forward_queues [OF f(1,2)] f(3) show ?thesis by simp
  next
    case no3: False
    with False assms have "forward cx args (plain_slot\<lparr>sl_toRaw := True\<rparr>) (c\<lparr>c_subscribed := True\<rparr>) = (COk, c')"
      by (simp add: subscribe_def)
    from forward_queues [OF this] show ?thesis by simp
  qed
qed

lemma HandleLocal_answers: "args \<noteq> [] \<Longrightarrow> \<exists>b e'. HandleLocal cx p args e = (Some b, e')"
  by (auto simp: HandleLocal_def Let_def split: prod.split)

lemma local_cmd_queues:
  assumes "c_up c" and "args \<noteq> []"
  shows "queues 1 c (local_cmd cx p args c)"
proof -
  obtain b e where h: "HandleLocal (y_local cx) p args (c_engine c) = (Some b, e)" using HandleLocal_answers [OF assms(2)] by blast
  have "queues 1 c (reply cx b (c\<lparr>c_engine := e\<rparr>))" using reply_queues [of "c\<lparr>c_engine := e\<rparr>" cx b] assms(1) by simp
  with reply_queues [OF assms(1)] show ?thesis by (simp add: local_cmd_def Let_def h)
qed

lemma watch_cmd_queues:
  assumes "watch_cmd cx args c = (COk, c')"
  shows "queues 1 c c'"
  using forward_queues [OF assms [unfolded watch_cmd_def Let_def]] by simp

lemma class_cmd_queues:
  assumes "class_cmd cx p args info c = (COk, c')" and "c_up c" and "args \<noteq> []"
  shows "queues 1 c c'"
proof -
  note cmd = assms(1) [unfolded class_cmd_def]
  show ?thesis
  proof (cases "c_class info = ClassForbidden \<or> c_class info = ClassLocal")
    case True
    with cmd reply_queues [OF assms(2)] local_cmd_queues [OF assms(2,3)] show ?thesis by auto
  next
    case False
    show ?thesis
    proof (cases "c_class info = ClassPubSub")
      case True
      with cmd subscribe_queues show ?thesis by simp
    next
      case np: False
      show ?thesis
      proof (cases "needsGate info")
        case True
        with False np cmd gateBare_queues [OF _ assms(2)] show ?thesis by simp
      next
        case ng: False
        with False np cmd have "forward cx args plain_slot c = (COk, c')" by simp
        from forward_queues [OF this] show ?thesis by simp
      qed
    qed
  qed
qed

lemma forward_plain: "forward cx a plain_slot c = (COk, c') \<Longrightarrow> queues 1 c c'"
  using forward_queues [of cx a plain_slot c c'] by simp

lemma bare_cmd_queues:
  assumes "bare_cmd cx p args info c = (COk, c')" and "c_up c" and "args \<noteq> []" and "\<not> c_revoked c"
    and "\<not> c_werr c'" and "\<not> c_overflow c'"
  shows "queues 1 c c'"
proof -
  have au: "queues 1 c (snd (auth cx args c))" if "c' = snd (auth cx args c)"
    using auth_queues [OF _ assms(2,4), of cx args "fst (auth cx args c)" c'] assms(5,6) that by simp
  have he: "queues 1 c (snd (hello cx args c))" if "c' = snd (hello cx args c)"
    using hello_queues [OF _ assms(2,4), of cx args "fst (hello cx args c)" c'] assms(5,6) that by simp
  show ?thesis
    using assms(1) unfolding bare_cmd_def Let_def
    by (auto split: if_split_asm dest: forward_plain selectDB_queues [OF _ assms(2)] watch_cmd_queues
        class_cmd_queues [OF _ assms(2,3)] intro: au [simplified] he [simplified])
qed

lemma inTxn_queues:
  assumes "inTxn cx p t args info c = (COk, c')" and "c_up c"
  shows "queues 1 c c'"
proof -
  have r: "queues 1 c (reply cx b (c\<lparr>c_txn := x\<rparr>))" for b x using reply_queues [of "c\<lparr>c_txn := x\<rparr>" cx b] assms(2) by simp
  show ?thesis
    using assms(1) exec_queues [OF _ assms(2)] r unfolding inTxn_def Let_def
    by (auto split: if_split_asm dest: forward_plain)
qed

lemma roArgs_Nil [simp]: "roArgs args = [] \<longleftrightarrow> args = []"
  by (simp add: roArgs_def)

lemma command_queues:
  assumes "conn_command cx args c = (COk, c')" and "c_up c" and "\<not> c_subscribed c" and "args \<noteq> []"
    and "\<not> c_werr c'" and "\<not> c_overflow c'"
  shows "queues 1 c c'"
proof -
  have nr: "\<not> c_revoked c" using assms(1) by (auto simp: conn_command_def)
  with assms(1,3,4) obtain info a p where d: "dispatch cx a info c = (COk, c')" "a \<noteq> []" "c_principal c = Some p"
    by (auto simp: conn_command_def dispatch_def split: option.split_asm if_split_asm)
  show ?thesis
  proof (cases "c_txn c")
    case None
    with d assms(3) have "bare_cmd cx p a info c = (COk, c')" by (simp add: dispatch_def)
    from bare_cmd_queues [OF this assms(2) d(2) nr assms(5,6)] show ?thesis .
  next
    case (Some t)
    with d assms(3) have "inTxn cx p t a info c = (COk, c')" by (simp add: dispatch_def)
    from inTxn_queues [OF this assms(2)] show ?thesis .
  qed
qed

subsection \<open>Relaying\<close>

text \<open>A turn of the reply goroutine takes slots from the front: a waiting one, if its frame is no push, and then the proxy-made replies.\<close>

definition takes :: "nat \<Rightarrow> pconn \<Rightarrow> pconn \<Rightarrow> bool" where
  "takes k c c' \<longleftrightarrow> k \<le> length (c_q c) \<and> map sl_synth (c_q c') = map sl_synth (drop k (c_q c)) \<and>
     map sl_drop (c_q c') = map sl_drop (drop k (c_q c)) \<and> c_fwd c' = c_fwd c - int (waiting (take k (c_q c))) \<and>
     c_uw c' = c_uw c \<and> c_werr c' = c_werr c \<and> c_up c' = c_up c \<and> c_revoked c' = c_revoked c"

lemma waiting_map: "waiting q = length (filter (\<lambda>x. x = None) (map sl_synth q))"
  by (simp add: waiting_def filter_map o_def)

lemma takes_trans:
  assumes "takes j a b" and "takes k b c"
  shows "takes (j + k) a c"
proof -
  have s: "map sl_synth (c_q b) = drop j (map sl_synth (c_q a))" and d: "map sl_drop (c_q b) = drop j (map sl_drop (c_q a))"
    using assms(1) by (simp_all add: takes_def drop_map)
  have l: "length (c_q b) = length (c_q a) - j" using arg_cong [OF s, of length] by simp
  have w: "waiting (take k (c_q b)) = waiting (take k (drop j (c_q a)))"
    unfolding waiting_map take_map [symmetric] drop_map [symmetric] s ..
  have w2: "waiting (take (j + k) (c_q a)) = waiting (take j (c_q a)) + waiting (take k (drop j (c_q a)))"
    by (simp add: take_add)
  have "map sl_synth (c_q c) = drop k (map sl_synth (c_q b))" "map sl_drop (c_q c) = drop k (map sl_drop (c_q b))"
    using assms(2) by (simp_all add: takes_def drop_map)
  then have m: "map sl_synth (c_q c) = map sl_synth (drop (j + k) (c_q a))" "map sl_drop (c_q c) = map sl_drop (drop (j + k) (c_q a))"
    unfolding s d by (simp_all add: drop_map add.commute)
  have f: "c_fwd c = c_fwd a - int (waiting (take (j + k) (c_q a)))" using assms w w2 by (simp add: takes_def)
  have "j \<le> length (c_q a)" "k \<le> length (c_q b)" using assms by (simp_all add: takes_def)
  with l have n: "j + k \<le> length (c_q a)" by linarith
  show ?thesis using m f n assms unfolding takes_def by simp
qed

lemma takes_quiet: "quiet c c' \<Longrightarrow> takes 0 c c'"
  by (simp add: takes_def quiet_def)

lemma takes_cw [simp]: "takes k c (c'\<lparr>c_cw := b\<rparr>) = takes k c c'" "takes k c (c'\<lparr>c_subs := m\<rparr>) = takes k c c'"
  by (simp_all add: takes_def)

lemma write_synth1_takes:
  assumes "c_q c = s # q" and "sl_synth s = Some b"
  shows "takes 1 c (write_synth1 cx b c)" and "c_q (write_synth1 cx b c) = q"
  using assms by (simp_all add: takes_def write_synth1_def Let_def)

text \<open>After a turn the head of the queue, if any, waits for Redis.\<close>

definition head_waits :: "slot list \<Rightarrow> bool" where
  "head_waits q \<longleftrightarrow> (case q of [] \<Rightarrow> True | s # _ \<Rightarrow> sl_synth s = None)"

lemma writeSynth_takes:
  "\<exists>k. takes k c (writeSynth cx c) \<and> head_waits (c_q (writeSynth cx c))"
proof (induction "c_q c" arbitrary: c)
  case Nil
  then show ?case by (intro exI [of _ 0]) (simp add: writeSynth_def takes_def head_waits_def Nil [symmetric])
next
  case (Cons s q)
  show ?case
  proof (cases "sl_synth s")
    case None
    then show ?thesis by (intro exI [of _ 0]) (simp add: writeSynth_def takes_def head_waits_def Cons.hyps(2) [symmetric])
  next
    case (Some b)
    note t = write_synth1_takes [OF Cons.hyps(2) [symmetric] Some, of cx]
    have e: "writeSynth cx c = writeSynth cx (write_synth1 cx b c)"
      by (simp add: writeSynth_def Cons.hyps(2) [symmetric] Some t(2))
    obtain k where "takes k (write_synth1 cx b c) (writeSynth cx (write_synth1 cx b c))"
      "head_waits (c_q (writeSynth cx (write_synth1 cx b c)))"
      using Cons.hyps(1) [OF t(2) [symmetric]] by blast
    with takes_trans [OF t(1)] e show ?thesis by metis
  qed
qed

lemma push_slot_takes: "\<exists>k. takes k c (push_slot cx kd n c)"
proof (cases "c_q c")
  case Nil
  then show ?thesis by (intro exI [of _ 0]) (simp add: push_slot_def takes_def)
next
  case (Cons h q)
  show ?thesis
  proof (cases "sl_synth h = None \<and> sl_sub h = kd \<and> (if sl_subN h < 0 then int (max n 1) else sl_subN h) - 1 \<le> 0")
    case True
    with Cons show ?thesis by (intro exI [of _ 1]) (auto simp: push_slot_def takes_def Let_def)
  next
    case False
    with Cons show ?thesis by (intro exI [of _ 0]) (auto simp: push_slot_def takes_def Let_def)
  qed
qed

lemma pushFrame_takes: "\<exists>k. takes k c (pushFrame cx v c)"
  using push_slot_takes by (auto simp: pushFrame_def Let_def takes_quiet split: list.split option.split intro: exI [of _ 0])

lemma slot_frame_quiet: "slot_frame cx sz s ur c = (r, c') \<Longrightarrow> quiet c c'"
  by (auto simp: slot_frame_def Let_def split: if_split_asm sum.split_asm prod.split_asm option.split_asm)

lemma frame_takes:
  assumes "frame cx sz ur c = (Inr r, c')" and "\<not> c_rawmode c"
  shows "\<exists>k. takes k c c'"
proof (cases "hd ur = CHR ''>''")
  case True
  with assms obtain v where "c' = (pushFrame cx v c)\<lparr>c_cw := c_cw c'\<rparr>"
    by (auto simp: frame_def Let_def split: if_split_asm sum.split_asm prod.split_asm)
  then show ?thesis using pushFrame_takes [of c cx v] takes_cw(1) by metis
next
  case False
  with assms obtain s q info b c2 where q: "c_q c = s # q" "sl_synth s = None"
    and f: "slot_frame cx sz s ur (account cx (- slotCost) (c\<lparr>c_q := q, c_fwd := c_fwd c - 1, c_rawmode := sl_toRaw s\<rparr>)) = (Inr (info, b, r), c2)"
    and c': "c' = (let c3 = (if sl_drop s then c2 else c2\<lparr>c_cw := c_cw c2 @ b\<rparr>) in run_done cx (frame_outcome s info c3) (sl_done s) c3)"
    by (auto simp: frame_def Let_def split: if_split_asm sum.split_asm prod.split_asm list.split_asm)
  have "takes 1 c (account cx (- slotCost) (c\<lparr>c_q := q, c_fwd := c_fwd c - 1, c_rawmode := sl_toRaw s\<rparr>))"
    using q by (simp add: takes_def)
  from takes_trans [OF this takes_quiet [OF slot_frame_quiet [OF f]]] have "takes 1 c c2" by simp
  then have t: "takes 1 c (if sl_drop s then c2 else c2\<lparr>c_cw := c_cw c2 @ b\<rparr>)" by simp
  from takes_trans [OF t takes_quiet [OF run_done_quiet]] show ?thesis unfolding c' Let_def by (intro exI)
qed

lemma reply_turn_takes:
  assumes "reply_turn cx sz ur c = (Inr r, c')" and "\<not> c_rawmode c"
  shows "\<exists>k. takes k c c' \<and> head_waits (c_q c')"
proof -
  obtain c1 where f: "frame cx sz ur c = (Inr r, c1)" and c': "c' = writeSynth cx c1"
    using assms(1) by (auto simp: reply_turn_def split: prod.split_asm sum.split_asm)
  obtain j where "takes j c c1" using frame_takes [OF f assms(2)] by blast
  moreover obtain k where "takes k c1 c'" "head_waits (c_q c')" using writeSynth_takes [of c1 cx] c' by blast
  ultimately show ?thesis using takes_trans by blast
qed

subsection \<open>Order of the replies\<close>

text \<open>
  A run of a connection after its login: the connection, the number of commands read from the client, for
  every queued slot the command it belongs to, the commands answered so far, and the number of upstream
  commands whose reply has arrived.  A command waits for the reply to an earlier SELECT; a connection that
  became a RESP2 pub/sub stream, or whose write to Redis failed, leaves this protocol.  Other connections change the shared parts at any time.
\<close>

type_synonym conn_run = "pconn \<times> nat \<times> nat list \<times> nat list \<times> nat"

definition answered_tags :: "slot list \<Rightarrow> nat list \<Rightarrow> nat list" where
  "answered_tags q tags = map snd (filter (\<lambda>(dropped, i). \<not> dropped) (zip (map sl_drop q) tags))"

inductive conn_step :: "conn_run \<Rightarrow> conn_run \<Rightarrow> bool" where
  client: "command_turn cx args c = (COk, c') \<Longrightarrow> args \<noteq> [] \<Longrightarrow> c_await c = None \<Longrightarrow> \<not> c_subscribed c \<Longrightarrow> \<not> c_werr c' \<Longrightarrow>
    conn_step (c, n, tags, ans, acks) (c', n + 1, tags @ replicate (length (c_q c') - length (c_q c)) n, ans, acks)"
| relay: "reply_turn cx sz ur c = (Inr r, c') \<Longrightarrow> \<not> c_rawmode c \<Longrightarrow> k = length (c_q c) - length (c_q c') \<Longrightarrow>
    conn_step (c, n, tags, ans, acks)
      (c', n, drop k tags, ans @ answered_tags (take k (c_q c)) tags, acks + waiting (take k (c_q c)))"
| outside: "conn_step (c, n, tags, ans, acks)
    (c\<lparr>c_revoked := rv, c_guard := g, c_engine := e, c_sess := ss, c_slices := sl, c_inodes := ino\<rparr>, n, tags, ans, acks)"

definition in_step :: "nat \<Rightarrow> conn_run \<Rightarrow> bool" where
  "in_step base s \<longleftrightarrow> (case s of (c, n, tags, dn, acks) \<Rightarrow> c_up c \<and> \<not> c_werr c \<and>
     length tags = length (c_q c) \<and> dn @ answered_tags (c_q c) tags = [0..<n] \<and> c_fwd c = int (waiting (c_q c)) \<and>
     head_waits (c_q c) \<and> length (c_uw c) = base + acks + waiting (c_q c))"

lemma answered_tags_append:
  "length tags = length q \<Longrightarrow> answered_tags (q @ q') (tags @ tags') = answered_tags q tags @ answered_tags q' tags'"
  by (simp add: answered_tags_def)

lemma answered_tags_new: "answered_tags q (replicate (length q) n) = replicate (shown q) n"
  by (induction q) (simp_all add: answered_tags_def)

lemma command_turn_ok:
  assumes "command_turn cx args c = (COk, c')" and "args \<noteq> []"
  shows "conn_command cx args c = (COk, c') \<and> \<not> c_overflow c'"
  using assms by (auto simp: command_turn_def dest!: cthen_ok split: if_split_asm)

lemma client_in_step:
  assumes "command_turn cx args c = (COk, c')" and "args \<noteq> []" and "\<not> c_subscribed c" and "\<not> c_werr c'"
    and "in_step base (c, n, tags, dn, acks)"
  shows "in_step base (c', n + 1, tags @ replicate (length (c_q c') - length (c_q c)) n, dn, acks)"
proof -
  have i: "c_up c" "length tags = length (c_q c)" "dn @ answered_tags (c_q c) tags = [0..<n]" "c_fwd c = int (waiting (c_q c))"
    "head_waits (c_q c)" "length (c_uw c) = base + acks + waiting (c_q c)"
    using assms(5) by (simp_all add: in_step_def)
  note t = command_turn_ok [OF assms(1,2)]
  have q: "queues 1 c c'" by (rule command_queues [OF t [THEN conjunct1] i(1) assms(3,2,4) t [THEN conjunct2]])
  then obtain new ws where n: "c_q c' = c_q c @ new" "c_uw c' = c_uw c @ ws" "c_fwd c' = c_fwd c + int (waiting new)"
    "shown new = 1" "length ws = waiting new" "c_fwd c = 0 \<and> new \<noteq> [] \<longrightarrow> sl_synth (hd new) = None"
    using assms(4) by (auto simp: queues_def)
  have h: "head_waits (c_q c')" using i(4,5) n(1,6) by (cases "c_q c"; cases new) (auto simp: head_waits_def)
  have a: "dn @ answered_tags (c_q c') (tags @ replicate (length new) n) = [0..<n + 1]"
    using i(2,3) n(1,4) by (simp add: answered_tags_append answered_tags_new flip: append_assoc)
  show ?thesis using i n h a queues_up [OF q] assms(4) by (simp add: in_step_def)
qed

lemma relay_in_step:
  assumes "reply_turn cx sz ur c = (Inr r, c')" and "\<not> c_rawmode c" and "k = length (c_q c) - length (c_q c')"
    and "in_step base (c, n, tags, dn, acks)"
  shows "in_step base (c', n, drop k tags, dn @ answered_tags (take k (c_q c)) tags, acks + waiting (take k (c_q c)))"
proof -
  obtain j where t: "takes j c c'" and h: "head_waits (c_q c')" using reply_turn_takes [OF assms(1,2)] by blast
  have m: "map sl_synth (c_q c') = map sl_synth (drop j (c_q c))" "map sl_drop (c_q c') = map sl_drop (drop j (c_q c))"
    "j \<le> length (c_q c)" using t by (simp_all add: takes_def)
  have l: "length (c_q c') = length (c_q c) - j" using arg_cong [OF m(1), of length] by simp
  with m(3) assms(3) have k: "k = j" by simp
  have i: "length tags = length (c_q c)" "dn @ answered_tags (c_q c) tags = [0..<n]" "c_fwd c = int (waiting (c_q c))"
    "length (c_uw c) = base + acks + waiting (c_q c)"
    using assms(4) by (simp_all add: in_step_def)
  have "answered_tags (take k (c_q c) @ drop k (c_q c)) (take k tags @ drop k tags) =
      answered_tags (take k (c_q c)) (take k tags) @ answered_tags (drop k (c_q c)) (drop k tags)"
    by (rule answered_tags_append) (simp add: i(1))
  moreover have "answered_tags (take k (c_q c)) (take k tags) = answered_tags (take k (c_q c)) tags"
    using zip_append2 [of "map sl_drop (take k (c_q c))" "take k tags" "drop k tags"] m(3) k i(1) by (simp add: answered_tags_def)
  moreover have "answered_tags (c_q c') (drop k tags) = answered_tags (drop k (c_q c)) (drop k tags)"
    unfolding answered_tags_def m(2) k ..
  ultimately have a: "(dn @ answered_tags (take k (c_q c)) tags) @ answered_tags (c_q c') (drop k tags) = [0..<n]"
    using i(2) by simp
  have "waiting (c_q c') = waiting (drop k (c_q c))" unfolding waiting_map m(1) k ..
  moreover have "waiting (c_q c) = waiting (take k (c_q c)) + waiting (drop k (c_q c))"
    using waiting_simps(2) [of "take k (c_q c)" "drop k (c_q c)"] by simp
  ultimately show ?thesis using a h l i k t assms(4) by (simp add: in_step_def takes_def)
qed

lemma conn_step_in_step: "conn_step s s' \<Longrightarrow> in_step base s \<Longrightarrow> in_step base s'"
proof (induction rule: conn_step.induct)
  case (client cx args c c' n tags ans acks)
  show ?case by (rule client_in_step [OF client(1,2,4-6)])
next
  case (relay cx sz ur c r c' k n tags ans acks)
  show ?case by (rule relay_in_step [OF relay])
next
  case (outside c n tags ans acks)
  then show ?case by (simp add: in_step_def)
qed


subsection \<open>A sample connection\<close>

definition sample_cx :: conn_ctx where
  "sample_cx = \<lparr>y_reads = sample_reads, y_decide = sample_ctx,
     y_local = \<lparr>lx_quote = id, lx_echo = id, lx_side = sample_side, lx_now = 0, lx_ds = Delivered, lx_other = (\<lambda>_ _ e. e)\<rparr>,
     y_person = (\<lambda>_. None), y_inForce = False, y_mode = ModeEnforce, y_fenced = False, y_leaseEngine = True, y_singleton = False,
     y_replace = (\<lambda>_. (None, None)), y_audit = (\<lambda>_. None), y_special = (\<lambda>_. []), y_auth = (\<lambda>user _. if user = ''ann'' then Some ann else None),
     y_dial = True, y_flush = True, y_write = (\<lambda>_. True), y_ack = True, y_idle = False, y_inodeOwner = (\<lambda>_. Inr None),
     y_inodeMark = Inr 0, y_inodeScript = [], y_claim = (\<lambda>_. (Delivered, Delivered)), y_record = Delivered, y_now = 0,
     y_ds = (\<lambda>_. Delivered), y_kill = None, y_ticket = id, y_allowedDBs = [1], y_maxBytes = 67108864, y_maxReplies = 65536\<rparr>"

definition sample_conn :: pconn where
  "sample_conn = \<lparr>c_id = 1, c_up = False, c_uw = [], c_werr = False, c_cw = [], c_revoked = False, c_q = [], c_fwd = 0,
     c_rawmode = False, c_qBytes = 0, c_overflow = False, c_subs = [], c_principal = None, c_resp3 = False, c_subscribed = False,
     c_db = 1, c_await = None, c_txn = None, c_watched = [], c_watchNo = 0, c_watchAck = None, c_upID = 0, c_trashAlloc = None,
     c_guard = NewGuard, c_engine = ann_engine, c_sess = \<lparr>rs_cache = [], rs_hash = []\<rparr>, c_slices = \<lparr>rr_cache = [], rr_zset = []\<rparr>,
     c_inodes = \<lparr>rr_cache = [], rr_zset = []\<rparr>, c_units = []\<rparr>"

definition ann_conn :: pconn where "ann_conn = sample_conn\<lparr>c_up := True, c_principal := Some ann\<rparr>"

text \<open>A forbidden command: the proxy wakes the reply goroutine with its own PING and answers after its reply.\<close>

definition monitor_reply :: bytes where
  "monitor_reply = Reply (refuse ReasonAdminOnly (''MONITOR breaks the proxy'' @ [CHR 0x27] @ ''s reply stream''))"

lemma monitor_turn:
  "command_turn sample_cx [''MONITOR''] ann_conn = (COk, ann_conn\<lparr>c_uw := [pingArgs], c_q := [drop_slot, synth_slot monitor_reply],
     c_fwd := 1, c_qBytes := 2 * slotCost + int (length monitor_reply)\<rparr>)"
proof -
  have k: "Classify [''MONITOR''] = Some (mk_command ''MONITOR'' ClassForbidden)" by code_simp
  have l: "length monitor_reply < 1000" by code_simp
  show ?thesis using l
    by (simp add: command_turn_def conn_command_def k mk_command_def dispatch_def ann_conn_def sample_conn_def bare_cmd_def class_cmd_def
        reply_def account_def write_up_def sample_cx_def slotCost_def monitor_reply_def [symmetric, simplified])
qed

lemma pong_turn:
  "\<exists>c. reply_turn sample_cx 64 (''+PONG'' @ CRLF) (ann_conn\<lparr>c_uw := [pingArgs], c_q := [drop_slot, synth_slot monitor_reply],
     c_fwd := 1, c_qBytes := b\<rparr>) = (Inr [], c) \<and> c_q c = [] \<and> c_cw c = monitor_reply"
proof -
  have k: "CopyFrame 64 (''+PONG'' @ CRLF) = Inr (\<lparr>f_type = CHR ''+'', f_null = False\<rparr>, ''+PONG'' @ CRLF, [])" by code_simp
  show ?thesis
    by (simp add: reply_turn_def frame_def slot_frame_def k [simplified] ann_conn_def sample_conn_def drop_slot_def plain_slot_def
        run_done_def account_def writeSynth_def write_synth1_def synth_slot_def Let_def)
qed


end
