(* ===== verification/Conn_Gate.thy ===== *)
theory Conn_Gate
  imports Conn_Props
begin

section \<open>What Redis executes\<close>

text \<open>
  The commands a connection writes to Redis, run by the transaction rules of Redis: a command is rejected
  (unknown, or with a wrong number of arguments), queued between MULTI and EXEC, or executed; a rejected
  command inside MULTI makes its EXEC fail.  What Redis rejects and which EXEC a WATCH aborts are parameters.
\<close>

record redis_txn =
  rt_n :: nat
  rt_multi :: bool
  rt_dirty :: bool
  rt_queue :: "bytes list list"
  rt_ran :: "bytes list list"

definition redis_idle :: redis_txn where
  "redis_idle = \<lparr>rt_n = 0, rt_multi = False, rt_dirty = False, rt_queue = [], rt_ran = []\<rparr>"

definition redis_name :: "bytes list \<Rightarrow> string" where "redis_name x = map upper_byte (hd x)"

definition redis_step :: "(nat \<Rightarrow> bytes list \<Rightarrow> bool) \<Rightarrow> (nat \<Rightarrow> bool) \<Rightarrow> bytes list \<Rightarrow> redis_txn \<Rightarrow> redis_txn" where
  "redis_step bad aborts x t =
     (let nm = redis_name x; t1 = t\<lparr>rt_n := rt_n t + 1\<rparr>; out = t1\<lparr>rt_multi := False, rt_dirty := False, rt_queue := []\<rparr> in
      if bad (rt_n t) x then t1\<lparr>rt_dirty := rt_dirty t \<or> rt_multi t\<rparr>
      else if \<not> rt_multi t then
        (if nm = ''MULTI'' then t1\<lparr>rt_multi := True, rt_dirty := False, rt_queue := []\<rparr> else t1\<lparr>rt_ran := rt_ran t @ [x]\<rparr>)
      else if nm = ''EXEC'' then out\<lparr>rt_ran := rt_ran t @ (if rt_dirty t \<or> aborts (rt_n t) then [] else rt_queue t)\<rparr>
      else if nm = ''DISCARD'' then out
      else if nm = ''MULTI'' \<or> nm = ''WATCH'' then t1
      else if nm = ''QUIT'' then t1\<lparr>rt_ran := rt_ran t @ [x]\<rparr>
      else if nm = ''RESET'' then out\<lparr>rt_ran := rt_ran t @ [x]\<rparr>
      else t1\<lparr>rt_queue := rt_queue t @ [x]\<rparr>)"

definition redis_run :: "(nat \<Rightarrow> bytes list \<Rightarrow> bool) \<Rightarrow> (nat \<Rightarrow> bool) \<Rightarrow> bytes list list \<Rightarrow> redis_txn" where
  "redis_run bad aborts xs = fold (redis_step bad aborts) xs redis_idle"

lemma redis_run_snoc [simp]: "redis_run bad aborts (xs @ [x]) = redis_step bad aborts x (redis_run bad aborts xs)"
  by (simp add: redis_run_def)

subsection \<open>Which commands need no decision, and what a decision clears\<close>

definition harmless :: "bytes list \<Rightarrow> bool" where
  "harmless x \<longleftrightarrow> (\<exists>args info. Classify args = Some info \<and> \<not> needsGate info \<and> (x = args \<or> x = roArgs args))"

text \<open>
  A unit the guard passed, whose values are legal, and whose project writes the lease engine admitted when
  it enforces; and what goes to Redis is the commands the guard saw, or the form the guard or the proxy
  gave a bare command, and for a transaction the used bits of its slices and the receipt.
\<close>

definition sends :: "conn_ctx \<Rightarrow> principal \<Rightarrow> punit \<Rightarrow> punit \<Rightarrow> guard_effect list \<Rightarrow> bytes list list" where
  "sends cx p u0 u es =
     (if u_kind u0 = UnitTxn then map cmd_args (u_cmds u0) @ map used_bit_args (used_ids es) @
        (case (if u_kind u = UnitTxn then snd (y_replace cx u) else None) of Some rc \<Rightarrow> [rc] | None \<Rightarrow> [])
      else [case u_rewrite u of Some rw \<Rightarrow> rw | None \<Rightarrow> alloc_args cx p u (cmd_args (hd (u_cmds u0)))])"

definition cleared :: "bool \<Rightarrow> unit_history \<Rightarrow> bool" where
  "cleared le h \<longleftrightarrow> (\<exists>cx p u0 c es g. c_principal c = Some p \<and> y_leaseEngine cx = le \<and>
     Check (unit_reads cx u0 c) p u0 (c_guard c) = (Passed es, h_unit h, g) \<and> accountingValueDenial p (h_unit h) = None \<and>
     (le \<and> u_project (h_unit h) \<noteq> [] \<and> u_mode (h_unit h) = ModeEnforce \<longrightarrow>
       (\<exists>ue e. tk_deny (fst (Decide (y_decide cx) p (h_unit h) ue e)) = None)) \<and>
     h_sent h = sends cx p u0 (h_unit h) es)"

definition allowed :: "unit_history list \<Rightarrow> bytes list \<Rightarrow> bool" where
  "allowed us x \<longleftrightarrow> harmless x \<or> (\<exists>h \<in> set us. h_denial h = None \<and> x \<in> set (h_sent h))"

lemma allowed_append: "allowed us x \<Longrightarrow> allowed (us @ vs) x"
  by (auto simp: allowed_def)

text \<open>What the proxy believes about the transaction is what Redis does, or Redis will abort.\<close>

fun linked :: "redis_txn \<Rightarrow> txn_state option \<Rightarrow> bool" where
  "linked R None \<longleftrightarrow> \<not> rt_multi R \<or> rt_dirty R"
| "linked R (Some t) \<longleftrightarrow> rt_multi R \<and> (rt_dirty R \<or> tx_poison t \<noteq> [] \<or> rt_queue R = map cmd_args (tx_cmds t))"

definition ran_ok :: "unit_history list \<Rightarrow> redis_txn \<Rightarrow> bool" where
  "ran_ok us R \<longleftrightarrow> (\<forall>x \<in> set (rt_ran R). allowed us x)"

lemma ran_ok_append: "ran_ok us R \<Longrightarrow> ran_ok (us @ vs) R"
  by (auto simp: ran_ok_def intro: allowed_append)

subsection \<open>Names\<close>

lemma upper_ascii_plain: "of_char (upper_byte c) < (128::nat) \<Longrightarrow> of_char c < (128::nat)"
  by (auto simp: upper_byte_def split: if_split_asm)

lemma ToUpper_ascii: "\<forall>c \<in> set s. of_char c < (128::nat) \<Longrightarrow> ToUpper s = map upper_byte s"
proof (induction s rule: ToUpper.induct)
  case (3 a b s)
  then have "a \<noteq> CHR 0xC4" "a \<noteq> CHR 0xC5" by auto
  with 3 show ?case by simp
qed simp_all

text \<open>A name Redis knows is the name the proxy sees.\<close>

lemma name_agrees:
  assumes "redis_name x \<in> {''MULTI'', ''EXEC'', ''DISCARD'', ''WATCH'', ''QUIT'', ''RESET''}"
  shows "ToUpper (hd x) = redis_name x"
proof -
  have "\<forall>c \<in> set (redis_name x). of_char c < (128::nat)" using assms by auto
  then have "\<forall>c \<in> set (hd x). of_char c < (128::nat)" by (auto simp: redis_name_def intro: upper_ascii_plain)
  then show ?thesis by (simp add: ToUpper_ascii redis_name_def)
qed

lemma Classify_name: "Classify args = Some info \<Longrightarrow> args \<noteq> [] \<Longrightarrow> c_name info = ToUpper (hd args)"
  by (auto simp: Classify_def Let_def mk_command_def split: if_split_asm option.split_asm prod.split_asm)

definition ungated_names :: "string list" where
  "ungated_names = [''QUIT'', ''SELECT'', ''MULTI'', ''EXEC'', ''DISCARD'', ''UNWATCH'', ''WATCH'', ''SUBSCRIBE'', ''PSUBSCRIBE'',
     ''SSUBSCRIBE'', ''UNSUBSCRIBE'', ''PUNSUBSCRIBE'', ''SUNSUBSCRIBE'', ''PING'', ''HELLO'']"

lemma ungated_table:
  "list_all (\<lambda>n. \<not> HasPrefix n ''JM.'' \<and> n \<notin> {''CONFIG'', ''SCRIPT'', ''CLIENT''} \<and>
     (case map_of commands n of Some (cl, ks) \<Rightarrow> cl = ClassConn \<or> cl = ClassTxn \<or> cl = ClassPubSub | None \<Rightarrow> False)) ungated_names"
  by code_simp

lemma conn_names:
  assumes "Classify args = Some info" and "c_name info \<in> set ungated_names"
  shows "\<not> needsGate info"
proof -
  have "[] \<notin> set ungated_names" by (simp add: ungated_names_def)
  with assms have ne: "args \<noteq> []" by (auto simp: Classify_def mk_command_def)
  obtain n where n: "ToUpper (hd args) = n" "n \<in> set ungated_names" using Classify_name [OF assms(1) ne] assms(2) by simp
  obtain cl ks where c: "map_of commands n = Some (cl, ks)" "cl = ClassConn \<or> cl = ClassTxn \<or> cl = ClassPubSub"
    and j: "\<not> HasPrefix n ''JM.''" "n \<notin> {''CONFIG'', ''SCRIPT'', ''CLIENT''}"
    using ungated_table n(2) by (auto simp: list_all_iff split: option.split_asm)
  have "c_class info = cl"
    using assms(1) ne n(1) j c by (auto simp: Classify_def classifySub_def Let_def mk_command_def split: if_split_asm)
  with c(2) show ?thesis by (auto simp: needsGate_def)
qed

lemma harmlessI: "Classify args = Some info \<Longrightarrow> \<not> needsGate info \<Longrightarrow> harmless args \<and> harmless (roArgs args)"
  by (auto simp: harmless_def)

lemma own_harmless: "harmless [''PING'']" "harmless [''HELLO'']" "harmless [''EXEC'']" "harmless [''DISCARD'']"
    "harmless [''CLIENT'', ''ID'']" "harmless [''CLIENT'', ''SETNAME'', nm]" "harmless [''HELLO'', v, ''SETNAME'', nm]"
proof -
  have n: "ToUpper ''PING'' = ''PING''" "ToUpper ''HELLO'' = ''HELLO''" "ToUpper ''EXEC'' = ''EXEC''" "ToUpper ''DISCARD'' = ''DISCARD''"
    by code_simp+
  have "\<exists>info. Classify x = Some info" if "ToUpper (hd x) \<in> set ungated_names" for x
    using that ungated_table
    by (auto simp: Classify_def classifySub_def Let_def list_all_iff split: option.split_asm)
  then have h: "harmless x" if "ToUpper (hd x) \<in> set ungated_names" "x \<noteq> []" for x
    using that conn_names Classify_name harmlessI by metis
  show "harmless [''PING'']" "harmless [''HELLO'']" "harmless [''EXEC'']" "harmless [''DISCARD'']" "harmless [''HELLO'', v, ''SETNAME'', nm]"
    by (rule h; simp add: n ungated_names_def)+
  have "Classify [''CLIENT'', ''ID''] = Some (mk_command ''CLIENT'' ClassConn)" by code_simp
  with harmlessI show "harmless [''CLIENT'', ''ID'']" by (auto simp: needsGate_def mk_command_def)
  have c: "ToUpper ''CLIENT'' = ''CLIENT''" "ToUpper ''SETNAME'' = ''SETNAME''" "\<not> HasPrefix ''CLIENT'' ''JM.''" by code_simp+
  have "Classify [''CLIENT'', ''SETNAME'', nm] = Some (mk_command ''CLIENT'' ClassConn)"
    by (simp add: Classify_def classifySub_def Let_def c)
  with harmlessI show "harmless [''CLIENT'', ''SETNAME'', nm]" by (auto simp: needsGate_def mk_command_def)
qed

subsection \<open>Decisions\<close>

lemma relaxed_enforce: "relaxed ModeEnforce d = d"
  by (simp add: relaxed_def split: option.split)

lemma conn_decide_admits:
  assumes "conn_decide cx p u c = (Some dn, c')" and "dn_deny dn = None"
  shows "\<exists>g. Check (unit_reads cx u c) p u (c_guard c) = (Passed (dn_effects dn), dn_unit dn, g)" (is ?A)
    and "accountingValueDenial p (dn_unit dn) = None"
    and "y_leaseEngine cx \<Longrightarrow> u_project (dn_unit dn) \<noteq> [] \<Longrightarrow> u_mode (dn_unit dn) = ModeEnforce \<Longrightarrow>
      \<exists>ue e. tk_deny (fst (Decide (y_decide cx) p (dn_unit dn) ue e)) = None"
    and "dn_receipt dn = (if u_kind (dn_unit dn) = UnitTxn then snd (y_replace cx (dn_unit dn)) else None)"
proof -
  obtain r u1 g1 where chk: "Check (unit_reads cx u c) p u (c_guard c) = (r, u1, g1)" by (rule prod_cases3)
  have nf: "\<not> y_fenced cx" using assms by (auto simp: conn_decide_def refused_def)
  obtain es where r: "r = Passed es" using assms nf chk by (cases r) (auto simp: conn_decide_def refused_def)
  let ?c1 = "c\<lparr>c_guard := g1\<rparr>"
  have av: "accountingValueDenial p u1 = None"
    using assms nf chk r by (cases "accountingValueDenial p u1") (auto simp: conn_decide_def refused_def Let_def)
  obtain d2 c2 where sc: "scope_denial cx p u1 ?c1 = (d2, c2)" by (rule prod.exhaust)
  have d2: "d2 = None" using assms nf chk r av sc by (cases d2) (auto simp: conn_decide_def refused_def Let_def)
  obtain d3 tk c3 where pd: "policy_decide cx p u1 c2 = (d3, tk, c3)" by (rule prod_cases3)
  have d3: "relaxed (u_mode u1) d3 = None"
    using assms nf chk r av sc d2 pd by (cases "relaxed (u_mode u1) d3") (auto simp: conn_decide_def Let_def)
  obtain d5 rcp where rp: "y_replace cx u1 = (d5, rcp)" by (rule prod.exhaust)
  have dn: "dn = \<lparr>dn_deny = d5, dn_ticket = tk, dn_effects = es, dn_unit = u1, dn_receipt = (if u_kind u1 = UnitTxn then rcp else None)\<rparr>"
    using assms nf chk r av sc d2 pd d3 rp by (simp add: conn_decide_def Let_def)
  show ?A using chk r dn by auto
  show "accountingValueDenial p (dn_unit dn) = None" using av dn by simp
  show "dn_receipt dn = (if u_kind (dn_unit dn) = UnitTxn then snd (y_replace cx (dn_unit dn)) else None)" using dn rp by simp
  assume le: "y_leaseEngine cx" "u_project (dn_unit dn) \<noteq> []" "u_mode (dn_unit dn) = ModeEnforce"
  then have "d3 = None" using d3 dn by (simp add: relaxed_enforce)
  with le pd dn show "\<exists>ue e. tk_deny (fst (Decide (y_decide cx) p (dn_unit dn) ue e)) = None"
    by (auto simp: policy_decide_def split: prod.split_asm intro!: exI [of _ "unit_env_of cx p u1 c2"] exI [of _ "c_engine c2"])
qed

lemma admitted_cleared:
  assumes "conn_decide cx p u c = (Some dn, c')" and "dn_deny dn = None" and "c_principal c = Some p"
    and "h_unit h = dn_unit dn" and "h_sent h = sends cx p u (dn_unit dn) (dn_effects dn)"
  shows "cleared (y_leaseEngine cx) h"
proof -
  note a = conn_decide_admits [OF assms(1,2)]
  obtain g where "Check (unit_reads cx u c) p u (c_guard c) = (Passed (dn_effects dn), dn_unit dn, g)" using a(1) by blast
  with a(2,3) assms(3-5) show ?thesis unfolding cleared_def by metis
qed

text \<open>A command the guard rewrites becomes a script or a conditional \<^verbatim>\<open>ZADD\<close>.\<close>

definition rewritten :: "punit \<Rightarrow> punit \<Rightarrow> bool" where
  "rewritten u u' \<longleftrightarrow> u_rewrite u' = u_rewrite u \<or> (\<exists>a as. u_rewrite u' = Some (a # as) \<and> (a = ''EVAL'' \<or> a = ''ZADD''))"

lemma rewritten_trans: "rewritten u v \<Longrightarrow> rewritten v w \<Longrightarrow> rewritten u w"
  by (auto simp: rewritten_def)

lemma session_members_rewrite: "session_members w mem u = Passed u' \<Longrightarrow> u_rewrite u' = u_rewrite u"
proof (induction mem arbitrary: u)
  case (Cons m mem)
  then show ?case by (fastforce split: option.splits if_splits)
qed simp

lemma sessionGate_rewrite:
  assumes "sessionGate R p u c w = Passed (es, u')"
  shows "rewritten u u'"
proof -
  have "rewritten u v" if "heartbeatGate R u c w = Passed v" for v
    using that by (auto simp: heartbeatGate_def rewritten_def split: if_splits option.splits)
  moreover have "rewritten u v" if "sessionSetGate u c w = Passed v" for v
    using that by (auto simp: sessionSetGate_def rewritten_def dest: session_members_rewrite split: if_splits)
  moreover have "rewritten u u" by (simp add: rewritten_def)
  ultimately show ?thesis
    using assms by (auto simp: sessionGate_def Let_def gbind_Passed split: if_splits)
qed

lemma key_gate1_rewrite:
  assumes "key_gate1 R p w u g = (Passed es, u', g')"
  shows "rewritten u u'"
proof (cases "w_class w = KCSession")
  case True
  with assms show ?thesis by (auto simp: key_gate1_def Let_def dest: sessionGate_rewrite split: gate.splits)
next
  case False
  with assms have "u_rewrite u' = u_rewrite u"
    by (cases "w_class w") (auto simp: key_gate1_def Let_def split: if_splits option.splits prod.splits)
  then show ?thesis by (simp add: rewritten_def)
qed

lemma key_gate_rewrite: "key_gate R p ws es u g = (Passed es', u', g') \<Longrightarrow> rewritten u u'"
proof (induction ws arbitrary: es u g)
  case (Cons w ws)
  from Cons.prems obtain es1 u1 g1 where h: "key_gate1 R p w u g = (Passed es1, u1, g1)"
    and t: "key_gate R p ws (es @ es1) u1 g1 = (Passed es', u', g')"
    by (auto split: prod.splits gate.splits)
  show ?case by (rule rewritten_trans [OF key_gate1_rewrite [OF h] Cons.IH [OF t]])
qed (simp add: rewritten_def)

lemma Check_rewrite:
  assumes "Check R p u g = (Passed es, u', g')"
  shows "rewritten u u'"
proof -
  from assms obtain es1 u3 where ph: "check_phases R p g u = Passed (es1, u3)"
    and kg: "key_gate R p (u_writes u3) es1 u3 g = (Passed es, u', g')"
    by (auto simp: Check_def split: gate.split_asm prod.split_asm)
  from ph obtain ws u1 es0 u2 where
      r: "refine_trash R p (u\<lparr>u_project := [], u_refInodes := [], u_writes := ws\<rparr>) = Passed u1"
    and o: "own_records R p g u1 = Passed (es0, u2)" and s: "slice_phase R p g es0 u2 = Passed (es1, u3)"
    by (auto simp: check_phases_def Let_def gbind_Passed)
  have "rewritten u u1" using r by (auto simp: refine_trash_def Let_def gbind_Passed rewritten_def)
  moreover have "rewritten u1 u2"
    using o by (auto simp: own_records_def Let_def gbind_Passed set_class_def ownSliceDrop_def rewritten_def split: if_splits option.splits)
  moreover have "u_rewrite u3 = u_rewrite u2"
    using s by (fastforce simp: slice_phase_def gbind_Passed anchorCleanup_def ownZeroRefDrop_def split: if_split_asm)
  moreover note key_gate_rewrite [OF kg]
  ultimately show ?thesis by (auto simp: rewritten_def)
qed

subsection \<open>Writing to Redis\<close>

lemma forward_uw:
  assumes "forward cx x s c = (r, c')"
  shows "c_txn c' = c_txn c" and "c_units c' = c_units c" and "c_uw c' = (if r = COk then c_uw c @ [x] else c_uw c)"
    and "c_principal c' = c_principal c"
proof -
  have "c_txn c' = c_txn c \<and> c_units c' = c_units c \<and> c_uw c' = (if r = COk then c_uw c @ [x] else c_uw c) \<and> c_principal c' = c_principal c"
  proof (cases "c_revoked c")
    case True
    then have c': "r = CClose" "c' = run_done cx (not_sent c) (sl_done s) c" using assms by (simp_all add: forward_def)
    have "c_principal c' = c_principal c" by (simp add: c' run_done_def Let_def split: option.split prod.split)
    moreover have "quiet c c'" by (simp add: c')
    ultimately show ?thesis using c'(1) by (simp add: quiet_def)
  next
    case False
    let ?c1 = "account cx slotCost (c\<lparr>c_q := c_q c @ [s], c_fwd := c_fwd c + 1\<rparr>)"
    have "c' = ?c1 \<and> r = COverflow \<or> c' = write_up cx x ?c1 \<and> r = (if c_werr c' then CClose else COk)"
      using assms False by (simp add: forward_def Let_def split: if_split_asm)
    moreover have "c_uw (write_up cx x ?c1) = c_uw c @ (if c_werr (write_up cx x ?c1) then [] else [x])"
      by (subst write_up_uw) simp
    ultimately show ?thesis by (elim disjE) simp_all
  qed
  then show "c_txn c' = c_txn c" "c_units c' = c_units c" "c_uw c' = (if r = COk then c_uw c @ [x] else c_uw c)" "c_principal c' = c_principal c"
    by simp_all
qed

lemma reply_uw: "c_txn (reply cx b c) = c_txn c" "c_units (reply cx b c) = c_units c"
    "c_uw (reply cx b c) = c_uw c \<or> c_uw (reply cx b c) = c_uw c @ [[''PING'']]"
  by (auto simp: reply_def Let_def write_up_uw pingArgs_def)

lemma writeNoSlot_uw:
  assumes "writeNoSlot cx x c = (r, c')"
  shows "c_txn c' = c_txn c \<and> c_units c' = c_units c \<and> (c_uw c' = c_uw c \<or> c_uw c' = c_uw c @ [x])"
  using assms by (auto simp: writeNoSlot_def Let_def write_up_uw split: if_split_asm)

lemma cthen_hidden_Nil [simp]: "cthen m (forward_hidden cx []) = m"
  by (cases m; cases "fst m") auto

text \<open>What holds after a handler; only if it went on does the proxy's view of the transaction matter.\<close>

definition good :: "(nat \<Rightarrow> bytes list \<Rightarrow> bool) \<Rightarrow> (nat \<Rightarrow> bool) \<Rightarrow> bool \<Rightarrow> pconn \<Rightarrow> bool" where
  "good bad aborts le c \<longleftrightarrow> ran_ok (c_units c) (redis_run bad aborts (c_uw c)) \<and>
     (\<forall>h \<in> set (c_units c). h_denial h = None \<longrightarrow> cleared le h) \<and>
     (\<forall>t. c_txn c = Some t \<longrightarrow> (\<forall>cm \<in> set (tx_cmds t). classified cm))"

definition after :: "(nat \<Rightarrow> bytes list \<Rightarrow> bool) \<Rightarrow> (nat \<Rightarrow> bool) \<Rightarrow> bool \<Rightarrow> cres \<Rightarrow> pconn \<Rightarrow> bool" where
  "after bad aborts le r c \<longleftrightarrow> good bad aborts le c \<and> (r = COk \<longrightarrow> linked (redis_run bad aborts (c_uw c)) (c_txn c))"

definition receipts_are_scripts :: "conn_ctx \<Rightarrow> bool" where
  "receipts_are_scripts cx \<longleftrightarrow> (\<forall>u rc. snd (y_replace cx u) = Some rc \<longrightarrow> rc \<noteq> [] \<and> hd rc = ''EVAL'')"

lemma good_quiet: "quiet c c' \<Longrightarrow> good bad aborts le c' = good bad aborts le c"
  by (simp add: good_def quiet_def)

lemma good_note:
  assumes "good bad aborts le c" and "d = None \<Longrightarrow> cleared le \<lparr>h_unit = u, h_denial = None, h_sent = xs\<rparr>"
  shows "good bad aborts le (note_unit u d xs c)"
  using assms by (auto simp: good_def note_unit_def intro: ran_ok_append)

lemma own_names:
  "redis_name [''PING''] = ''PING''" "redis_name [''EXEC''] = ''EXEC''" "redis_name [''DISCARD''] = ''DISCARD''"
  "ToUpper ''DISCARD'' = ''DISCARD''" "redis_name (used_bit_args i) = ''SETBIT''" "map upper_byte ''EVAL'' = ''EVAL''"
  "map upper_byte ''ZADD'' = ''ZADD''" "map upper_byte ''EVAL_RO'' = ''EVAL_RO''" "map upper_byte ''EVALSHA_RO'' = ''EVALSHA_RO''"
  "map upper_byte ''CLIENT'' = ''CLIENT''" "map upper_byte ''HELLO'' = ''HELLO''"
proof -
  show "redis_name (used_bit_args i) = ''SETBIT''" by (simp add: redis_name_def used_bit_args_def upper_byte_def)
qed code_simp+

subsection \<open>The contract of Redis\<close>

text \<open>Redis knows its commands by ASCII names only, and accepts a bare \<^verbatim>\<open>MULTI\<close>.\<close>

locale redis_server =
  fixes bad :: "nat \<Rightarrow> bytes list \<Rightarrow> bool" and aborts :: "nat \<Rightarrow> bool"
  assumes known_names: "\<not> bad i x \<Longrightarrow> redis_name x = ToUpper (hd x)"
    and multi_accepted: "redis_name x = ''MULTI'' \<Longrightarrow> length x = 1 \<Longrightarrow> \<not> bad i x"
begin

lemma step_bare:
  assumes "linked T None" and "ran_ok us T" and "allowed us x" and "redis_name x \<noteq> ''MULTI''"
  shows "linked (redis_step bad aborts x T) None \<and> ran_ok us (redis_step bad aborts x T)"
  using assms by (auto simp: redis_step_def Let_def ran_ok_def)

lemma step_ping:
  assumes "linked T tx" and "ran_ok us T" and "\<And>t. tx = Some t \<Longrightarrow> tx_poison t \<noteq> []"
  shows "linked (redis_step bad aborts [''PING''] T) tx \<and> ran_ok us (redis_step bad aborts [''PING''] T)"
proof -
  have a: "allowed us [''PING'']" using own_harmless(1) by (simp add: allowed_def)
  show ?thesis using assms a by (cases tx) (auto simp: redis_step_def Let_def ran_ok_def own_names)
qed

lemma step_multi:
  assumes "linked T None" and "ran_ok us T" and "redis_name x = ''MULTI''" and "length x = 1"
  shows "linked (redis_step bad aborts x T) (Some \<lparr>tx_cmds = [], tx_poison = []\<rparr>) \<and> ran_ok us (redis_step bad aborts x T)"
  using assms multi_accepted [OF assms(3,4)] by (auto simp: redis_step_def Let_def ran_ok_def)

lemma step_queue:
  assumes "rt_multi T \<and> (rt_dirty T \<or> ps \<or> rt_queue T = ys)"
    and "redis_name x \<notin> {''EXEC'', ''DISCARD'', ''MULTI'', ''WATCH'', ''QUIT'', ''RESET''}"
  shows "rt_multi (redis_step bad aborts x T) \<and> (rt_dirty (redis_step bad aborts x T) \<or> ps \<or> rt_queue (redis_step bad aborts x T) = ys @ [x]) \<and>
    rt_ran (redis_step bad aborts x T) = rt_ran T"
  using assms by (auto simp: redis_step_def Let_def)

lemma step_nested:
  assumes "linked T (Some t)" and "ran_ok us T" and "ToUpper (hd x) \<in> {''MULTI'', ''WATCH''}"
  shows "linked (redis_step bad aborts x T) (Some t) \<and> ran_ok us (redis_step bad aborts x T)"
  using assms known_names [of "rt_n T" x] by (auto simp: redis_step_def Let_def ran_ok_def)

lemma step_discard:
  assumes "linked T (Some t)" and "ran_ok us T" and "ToUpper (hd x) = ''DISCARD''"
  shows "linked (redis_step bad aborts x T) None \<and> ran_ok us (redis_step bad aborts x T)"
  using assms known_names [of "rt_n T" x] by (auto simp: redis_step_def Let_def ran_ok_def)

lemma step_exec:
  assumes "rt_multi T" and "rt_dirty T \<or> rt_queue T = ys" and "\<forall>y \<in> set ys. allowed us y" and "ran_ok us T"
  shows "linked (redis_step bad aborts [''EXEC''] T) None \<and> ran_ok us (redis_step bad aborts [''EXEC''] T)"
  using assms by (auto simp: redis_step_def Let_def ran_ok_def own_names)

lemma forward_after:
  assumes "forward cx x s c = (r, c')" and "good bad aborts le c"
    and "linked (redis_step bad aborts x (redis_run bad aborts (c_uw c))) (c_txn c) \<and>
      ran_ok (c_units c) (redis_step bad aborts x (redis_run bad aborts (c_uw c)))"
  shows "after bad aborts le r c'"
  using assms(2,3) forward_uw [OF assms(1)] by (simp add: after_def good_def)

lemma reply_after:
  assumes "good bad aborts le c" and "linked (redis_run bad aborts (c_uw c)) (c_txn c)"
    and "\<And>t. c_txn c = Some t \<Longrightarrow> tx_poison t \<noteq> []"
  shows "after bad aborts le COk (reply cx b c)"
proof -
  have "ran_ok (c_units c) (redis_run bad aborts (c_uw c))" using assms(1) by (simp add: good_def)
  from step_ping [OF assms(2) this assms(3)] assms(1,2) reply_uw [of cx b c]
  show ?thesis by (auto simp: after_def good_def)
qed

lemma forward_hidden_after:
  assumes "forward_hidden cx xs c = (r, c')"
    and "\<forall>x \<in> set xs. redis_name x \<notin> {''EXEC'', ''DISCARD'', ''MULTI'', ''WATCH'', ''QUIT'', ''RESET''}"
    and "rt_multi (redis_run bad aborts (c_uw c)) \<and> (rt_dirty (redis_run bad aborts (c_uw c)) \<or> rt_queue (redis_run bad aborts (c_uw c)) = ys)"
    and "good bad aborts le c"
  shows "good bad aborts le c' \<and> c_txn c' = c_txn c \<and> c_units c' = c_units c \<and> c_principal c' = c_principal c \<and> (r = COk \<longrightarrow>
    rt_multi (redis_run bad aborts (c_uw c')) \<and> (rt_dirty (redis_run bad aborts (c_uw c')) \<or> rt_queue (redis_run bad aborts (c_uw c')) = ys @ xs))"
  using assms
proof (induction xs arbitrary: c ys)
  case Nil
  then show ?case by simp
next
  case (Cons x xs)
  obtain r1 c1 where f: "forward cx x drop_slot c = (r1, c1)" by (rule prod.exhaust)
  note u = forward_uw [OF f]
  have q: "rt_multi (redis_step bad aborts x (redis_run bad aborts (c_uw c))) \<and>
      (rt_dirty (redis_step bad aborts x (redis_run bad aborts (c_uw c))) \<or> rt_queue (redis_step bad aborts x (redis_run bad aborts (c_uw c))) = ys @ [x]) \<and>
      rt_ran (redis_step bad aborts x (redis_run bad aborts (c_uw c))) = rt_ran (redis_run bad aborts (c_uw c))"
    using step_queue [of "redis_run bad aborts (c_uw c)" False ys x] Cons.prems(2,3) by simp
  have g: "good bad aborts le c1" using Cons.prems(4) u q by (simp add: good_def ran_ok_def)
  show ?case
  proof (cases "r1 = COk")
    case True
    with Cons.prems(1) f have h: "forward_hidden cx xs c1 = (r, c')" by simp
    have "rt_multi (redis_run bad aborts (c_uw c1)) \<and> (rt_dirty (redis_run bad aborts (c_uw c1)) \<or> rt_queue (redis_run bad aborts (c_uw c1)) = ys @ [x])"
      using q u(3) True by simp
    from Cons.IH [OF h _ this g] Cons.prems(2) u show ?thesis by simp
  next
    case False
    with Cons.prems(1) f have "r = r1" "c' = c1" by (cases r1; simp)+
    with g u False show ?thesis by simp
  qed
qed

text \<open>An admitted transaction: its queued commands, the commands of the proxy, and EXEC.\<close>

lemma exec_send_after:
  assumes "exec_send cx p dn c = (r, c')" and "good bad aborts le c" and "c_txn c = None"
    and "rt_multi (redis_run bad aborts (c_uw c))"
    and "rt_dirty (redis_run bad aborts (c_uw c)) \<or> rt_queue (redis_run bad aborts (c_uw c)) = ys"
    and "\<forall>rc. dn_receipt dn = Some rc \<longrightarrow> rc \<noteq> [] \<and> hd rc = ''EVAL''"
    and "\<forall>x \<in> set (ys @ map used_bit_args (used_ids (dn_effects dn)) @ (case dn_receipt dn of Some rc \<Rightarrow> [rc] | None \<Rightarrow> [])). allowed (c_units c) x"
  shows "after bad aborts le r c'"
proof -
  let ?xs = "map used_bit_args (used_ids (dn_effects dn))"
  obtain r1 c1 where h: "forward_hidden cx ?xs c = (r1, c1)" by (rule prod.exhaust)
  have hd: "good bad aborts le c1 \<and> c_txn c1 = c_txn c \<and> c_units c1 = c_units c \<and> c_principal c1 = c_principal c \<and> (r1 = COk \<longrightarrow>
    rt_multi (redis_run bad aborts (c_uw c1)) \<and> (rt_dirty (redis_run bad aborts (c_uw c1)) \<or> rt_queue (redis_run bad aborts (c_uw c1)) = ys @ ?xs))"
    by (rule forward_hidden_after [OF h _ _ assms(2)]) (use assms(4,5) own_names(5) in auto)
  show ?thesis
  proof (cases "r1 = COk")
    case False
    then have "r = r1" "c' = c1" using assms(1) h by (cases r1; simp add: exec_send_def)+
    with hd False show ?thesis by (simp add: after_def)
  next
    case True
    note k = hd True
    show ?thesis
    proof (cases "dn_receipt dn")
      case None
      then have f: "forward cx [''EXEC''] (exec_slot p dn) c1 = (r, c')" using assms(1) h True by (simp add: exec_send_def)
      have "linked (redis_step bad aborts [''EXEC''] (redis_run bad aborts (c_uw c1))) None \<and>
          ran_ok (c_units c1) (redis_step bad aborts [''EXEC''] (redis_run bad aborts (c_uw c1)))"
        by (rule step_exec [of _ "ys @ ?xs"]) (use k assms(7) None in \<open>auto simp: good_def\<close>)
      with forward_after [OF f] k assms(3) show ?thesis by simp
    next
      case (Some rc)
      obtain r2 c2 where f2: "forward cx rc drop_slot c1 = (r2, c2)" by (rule prod.exhaust)
      have "redis_name rc \<notin> {''EXEC'', ''DISCARD'', ''MULTI'', ''WATCH'', ''QUIT'', ''RESET''}"
        using assms(6) Some by (simp add: redis_name_def own_names)
      then have h2: "good bad aborts le c2 \<and> c_txn c2 = c_txn c1 \<and> c_units c2 = c_units c1 \<and> c_principal c2 = c_principal c1 \<and> (r2 = COk \<longrightarrow>
          rt_multi (redis_run bad aborts (c_uw c2)) \<and> (rt_dirty (redis_run bad aborts (c_uw c2)) \<or>
          rt_queue (redis_run bad aborts (c_uw c2)) = (ys @ ?xs) @ [rc]))"
        by (intro forward_hidden_after [of cx "[rc]" c1 r2 c2]) (use k f2 in auto)
      show ?thesis
      proof (cases "r2 = COk")
        case True
        then have f: "forward cx [''EXEC''] (exec_slot p dn) c2 = (r, c')" using assms(1) h k f2 Some by (simp add: exec_send_def)
        have "linked (redis_step bad aborts [''EXEC''] (redis_run bad aborts (c_uw c2))) None \<and>
            ran_ok (c_units c2) (redis_step bad aborts [''EXEC''] (redis_run bad aborts (c_uw c2)))"
          by (rule step_exec [of _ "(ys @ ?xs) @ [rc]"]) (use k h2 True assms(7) Some in \<open>auto simp: good_def\<close>)
        with forward_after [OF f] k h2 assms(3) show ?thesis by simp
      next
        case False
        then have c': "r = r2" "c' = run_done cx (lost c2) (Some \<lparr>ud_effects = [], ud_done = unit_done p dn\<rparr>) c2"
          using assms(1) h k f2 Some by (cases r2; simp add: exec_send_def)+
        then have "good bad aborts le c'" using h2 good_quiet [OF run_done_quiet] by simp
        with False c' show ?thesis by (simp add: after_def)
      qed
    qed
  qed
qed

lemma exec_after:
  assumes "exec cx p t c = (r, c')" and "good bad aborts le c" and "linked (redis_run bad aborts (c_uw c)) (c_txn c)" and "c_txn c = Some t"
    and "c_principal c = Some p" and "y_leaseEngine cx = le" and "receipts_are_scripts cx"
  shows "after bad aborts le r c'"
proof -
  let ?u = "exec_unit cx t c" and ?c0 = "c\<lparr>c_txn := None, c_watched := [], c_trashAlloc := None\<rparr>"
  have g0: "good bad aborts le ?c0" using assms(2) by (simp add: good_def)
  have lk: "rt_multi (redis_run bad aborts (c_uw c))"
    "rt_dirty (redis_run bad aborts (c_uw c)) \<or> tx_poison t \<noteq> [] \<or> rt_queue (redis_run bad aborts (c_uw c)) = map cmd_args (tx_cmds t)"
    using assms(3,4) by auto
  obtain d c1 where d: "exec_decide cx p t ?u ?c0 = (d, c1)" by (rule prod.exhaust)
  have q: "quiet ?c0 c1" by (rule exec_decide_quiet [OF d])
  then have g1: "good bad aborts le c1" using good_quiet g0 by blast
  have c1: "c_txn c1 = None" "c_uw c1 = c_uw c" "c_units c1 = c_units c" using q by (simp_all add: quiet_def)
  show ?thesis
  proof (cases d)
    case None
    with assms(1) d have "r = CPanic" "c' = c1" by (simp_all add: exec_def Let_def)
    with g1 show ?thesis by (simp add: after_def)
  next
    case (Some dn)
    show ?thesis
    proof (cases "audited cx dn")
      case (Some dd)
      let ?c2 = "note_unit (dn_unit dn) (Some dd) [] (abandon cx p dn c1)"
      obtain r2 c2 where f: "forward cx [''DISCARD''] drop_slot ?c2 = (r2, c2)" by (rule prod.exhaust)
      have g2: "good bad aborts le ?c2" using g1 good_quiet [OF abandon_quiet] by (intro good_note) auto
      have c2: "c_txn ?c2 = None" "c_uw ?c2 = c_uw c"
        using c1 abandon_quiet [of c1 cx p dn] by (simp_all add: quiet_def note_unit_def)
      have "linked (redis_step bad aborts [''DISCARD''] (redis_run bad aborts (c_uw c))) None \<and>
          ran_ok (c_units ?c2) (redis_step bad aborts [''DISCARD''] (redis_run bad aborts (c_uw c)))"
        by (rule step_discard [of _ t]) (use lk g2 c2 own_names(4) in \<open>auto simp: good_def\<close>)
      then have a: "after bad aborts le r2 c2" using forward_after [OF f g2] c2 by simp
      have tx: "c_txn c2 = None" using forward_uw(1) [OF f] c2 by simp
      show ?thesis
      proof (cases "r2 = COk")
        case True
        then have "r = COk" "c' = reply cx (Reply dd) c2" using assms(1) d \<open>d = Some dn\<close> Some f by (simp_all add: exec_def Let_def)
        with reply_after [of le c2 cx "Reply dd"] a True tx show ?thesis by (simp add: after_def)
      next
        case False
        then have "r = r2" "c' = c2" using assms(1) d \<open>d = Some dn\<close> Some f by (cases r2; simp add: exec_def Let_def)+
        with a show ?thesis by simp
      qed
    next
      case None
      then have dny: "dn_deny dn = None" by (auto simp: audited_def split: option.split_asm)
      then have np: "tx_poison t = []" and cd: "conn_decide cx p ?u ?c0 = (Some dn, c1)"
        using d \<open>d = Some dn\<close> by (auto simp: exec_decide_def refused_def split: if_split_asm)
      note ad = conn_decide_admits [OF cd dny]
      let ?xs = "map used_bit_args (used_ids (dn_effects dn)) @ (case dn_receipt dn of Some rc \<Rightarrow> [rc] | None \<Rightarrow> [])"
      let ?c2 = "note_unit (dn_unit dn) None (map cmd_args (tx_cmds t) @ ?xs) c1"
      have "map cmd_args (tx_cmds t) @ ?xs = sends cx p ?u (dn_unit dn) (dn_effects dn)"
        by (simp add: sends_def exec_unit_def newUnit_def ad(4))
      then have cl: "cleared le \<lparr>h_unit = dn_unit dn, h_denial = None, h_sent = map cmd_args (tx_cmds t) @ ?xs\<rparr>"
        using admitted_cleared [OF cd dny] assms(5,6) by simp
      have s: "exec_send cx p dn ?c2 = (r, c')" using assms(1) d \<open>d = Some dn\<close> None by (simp add: exec_def Let_def)
      have al: "\<forall>x \<in> set (map cmd_args (tx_cmds t) @ ?xs). allowed (c_units ?c2) x"
        by (simp add: allowed_def note_unit_def)
      have rcp: "\<forall>rc. dn_receipt dn = Some rc \<longrightarrow> rc \<noteq> [] \<and> hd rc = ''EVAL''"
        using ad(4) assms(7) unfolding receipts_are_scripts_def by (simp split: if_split_asm)
      show ?thesis
        by (rule exec_send_after [OF s _ _ _ _ rcp al]) (use good_note [OF g1] cl c1 lk np in \<open>auto simp: note_unit_def\<close>)
    qed
  qed
qed

lemma bare_forward:
  assumes "forward cx x s c = (r, c')" and "good bad aborts le c" and "linked (redis_run bad aborts (c_uw c)) None" and "c_txn c = None"
    and "allowed (c_units c) x" and "redis_name x \<noteq> ''MULTI''"
  shows "after bad aborts le r c'"
  using forward_after [OF assms(1,2)] step_bare [OF assms(3) _ assms(5,6)] assms(2,4) by (simp add: good_def)

lemma gateBare_after:
  assumes "gateBare cx p args info c = (r, c')" and "good bad aborts le c" and "linked (redis_run bad aborts (c_uw c)) None" and "c_txn c = None"
    and "c_principal c = Some p" and "y_leaseEngine cx = le" and "redis_name args \<noteq> ''MULTI''"
  shows "after bad aborts le r c'"
proof -
  let ?u = "newUnit cx UnitBare [\<lparr>cmd_args = args, cmd_info = info\<rparr>] c"
  obtain d c1 where d: "conn_decide cx p ?u c = (d, c1)" by (rule prod.exhaust)
  note q = conn_decide_quiet [OF d]
  then have g1: "good bad aborts le c1" using good_quiet assms(2) by blast
  have c1: "c_txn c1 = None" "c_uw c1 = c_uw c" using q assms(4) by (simp_all add: quiet_def)
  show ?thesis
  proof (cases d)
    case None
    with assms(1) d g1 show ?thesis by (simp add: gateBare_def Let_def after_def)
  next
    case (Some dn)
    show ?thesis
    proof (cases "audited cx dn")
      case (Some dd)
      let ?c2 = "note_unit (dn_unit dn) (Some dd) [] (abandon cx p dn c1)"
      have g2: "good bad aborts le ?c2" using g1 good_quiet [OF abandon_quiet] by (intro good_note) auto
      have c2: "c_txn ?c2 = None" "c_uw ?c2 = c_uw c"
        using c1 abandon_quiet [of c1 cx p dn] by (simp_all add: quiet_def note_unit_def)
      have "after bad aborts le COk (reply cx (Reply dd) ?c2)"
        by (rule reply_after [OF g2]) (use c2 assms(3) in simp_all)
      then show ?thesis using assms(1) d \<open>d = Some dn\<close> Some by (auto simp: gateBare_def Let_def)
    next
      case None
      then have dny: "dn_deny dn = None" by (auto simp: audited_def split: option.split_asm)
      have cd: "conn_decide cx p ?u c = (Some dn, c1)" using d \<open>d = Some dn\<close> by simp
      obtain g where "Check (unit_reads cx ?u c) p ?u (c_guard c) = (Passed (dn_effects dn), dn_unit dn, g)"
        using conn_decide_admits(1) [OF cd dny] by blast
      from Check_rewrite [OF this] have rw: "u_rewrite (dn_unit dn) = None \<or> (\<exists>a as. u_rewrite (dn_unit dn) = Some (a # as) \<and> (a = ''EVAL'' \<or> a = ''ZADD''))"
        by (auto simp: rewritten_def newUnit_def)
      let ?a = "case u_rewrite (dn_unit dn) of Some x \<Rightarrow> x | None \<Rightarrow> alloc_args cx p (dn_unit dn) args"
      have "redis_name (alloc_args cx p (dn_unit dn) args) \<noteq> ''MULTI''"
        using assms(7) by (simp add: alloc_args_def redis_name_def own_names split: prod.split)
      then have nm: "redis_name ?a \<noteq> ''MULTI''" using rw by (auto simp: redis_name_def own_names)
      have "[?a] = sends cx p ?u (dn_unit dn) (dn_effects dn)"
        by (cases "u_rewrite (dn_unit dn)") (simp_all add: sends_def newUnit_def)
      then have cl: "cleared le \<lparr>h_unit = dn_unit dn, h_denial = None, h_sent = [?a]\<rparr>"
        using admitted_cleared [OF cd dny] assms(5,6) by simp
      obtain s where f: "forward cx ?a s (note_unit (dn_unit dn) None [?a] c1) = (r, c')"
        using assms(1) cd None by (auto simp: gateBare_def Let_def)
      show ?thesis
        by (rule bare_forward [OF f _ _ _ _ nm])
          (use good_note [OF g1] cl c1 assms(3) in \<open>auto simp: note_unit_def allowed_def\<close>)
    qed
  qed
qed

text \<open>A step that is no transaction of its own: what it writes is harmless.\<close>

lemma harmless_forward:
  assumes "forward cx x s c = (r, c')" and "good bad aborts le c" and "linked (redis_run bad aborts (c_uw c)) None" and "c_txn c = None"
    and "harmless x" and "redis_name x \<noteq> ''MULTI''"
  shows "after bad aborts le r c'"
  using bare_forward [OF assms(1-4) _ assms(6)] assms(5) by (simp add: allowed_def)

text \<open>Outside a transaction, with Redis outside it too.\<close>

definition resting :: "bool \<Rightarrow> pconn \<Rightarrow> bool" where
  "resting le c \<longleftrightarrow> good bad aborts le c \<and> linked (redis_run bad aborts (c_uw c)) None \<and> c_txn c = None"

lemma resting_after: "resting le c \<Longrightarrow> after bad aborts le r c"
  by (auto simp: resting_def after_def)

lemma resting_upd [simp]: "resting le (c\<lparr>c_principal := x\<rparr>) = resting le c" "resting le (c\<lparr>c_up := b\<rparr>) = resting le c"
    "resting le (c\<lparr>c_resp3 := b\<rparr>) = resting le c" "resting le (c\<lparr>c_engine := e\<rparr>) = resting le c" "resting le (c\<lparr>c_cw := w\<rparr>) = resting le c"
    "resting le (c\<lparr>c_watched := ws\<rparr>) = resting le c" "resting le (c\<lparr>c_subscribed := b\<rparr>) = resting le c" "resting le (c\<lparr>c_await := a\<rparr>) = resting le c"
    "resting le (c\<lparr>c_watchNo := n\<rparr>) = resting le c" "resting le (c\<lparr>c_watchAck := k\<rparr>) = resting le c"
  by (simp_all add: resting_def good_def)

lemma forward_resting:
  assumes "forward cx x s c = (r, c')" and "resting le c" and "harmless x" and "redis_name x \<noteq> ''MULTI''"
  shows "resting le c'"
proof (cases "r = COk")
  case True
  with harmless_forward [OF assms(1) _ _ _ assms(3,4), of le] assms(2) forward_uw(1) [OF assms(1)] show ?thesis
    by (auto simp: resting_def after_def)
next
  case False
  with assms(2) forward_uw [OF assms(1)] show ?thesis by (simp add: resting_def good_def)
qed

lemma reply_resting: "resting le c \<Longrightarrow> resting le (reply cx b c)"
  using reply_after [of le c cx b] reply_uw(1) [of cx b c] by (auto simp: resting_def after_def)

lemma authenticate_resting: "authenticate cx user pass c = (b, c') \<Longrightarrow> resting le c \<Longrightarrow> resting le c'"
  by (auto simp: authenticate_def intro: reply_resting split: option.split_asm)

lemma ensureUpstream_resting: "ensureUpstream cx c = (b, c') \<Longrightarrow> resting le c \<Longrightarrow> resting le c'"
  using own_harmless(5)
  by (auto simp: ensureUpstream_def redis_name_def own_names intro: forward_resting split: if_split_asm prod.split_asm)

lemma auth_resting:
  assumes "auth cx args c = (b, c')" and "resting le c"
  shows "resting le c'"
proof (cases "length args \<noteq> 2 \<and> length args \<noteq> 3")
  case True
  with assms reply_resting show ?thesis by (auto simp: auth_def)
next
  case False
  then obtain user pass where ar: "auth cx args c = (case authenticate cx user pass c of
           (False, c1) \<Rightarrow> (True, c1)
         | (True, c1) \<Rightarrow>
             (case ensureUpstream cx c1 of
                (False, c2) \<Rightarrow> (False, c2)
              | (True, c2) \<Rightarrow>
                  (case forward cx [''CLIENT'', ''SETNAME'', upstreamName c2] drop_slot c2 of
                     (COk, c3) \<Rightarrow> (True, reply cx (''+OK'' @ CRLF) c3)
                   | (r, c3) \<Rightarrow> (False, c3))))"
    by (auto simp: auth_def)
  obtain b1 c1 where a: "authenticate cx user pass c = (b1, c1)" by (rule prod.exhaust)
  obtain b2 c2 where e: "ensureUpstream cx c1 = (b2, c2)" by (rule prod.exhaust)
  obtain r3 c3 where f: "forward cx [''CLIENT'', ''SETNAME'', upstreamName c2] drop_slot c2 = (r3, c3)" by (rule prod.exhaust)
  have 1: "resting le c1" by (rule authenticate_resting [OF a assms(2)])
  have 2: "resting le c2" by (rule ensureUpstream_resting [OF e 1])
  have 3: "resting le c3" by (rule forward_resting [OF f 2 own_harmless(6)]) (simp add: redis_name_def own_names)
  have "c' = c1 \<or> c' = c2 \<or> c' = c3 \<or> c' = reply cx (''+OK'' @ CRLF) c3"
    using assms(1) ar a e f by (cases b1; cases b2; cases r3; simp)
  with 1 2 3 reply_resting [OF 3] show ?thesis by auto
qed

lemma hello_send_resting:
  assumes "hello_send cx args c = (b, c')" and "resting le c"
  shows "resting le c'"
proof -
  obtain b1 c1 where e: "ensureUpstream cx c = (b1, c1)" by (rule prod.exhaust)
  have 1: "resting le c1" by (rule ensureUpstream_resting [OF e assms(2)])
  have h: "resting le c2" if "forward cx [''HELLO''] plain_slot c1 = (r, c2)" for r c2
    by (rule forward_resting [OF that 1 own_harmless(2)]) (simp add: redis_name_def own_names)
  have h2: "resting le c2" if "forward cx [''HELLO'', v, ''SETNAME'', nm] plain_slot (c1\<lparr>c_resp3 := x\<rparr>) = (r, c2)" for r c2 v nm x
    by (rule forward_resting [OF that _ own_harmless(7)]) (use 1 in \<open>simp_all add: redis_name_def own_names\<close>)
  show ?thesis using assms(1) e 1 h h2 by (auto simp: hello_send_def split: if_split_asm prod.split_asm bool.split_asm)
qed

lemma hello_resting:
  assumes "hello cx args c = (b, c')" and "resting le c"
  shows "resting le c'"
proof -
  have "resting le c2" if a: "authenticate cx user pass c = (True, c1)" and h: "hello_send cx args c1 = (r, c2)" for user pass c1 r c2
    by (rule hello_send_resting [OF h authenticate_resting [OF a assms(2)]])
  with assms reply_resting [OF assms(2)] hello_send_resting authenticate_resting show ?thesis
    by (auto simp: hello_def split: if_split_asm sum.split_asm option.split_asm prod.split_asm bool.split_asm)
qed

lemma local_cmd_resting:
  assumes "resting le c"
  shows "resting le (local_cmd cx p args c)"
proof -
  obtain b e where h: "HandleLocal (y_local cx) p args (c_engine c) = (b, e)" by (rule prod.exhaust)
  have "resting le (case b of Some x \<Rightarrow> reply cx x (c\<lparr>c_engine := e\<rparr>) | None \<Rightarrow> c\<lparr>c_engine := e\<rparr>)"
    using assms by (cases b) (simp_all add: reply_resting)
  with reply_resting [OF assms] show ?thesis unfolding local_cmd_def Let_def h by (simp split: option.split)
qed

lemma selectDB_after:
  assumes "selectDB cx p args c = (r, c')" and "resting le c" and "harmless args" and "redis_name args \<noteq> ''MULTI''"
  shows "resting le c'"
proof -
  have f: "resting le c1" if "forward cx args s c = (q, c1)" for s q c1 by (rule forward_resting [OF that assms(2-4)])
  show ?thesis
  proof (cases "select_arg args")
    case None
    with assms(1) f show ?thesis by (simp add: selectDB_def)
  next
    case (Some n)
    obtain q c1 where g: "forward cx args (hook_slot HookSelect) c = (q, c1)" by (rule prod.exhaust)
    have "c' \<in> {reply cx (Reply (refuse ReasonAdminOnly (''SELECT '' @ FormatInt n @ '': not a configured DB''))) c, c1, c1\<lparr>c_await := Some n\<rparr>}"
      using assms(1) Some g by (cases q) (auto simp: selectDB_def split: if_split_asm)
    with f [OF g] reply_resting [OF assms(2)] show ?thesis by auto
  qed
qed

lemma subscribe_after:
  assumes "subscribe cx args name c = (r, c')" and "resting le c" and "harmless args" and "redis_name args \<noteq> ''MULTI''"
  shows "resting le c'"
proof -
  obtain s b where "forward cx args s (c\<lparr>c_subscribed := b\<rparr>) = (r, c')"
  proof (cases "name = ''PUBSUB'' \<or> c_resp3 c")
    case True
    then obtain s where "forward cx args s (c\<lparr>c_subscribed := c_subscribed c\<rparr>) = (r, c')"
      using assms(1) by (auto simp: subscribe_def Let_def split: if_split_asm)
    then show ?thesis by (rule that)
  next
    case False
    then show ?thesis using assms(1) by (intro that [of _ True]) (auto simp: subscribe_def)
  qed
  from forward_resting [OF this _ assms(3,4)] assms(2) show ?thesis by simp
qed

lemma class_cmd_after:
  assumes "class_cmd cx p args info c = (r, c')" and "resting le c" and "redis_name args \<noteq> ''MULTI''"
    and "\<not> needsGate info \<Longrightarrow> harmless args" and "c_principal c = Some p" and "y_leaseEngine cx = le"
  shows "after bad aborts le r c'"
proof (cases "needsGate info \<and> c_class info \<noteq> ClassForbidden \<and> c_class info \<noteq> ClassLocal \<and> c_class info \<noteq> ClassPubSub")
  case True
  with assms(1) have "gateBare cx p args info c = (r, c')" by (simp add: class_cmd_def)
  from gateBare_after [OF this] assms show ?thesis by (simp add: resting_def)
next
  case False
  have "resting le c'"
  proof (cases "needsGate info")
    case True
    with False have "c_class info = ClassForbidden \<or> c_class info = ClassLocal" by (auto simp: needsGate_def split: if_split_asm)
    with assms(1) reply_resting [OF assms(2)] local_cmd_resting [OF assms(2)] show ?thesis by (auto simp: class_cmd_def)
  next
    case ng: False
    note h = assms(4) [OF ng]
    have "c_class info \<noteq> ClassForbidden" "c_class info \<noteq> ClassLocal" using ng by (auto simp: needsGate_def)
    with assms(1) ng have "subscribe cx args (c_name info) c = (r, c') \<or> forward cx args plain_slot c = (r, c')"
      by (simp add: class_cmd_def split: if_split_asm)
    with subscribe_after [OF _ assms(2) h assms(3)] forward_resting [OF _ assms(2) h assms(3)] show ?thesis by blast
  qed
  then show ?thesis by (rule resting_after)
qed

end

subsection \<open>A command and its forwarded form\<close>

definition forwarded_as :: "bytes list \<Rightarrow> command \<Rightarrow> bool" where
  "forwarded_as args info \<longleftrightarrow> (\<exists>a. a \<noteq> [] \<and> Classify a = Some info \<and> args = (if c_script info \<noteq> [] then roArgs a else a))"

lemma roArgs_cases: "roArgs a = a \<or> hd (roArgs a) = ''EVAL_RO'' \<or> hd (roArgs a) = ''EVALSHA_RO''"
  by (cases a) (auto simp: roArgs_def)

lemma forwarded_name:
  assumes "forwarded_as args info" and "redis_name args \<in> {''MULTI'', ''EXEC'', ''DISCARD'', ''WATCH'', ''QUIT'', ''RESET''}"
  shows "c_name info = redis_name args"
proof -
  obtain a where a: "a \<noteq> []" "Classify a = Some info" "args = (if c_script info \<noteq> [] then roArgs a else a)"
    using assms(1) by (auto simp: forwarded_as_def)
  have "args = a" using a(3) roArgs_cases [of a] assms(2) by (auto simp: redis_name_def own_names split: if_split_asm)
  with name_agrees [OF assms(2)] Classify_name [OF a(2,1)] show ?thesis by simp
qed

lemma Classify_script_name:
  assumes "Classify a = Some info" and "c_script info \<noteq> []"
  shows "c_class info \<noteq> ClassWrite"
proof -
  have s: "cl \<noteq> ClassWrite" if "classifyScript n a = Some (cl, ks, raw, sha)" for n cl ks raw sha
    using classifyScript_class [OF that] by auto
  from assms s show ?thesis
    unfolding Classify_def Let_def mk_command_def
    by (auto split: if_split_asm option.split_asm prod.split_asm)
qed

lemma forwarded_classified: "forwarded_as args info \<Longrightarrow> classified \<lparr>cmd_args = args, cmd_info = info\<rparr>"
  by (auto simp: forwarded_as_def classified_def dest: Classify_script_name)

lemma forwarded_harmless: "forwarded_as args info \<Longrightarrow> \<not> needsGate info \<Longrightarrow> harmless args"
  using harmlessI by (auto simp: forwarded_as_def)

lemma forwarded_ungated: "forwarded_as args info \<Longrightarrow> c_name info \<in> set ungated_names \<Longrightarrow> harmless args"
  by (rule forwarded_harmless, assumption) (auto simp: forwarded_as_def dest: conn_names)

lemma forwarded_hd:
  assumes "forwarded_as args info" and "c_name info \<in> {''MULTI'', ''EXEC'', ''DISCARD'', ''WATCH''}"
  shows "ToUpper (hd args) = c_name info"
proof -
  obtain a where a: "a \<noteq> []" "Classify a = Some info" "args = (if c_script info \<noteq> [] then roArgs a else a)"
    using assms(1) by (auto simp: forwarded_as_def)
  have n: "ToUpper (a ! 0) = c_name info" using Classify_name [OF a(2,1)] a(1) by (simp add: hd_conv_nth)
  then have "roArgs a = a" using assms(2) by (auto simp: roArgs_def)
  with a n show ?thesis by (simp add: hd_conv_nth)
qed

lemma RESET_is_forbidden:
  assumes "forwarded_as args info" and "c_name info = ''RESET''"
  shows "c_class info = ClassForbidden"
proof -
  obtain a where a: "a \<noteq> []" "Classify a = Some info" using assms(1) by (auto simp: forwarded_as_def)
  have t: "map_of commands ''RESET'' = Some (ClassForbidden, kNone)" "\<not> HasPrefix ''RESET'' ''JM.''" "ks_step kNone = 0" by code_simp+
  have "ToUpper (hd a) = ''RESET''" using Classify_name [OF a(2,1)] assms(2) by simp
  with a t show ?thesis by (auto simp: Classify_def classifySub_def Let_def mk_command_def)
qed

text \<open>The one demand on a client: outside a transaction its MULTI has no argument and an ASCII name.\<close>

definition plain_multi :: "bytes list \<Rightarrow> bool" where
  "plain_multi args \<longleftrightarrow> (ToUpper (hd args) = ''MULTI'' \<longrightarrow> redis_name args = ''MULTI'' \<and> length args = 1)"

context redis_server
begin

lemma bare_cmd_after:
  assumes "bare_cmd cx p args info c = (r, c')" and "resting le c" and "forwarded_as args info" and "plain_multi args"
    and "c_principal c = Some p" and "y_leaseEngine cx = le"
  shows "after bad aborts le r c'"
proof (cases "c_name info = ''MULTI''")
  case True
  let ?c = "c\<lparr>c_txn := Some \<lparr>tx_cmds = [], tx_poison = []\<rparr>\<rparr>"
  have m: "redis_name args = ''MULTI''" "length args = 1"
    using forwarded_hd [OF assms(3)] True assms(4) by (auto simp: plain_multi_def)
  have f: "forward cx args plain_slot ?c = (r, c')" using assms(1) True by (simp add: bare_cmd_def)
  have "good bad aborts le ?c" using assms(2) by (simp add: resting_def good_def)
  moreover have "linked (redis_step bad aborts args (redis_run bad aborts (c_uw c))) (Some \<lparr>tx_cmds = [], tx_poison = []\<rparr>) \<and>
      ran_ok (c_units c) (redis_step bad aborts args (redis_run bad aborts (c_uw c)))"
    by (rule step_multi [OF _ _ m]) (use assms(2) in \<open>auto simp: resting_def good_def\<close>)
  ultimately show ?thesis using forward_after [OF f] by simp
next
  case False
  have nm: "redis_name args \<noteq> ''MULTI''" using forwarded_name [OF assms(3)] False by auto
  note h = forwarded_ungated [OF assms(3)]
  have fw: "resting le c2" if "forward cx args s (c\<lparr>c_watched := w\<rparr>) = (q, c2)" "harmless args" for s w q c2
    using forward_resting [OF that(1) _ that(2) nm] assms(2) by simp
  show ?thesis
  proof (cases "c_name info \<in> {''AUTH'', ''HELLO'', ''QUIT'', ''SELECT'', ''EXEC'', ''DISCARD'', ''UNWATCH'', ''WATCH''} \<or>
      c_name info = ''CLIENT'' \<and> 3 \<le> length args \<and> fold_ascii (args ! 1) = ''SETNAME''")
    case False
    then have "class_cmd cx p args info c = (r, c')"
      using assms(1) \<open>c_name info \<noteq> ''MULTI''\<close> by (auto simp: bare_cmd_def Let_def)
    from class_cmd_after [OF this assms(2) nm forwarded_harmless [OF assms(3)] assms(5,6)] show ?thesis .
  next
    case True
    have w: "resting le c2" if wc: "watch_cmd cx args c = (q, c2)" and hm: "harmless args" for q c2
      by (rule forward_resting [OF wc [unfolded watch_cmd_def Let_def] _ hm nm]) (use assms(2) in simp)
    have cl: "resting le c2" if fc: "forward cx [''CLIENT'', ''SETNAME'', upstreamName c] plain_slot c = (q, c2)" for q c2
      by (rule forward_resting [OF fc assms(2) own_harmless(6)]) (simp add: redis_name_def own_names)
    have "resting le c'"
      using True
    proof (elim disjE)
      assume "c_name info \<in> {''AUTH'', ''HELLO'', ''QUIT'', ''SELECT'', ''EXEC'', ''DISCARD'', ''UNWATCH'', ''WATCH''}"
      then consider "c_name info = ''AUTH''" | "c_name info = ''HELLO''" | "c_name info = ''QUIT''" | "c_name info = ''SELECT''"
        | "c_name info \<in> {''EXEC'', ''DISCARD'', ''UNWATCH''}" | "c_name info = ''WATCH''" by blast
      then show ?thesis
      proof cases
        case 1
        then have "c' = snd (auth cx args c)" using assms(1) by (simp add: bare_cmd_def)
        then show ?thesis using auth_resting [OF _ assms(2)] by (metis prod.collapse)
      next
        case 2
        then have "c' = snd (hello cx args c)" using assms(1) by (simp add: bare_cmd_def)
        then show ?thesis using hello_resting [OF _ assms(2)] by (metis prod.collapse)
      next
        case 3
        then have "forward cx args plain_slot (c\<lparr>c_watched := c_watched c\<rparr>) = (r, c')" using assms(1) by (simp add: bare_cmd_def)
        then show ?thesis by (rule fw) (use h 3 in \<open>simp add: ungated_names_def\<close>)
      next
        case 4
        then have "selectDB cx p args c = (r, c')" using assms(1) by (simp add: bare_cmd_def)
        then show ?thesis by (rule selectDB_after [OF _ assms(2) _ nm]) (use h 4 in \<open>simp add: ungated_names_def\<close>)
      next
        case 5
        then have "forward cx args plain_slot (c\<lparr>c_watched := []\<rparr>) = (r, c')" using assms(1) by (auto simp: bare_cmd_def)
        then show ?thesis by (rule fw) (use h 5 in \<open>auto simp: ungated_names_def\<close>)
      next
        case 6
        then have "watch_cmd cx args c = (r, c')" using assms(1) by (simp add: bare_cmd_def)
        then show ?thesis by (rule w) (use h 6 in \<open>simp add: ungated_names_def\<close>)
      qed
    next
      assume "c_name info = ''CLIENT'' \<and> 3 \<le> length args \<and> fold_ascii (args ! 1) = ''SETNAME''"
      then have "forward cx [''CLIENT'', ''SETNAME'', upstreamName c] plain_slot c = (r, c')" using assms(1) by (simp add: bare_cmd_def)
      then show ?thesis by (rule cl)
    qed
    then show ?thesis by (rule resting_after)
  qed
qed

lemma inTxn_after:
  assumes "inTxn cx p t args info c = (r, c')" and "good bad aborts le c" and "linked (redis_run bad aborts (c_uw c)) (c_txn c)"
    and "c_txn c = Some t" and "forwarded_as args info" and "c_principal c = Some p" and "y_leaseEngine cx = le" and "receipts_are_scripts cx"
  shows "after bad aborts le r c'"
proof (cases "c_name info = ''EXEC''")
  case True
  with assms(1) have "exec cx p t c = (r, c')" by (simp add: inTxn_def)
  from exec_after [OF this assms(2-4,6-8)] show ?thesis .
next
  case ne: False
  have lk: "linked (redis_run bad aborts (c_uw c)) (Some t)" using assms(3,4) by simp
  have ro: "ran_ok (c_units c) (redis_run bad aborts (c_uw c))" and ct: "\<forall>cm \<in> set (tx_cmds t). classified cm"
    using assms(2,4) by (simp_all add: good_def)
  show ?thesis
  proof (cases "c_name info = ''DISCARD''")
    case True
    let ?c = "c\<lparr>c_txn := None, c_watched := []\<rparr>"
    have f: "forward cx args plain_slot ?c = (r, c')" using assms(1) ne True by (simp add: inTxn_def)
    have "good bad aborts le ?c" using assms(2) by (simp add: good_def)
    with forward_after [OF f] step_discard [OF lk ro] forwarded_hd [OF assms(5)] True show ?thesis by simp
  next
    case nd: False
    show ?thesis
    proof (cases "c_name info = ''MULTI'' \<or> c_name info = ''WATCH''")
      case True
      then have f: "forward cx args plain_slot c = (r, c')" using assms(1) ne nd by (simp add: inTxn_def)
      have "ToUpper (hd args) \<in> {''MULTI'', ''WATCH''}" using forwarded_hd [OF assms(5)] True by auto
      with forward_after [OF f assms(2)] step_nested [OF lk ro] assms(4) show ?thesis by simp
    next
      case nm: False
      show ?thesis
      proof (cases "not_in_multi info")
        case True
        let ?t = "if tx_poison t = [] then t\<lparr>tx_poison := c_name info @ '' inside MULTI''\<rparr> else t"
        let ?c = "c\<lparr>c_txn := Some ?t\<rparr>"
        have rc: "r = COk" "c' = reply cx (errReply (''ERR proxy: '' @ c_name info @ '' is not allowed inside MULTI'')) ?c"
          using assms(1) ne nd nm True by (simp_all add: inTxn_def Let_def)
        have "good bad aborts le ?c" using assms(2) ct by (simp add: good_def)
        moreover have "linked (redis_run bad aborts (c_uw ?c)) (c_txn ?c)" using lk by simp
        ultimately show ?thesis unfolding rc by (rule reply_after) auto
      next
        case False
        let ?c = "c\<lparr>c_txn := Some (queued_cmd args info t)\<rparr>"
        have f: "forward cx args plain_slot ?c = (r, c')" using assms(1) ne nd nm False by (simp add: inTxn_def)
        have g: "good bad aborts le ?c" using assms(2) ct forwarded_classified [OF assms(5)] by (auto simp: good_def queued_cmd_def)
        have "c_name info \<noteq> ''QUIT''" "c_class info \<noteq> ClassForbidden" using False by (auto simp: not_in_multi_def)
        then have "c_name info \<notin> {''EXEC'', ''DISCARD'', ''MULTI'', ''WATCH'', ''QUIT'', ''RESET''}"
          using ne nd nm RESET_is_forbidden [OF assms(5)] by auto
        then have nn: "redis_name args \<notin> {''EXEC'', ''DISCARD'', ''MULTI'', ''WATCH'', ''QUIT'', ''RESET''}"
          using forwarded_name [OF assms(5)] by auto
        have "linked (redis_step bad aborts args (redis_run bad aborts (c_uw c))) (Some (queued_cmd args info t)) \<and>
            ran_ok (c_units c) (redis_step bad aborts args (redis_run bad aborts (c_uw c)))"
          using step_queue [of "redis_run bad aborts (c_uw c)" "tx_poison t \<noteq> []" "map cmd_args (tx_cmds t)" args, OF _ nn] lk ro
          by (auto simp: queued_cmd_def ran_ok_def)
        with forward_after [OF f g] show ?thesis by simp
      qed
    qed
  qed
qed

lemma command_turn_after:
  assumes "command_turn cx args c = (r, c')" and "good bad aborts le c" and "linked (redis_run bad aborts (c_uw c)) (c_txn c)"
    and "args \<noteq> []" and "\<not> c_subscribed c" and "plain_multi args" and "y_leaseEngine cx = le" and "receipts_are_scripts cx"
  shows "after bad aborts le r c'"
proof -
  have stop: "after bad aborts le q c" for q using assms(2,3) by (simp add: after_def)
  show ?thesis
  proof (cases "c_revoked c")
    case True
    with assms(1,4) stop show ?thesis by (simp add: command_turn_def)
  next
    case nr: False
    obtain q c1 where cm: "conn_command cx args c = (q, c1)" by (rule prod.exhaust)
    have a: "after bad aborts le q c1"
    proof (cases "Classify args")
      case None
      with cm nr stop show ?thesis by (simp add: conn_command_def)
    next
      case (Some info)
      let ?a = "if c_script info \<noteq> [] then roArgs args else args"
      have fa: "forwarded_as ?a info" using Some assms(4) by (auto simp: forwarded_as_def)
      have pm: "plain_multi ?a"
        using assms(6) roArgs_cases [of args] own_names by (auto simp: plain_multi_def ToUpper_ascii)
      have d: "dispatch cx ?a info c = (q, c1)" using cm nr Some by (simp add: conn_command_def)
      show ?thesis
      proof (cases "c_principal c")
        case None
        with d assms(5) stop show ?thesis by (simp add: dispatch_def)
      next
        case pr: (Some p)
        show ?thesis
        proof (cases "c_txn c")
          case None
          with d pr assms(5) have b: "bare_cmd cx p ?a info c = (q, c1)" by (simp add: dispatch_def)
          have "resting le c" using assms(2,3) None by (simp add: resting_def)
          from bare_cmd_after [OF b this fa pm pr assms(7)] show ?thesis .
        next
          case (Some t)
          with d pr assms(5) have b: "inTxn cx p t ?a info c = (q, c1)" by (simp add: dispatch_def)
          from inTxn_after [OF b assms(2,3) Some fa pr assms(7,8)] show ?thesis .
        qed
      qed
    qed
    have "c' = c1 \<and> (r = COk \<longrightarrow> q = COk)" using assms(1,4) nr cm by (cases q) (auto simp: command_turn_def split: if_split_asm)
    with a show ?thesis by (auto simp: after_def)
  qed
qed

lemma preAuth_resting:
  assumes "preAuth_step cx args c = (b, c')" and "resting le c"
  shows "resting le c'"
proof (cases "args = [] \<or> Classify args = None")
  case True
  then have "c' = c" using assms(1) by (cases "args = []") (simp_all add: preAuth_step_def)
  with assms(2) show ?thesis by simp
next
  case False
  then obtain info where i: "Classify args = Some info" "args \<noteq> []" by blast
  have au: "resting le (snd (auth cx args c))" using auth_resting [OF _ assms(2)] by (metis prod.collapse)
  have he: "resting le (snd (hello cx args c))" using hello_resting [OF _ assms(2)] by (metis prod.collapse)
  have "c' \<in> {snd (auth cx args c), snd (hello cx args c), reply cx (''+OK'' @ CRLF) c, reply cx (Reply (refuse ReasonAuthRequired [])) c}"
    using assms(1) i by (auto simp: preAuth_step_def Let_def apfst_def map_prod_def split: if_split_asm prod.split_asm)
  with au he reply_resting [OF assms(2)] show ?thesis by auto
qed

end

subsection \<open>A Redis that keeps the contract\<close>

text \<open>The least a Redis rejects: names that are not plain ASCII, and a \<^verbatim>\<open>MULTI\<close> with arguments.\<close>

definition redis_rejects :: "nat \<Rightarrow> bytes list \<Rightarrow> bool" where
  "redis_rejects i x \<longleftrightarrow> x = [] \<or> redis_name x \<noteq> ToUpper (hd x) \<or> redis_name x = ''MULTI'' \<and> length x \<noteq> 1"

interpretation redis: redis_server redis_rejects aborts for aborts
proof unfold_locales
  show "redis_name x = ToUpper (hd x)" if "\<not> redis_rejects i x" for i x using that by (simp add: redis_rejects_def)
  show "\<not> redis_rejects i x" if "redis_name x = ''MULTI''" "length x = 1" for i x
    using that name_agrees [of x] by (auto simp: redis_rejects_def)
qed

subsection \<open>Relaying leaves the log alone\<close>

definition keeps_log :: "pconn \<Rightarrow> pconn \<Rightarrow> bool" where
  "keeps_log c c' \<longleftrightarrow> c_uw c' = c_uw c \<and> c_txn c' = c_txn c \<and> c_units c' = c_units c \<and> c_subscribed c' = c_subscribed c"

lemma quiet_keeps_log: "quiet c c' \<Longrightarrow> keeps_log c c'"
  by (simp add: quiet_def keeps_log_def)

lemma push_slot_keeps: "keeps_log c (push_slot cx kd n c)"
  by (simp add: push_slot_def keeps_log_def Let_def split: list.split)

lemma pushFrame_keeps: "keeps_log c (pushFrame cx v c)"
  using push_slot_keeps by (auto simp: pushFrame_def keeps_log_def Let_def split: list.split option.split)

lemma frame_keeps:
  assumes "frame cx sz ur c = (r, c')"
  shows "keeps_log c c'"
proof (cases "ur = [] \<or> c_rawmode c \<or> hd ur = CHR ''>'' \<or> c_q c = []")
  case True
  have "keeps_log c ((pushFrame cx v c)\<lparr>c_cw := b\<rparr>)" for v b using pushFrame_keeps [of c cx v] by (simp add: keeps_log_def)
  moreover have "keeps_log c c" "keeps_log c (c\<lparr>c_cw := b\<rparr>)" for b by (simp_all add: keeps_log_def)
  ultimately show ?thesis
    using assms True by (auto simp: frame_def Let_def split: if_split_asm sum.split_asm prod.split_asm list.split_asm)
next
  case False
  then obtain s q where q: "c_q c = s # q" by (cases "c_q c") auto
  let ?c1 = "account cx (- slotCost) (c\<lparr>c_q := q, c_fwd := c_fwd c - 1, c_rawmode := sl_toRaw s\<rparr>)"
  obtain o2 c2 where f: "slot_frame cx sz s ur ?c1 = (o2, c2)" by (rule prod.exhaust)
  have k: "keeps_log c c2" using quiet_keeps_log [OF slot_frame_quiet [OF f]] by (simp add: keeps_log_def)
  have r: "keeps_log c (run_done cx oc d x)" if "keeps_log c x" for oc d x
    using that quiet_keeps_log [OF run_done_quiet [of x cx oc d]] by (simp add: keeps_log_def)
  have w: "keeps_log c (c2\<lparr>c_cw := b\<rparr>)" for b using k by (simp add: keeps_log_def)
  have "keeps_log c c" by (simp add: keeps_log_def)
  with False q f k w show ?thesis
    using assms by (cases o2) (auto simp: frame_def Let_def split: if_split_asm prod.split_asm intro: r)
qed

lemma reply_turn_keeps:
  assumes "reply_turn cx sz ur c = (r, c')"
  shows "keeps_log c c'"
proof -
  have s: "keeps_log c x \<Longrightarrow> keeps_log c (fold (write_synth1 cx) bs x)" for bs x
    by (induction bs arbitrary: x) (simp_all add: keeps_log_def write_synth1_def Let_def)
  obtain r1 c1 where f: "frame cx sz ur c = (r1, c1)" by (rule prod.exhaust)
  show ?thesis
    using assms f s [OF frame_keeps [OF f]] frame_keeps [OF f]
    by (cases r1) (auto simp: reply_turn_def writeSynth_def)
qed

end
