(* ===== verification/Conn_Run.thy ===== *)
theory Conn_Run
  imports Conn_Gate
begin

section \<open>Complete mediation\<close>

text \<open>
  A connection from its first command to its end, in every interleaving with the reply goroutine and the
  other connections: Redis executes nothing that was not decided.  The same model shows the way around the
  decision that a \<^verbatim>\<open>MULTI\<close> with an argument opens.
\<close>

subsection \<open>A pub/sub stream is never inside MULTI\<close>

definition same_mode :: "pconn \<Rightarrow> pconn \<Rightarrow> bool" where
  "same_mode c c' \<longleftrightarrow> c_txn c' = c_txn c \<and> c_subscribed c' = c_subscribed c"

lemma same_mode_refl [simp]: "same_mode c c"
  and same_mode_trans: "same_mode a b \<Longrightarrow> same_mode b c \<Longrightarrow> same_mode a c"
  by (simp_all add: same_mode_def)

lemma same_mode_quiet: "quiet c c' \<Longrightarrow> same_mode c c'"
  by (simp add: quiet_def same_mode_def)

lemma same_mode_upd [simp]:
  "same_mode c (c'\<lparr>c_principal := x\<rparr>) = same_mode c c'" "same_mode c (c'\<lparr>c_up := b\<rparr>) = same_mode c c'"
  "same_mode c (c'\<lparr>c_resp3 := b\<rparr>) = same_mode c c'" "same_mode c (c'\<lparr>c_engine := e\<rparr>) = same_mode c c'"
  "same_mode c (c'\<lparr>c_cw := w\<rparr>) = same_mode c c'" "same_mode c (c'\<lparr>c_watched := ws\<rparr>) = same_mode c c'"
  "same_mode c (c'\<lparr>c_await := a\<rparr>) = same_mode c c'" "same_mode c (c'\<lparr>c_watchNo := n\<rparr>) = same_mode c c'"
  "same_mode c (c'\<lparr>c_watchAck := k\<rparr>) = same_mode c c'" "same_mode c (note_unit u d xs c') = same_mode c c'"
  by (simp_all add: same_mode_def note_unit_def)

lemma reply_mode [simp]: "same_mode c (reply cx b c') = same_mode c c'"
  by (simp add: same_mode_def reply_def Let_def)

lemma run_done_mode [simp]: "same_mode c (run_done cx oc d c') = same_mode c c'"
  using run_done_quiet [of c' cx oc d] by (simp add: quiet_def same_mode_def)

lemma abandon_mode [simp]: "same_mode c (abandon cx p dn c') = same_mode c c'"
  using abandon_quiet [of c' cx p dn] by (simp add: quiet_def same_mode_def)

lemma forward_mode [simp]: "same_mode c (snd (forward cx x s c')) = same_mode c c'"
  by (simp add: forward_def Let_def) (simp add: same_mode_def)

lemma forward_modeI: "forward cx x s c = (r, c') \<Longrightarrow> same_mode c c'"
  using forward_mode [of c cx x s c] by simp

lemma cthen_mode: "same_mode c (snd m) \<Longrightarrow> (\<And>c1. same_mode c c1 \<Longrightarrow> same_mode c (snd (f c1))) \<Longrightarrow> same_mode c (snd (cthen m f))"
  by (cases m; cases "fst m") auto

lemma forward_hidden_mode: "same_mode c c' \<Longrightarrow> same_mode c (snd (forward_hidden cx as c'))"
  by (induction as arbitrary: c') (auto intro!: cthen_mode)

lemma exec_send_mode: "same_mode c c' \<Longrightarrow> same_mode c (snd (exec_send cx p dn c'))"
  unfolding exec_send_def
  by (intro cthen_mode forward_hidden_mode) (auto split: option.split prod.split cres.split dest!: forward_modeI intro: same_mode_trans)

lemma exec_mode:
  assumes "exec cx p t c = (r, c')"
  shows "c_subscribed c' = c_subscribed c"
proof -
  let ?c = "c\<lparr>c_txn := None, c_watched := [], c_trashAlloc := None\<rparr>"
  obtain d c1 where e: "exec_decide cx p t (exec_unit cx t c) ?c = (d, c1)" by (rule prod.exhaust)
  have m: "same_mode ?c c1" by (rule same_mode_quiet [OF exec_decide_quiet [OF e]])
  have "same_mode ?c (snd (exec cx p t c))"
    using m by (auto simp: exec_def Let_def e split: option.split intro!: cthen_mode exec_send_mode)
  with assms show ?thesis by (simp add: same_mode_def)
qed

lemma reply_sel [simp]: "c_txn (reply cx b c) = c_txn c" "c_subscribed (reply cx b c) = c_subscribed c"
  by (simp_all add: reply_def Let_def)

lemma inTxn_mode:
  assumes "inTxn cx p t args info c = (r, c')"
  shows "c_subscribed c' = c_subscribed c"
  using assms by (auto simp: inTxn_def Let_def same_mode_def dest: exec_mode dest!: forward_modeI split: if_split_asm)

lemma authenticate_mode: "authenticate cx user pass c = (b, c') \<Longrightarrow> same_mode c c'"
  by (auto simp: authenticate_def split: option.split_asm)

lemma ensureUpstream_mode: "ensureUpstream cx c = (b, c') \<Longrightarrow> same_mode c c'"
  by (auto simp: ensureUpstream_def dest!: forward_modeI split: if_split_asm prod.split_asm) (simp_all add: same_mode_def)

lemma auth_login_mode:
  assumes "same_mode c c1"
  shows "same_mode c (snd (case ensureUpstream cx c1 of (False, c2) \<Rightarrow> (False, c2)
    | (True, c2) \<Rightarrow> (case forward cx [''CLIENT'', ''SETNAME'', upstreamName c2] drop_slot c2 of
        (COk, c3) \<Rightarrow> (True, reply cx b c3) | (r, c3) \<Rightarrow> (False, c3))))"
proof -
  obtain e c2 where u: "ensureUpstream cx c1 = (e, c2)" by (rule prod.exhaust)
  have m2: "same_mode c c2" by (rule same_mode_trans [OF assms ensureUpstream_mode [OF u]])
  obtain r c3 where f: "forward cx [''CLIENT'', ''SETNAME'', upstreamName c2] drop_slot c2 = (r, c3)" by (rule prod.exhaust)
  have m3: "same_mode c c3" by (rule same_mode_trans [OF m2 forward_modeI [OF f]])
  show ?thesis
  proof (cases e)
    case True
    with u f m3 show ?thesis by (cases r) simp_all
  qed (simp add: u m2)
qed

lemma auth_mode: "same_mode c (snd (auth cx args c))"
proof -
  let ?l = "if length args = 2 then authenticate cx ''default'' (args ! 1) c else authenticate cx (args ! 1) (args ! 2) c"
  obtain b c1 where a: "?l = (b, c1)" by (rule prod.exhaust)
  have m1: "same_mode c c1" using a authenticate_mode by (simp split: if_split_asm)
  show ?thesis
  proof (cases "length args \<noteq> 2 \<and> length args \<noteq> 3")
    case True
    then show ?thesis unfolding auth_def if_P [OF True] by simp
  next
    case False
    show ?thesis unfolding auth_def if_not_P [OF False] a
      by (cases b) (simp_all only: prod.case bool.case snd_conv m1 auth_login_mode [OF m1])
  qed
qed

lemma hello_mode: "same_mode c (snd (hello cx args c))"
proof -
  have h: "same_mode c (snd (hello_send cx args c1))" if m: "same_mode c c1" for c1
  proof -
    obtain b c2 where e: "ensureUpstream cx c1 = (b, c2)" by (rule prod.exhaust)
    have "same_mode c c2" by (rule same_mode_trans [OF m ensureUpstream_mode [OF e]])
    with e show ?thesis by (cases b) (simp_all add: hello_send_def case_prod_beta)
  qed
  show ?thesis by (auto simp: hello_def dest!: authenticate_mode split: sum.split option.split prod.split bool.split intro: h)
qed

lemma local_cmd_mode: "same_mode c (local_cmd cx p args c)"
  unfolding local_cmd_def Let_def
  by (cases "HandleLocal (y_local cx) p args (c_engine c)"; cases "fst (HandleLocal (y_local cx) p args (c_engine c))") simp_all

lemma gateBare_mode: "same_mode c (snd (gateBare cx p args info c))"
proof -
  obtain d c1 where e: "conn_decide cx p (newUnit cx UnitBare [\<lparr>cmd_args = args, cmd_info = info\<rparr>] c) c = (d, c1)" by (rule prod.exhaust)
  have "same_mode c c1" by (rule same_mode_quiet [OF conn_decide_quiet [OF e]])
  then show ?thesis by (auto simp: gateBare_def Let_def e split: option.split)
qed

lemma selectDB_mode: "same_mode c (snd (selectDB cx p args c))"
  by (auto simp: selectDB_def split: option.split intro!: cthen_mode)

lemma bare_cmd_mode:
  assumes "bare_cmd cx p args info c = (r, c')"
  shows "c_txn c' = c_txn c \<or> c_subscribed c' = c_subscribed c"
proof -
  have f: "c_txn c2 = c_txn c1 \<and> c_subscribed c2 = c_subscribed c1" if "forward cx x s c1 = (q, c2)" for x s c1 q c2
    using forward_modeI [OF that] by (simp add: same_mode_def)
  have "same_mode c c' \<or> c_txn c' = c_txn c" if "class_cmd cx p args info c = (r, c')"
    using that gateBare_mode [of c cx p args info] local_cmd_mode [of c cx p args]
    by (auto simp: class_cmd_def subscribe_def Let_def dest!: f split: if_split_asm)
  moreover have "watch_cmd cx args c = (r, c') \<Longrightarrow> c_txn c' = c_txn c" by (auto simp: watch_cmd_def Let_def dest!: f)
  moreover have "selectDB cx p args c = (r, c') \<Longrightarrow> c_txn c' = c_txn c" using selectDB_mode [of c cx p args] by (simp add: same_mode_def)
  ultimately show ?thesis
    using assms auth_mode [of c cx args] hello_mode [of c cx args]
    by (auto simp: bare_cmd_def Let_def same_mode_def dest!: f split: if_split_asm)
qed

definition stream_ok :: "pconn \<Rightarrow> bool" where "stream_ok c \<longleftrightarrow> (c_subscribed c \<longrightarrow> c_txn c = None)"

lemma writeNoSlot_mode: "same_mode c (snd (writeNoSlot cx x c))"
  by (simp add: writeNoSlot_def Let_def) (simp add: same_mode_def)

lemma command_turn_stream:
  assumes "command_turn cx args c = (r, c')" and "stream_ok c"
  shows "stream_ok c'"
proof -
  have d: "stream_ok c2" if "dispatch cx a info c = (q, c2)" for a info q c2
  proof (cases "c_subscribed c \<or> c_principal c = None")
    case True
    with that assms(2) writeNoSlot_mode [of c cx a] show ?thesis
      by (auto simp: dispatch_def stream_ok_def same_mode_def split: if_split_asm)
  next
    case False
    then obtain p where "c_principal c = Some p" by auto
    with False that assms(2) show ?thesis
      by (auto simp: dispatch_def stream_ok_def dest: inTxn_mode bare_cmd_mode split: option.split_asm)
  qed
  obtain q c1 where cm: "conn_command cx args c = (q, c1)" by (rule prod.exhaust)
  have "stream_ok c1" using cm assms(2) d by (auto simp: conn_command_def split: if_split_asm option.split_asm)
  with assms cm show ?thesis by (cases q) (auto simp: command_turn_def split: if_split_asm)
qed

lemma preAuth_mode:
  assumes "preAuth_step cx args c = (b, c')"
  shows "same_mode c c'"
proof (cases "args = [] \<or> Classify args = None")
  case True
  then have "c' = c" using assms by (cases "args = []") (simp_all add: preAuth_step_def)
  then show ?thesis by simp
next
  case False
  then obtain info where i: "Classify args = Some info" "args \<noteq> []" by blast
  have "c' \<in> {snd (auth cx args c), snd (hello cx args c), reply cx (''+OK'' @ CRLF) c, reply cx (Reply (refuse ReasonAuthRequired [])) c}"
    using assms i by (auto simp: preAuth_step_def Let_def apfst_def map_prod_def split: if_split_asm prod.split_asm)
  with auth_mode hello_mode show ?thesis by auto
qed

subsection \<open>The life of a connection\<close>

text \<open>
  \<^verbatim>\<open>preAuth\<close> until a principal is bound and the login is flushed, then \<^verbatim>\<open>commandLoop\<close> until a handler ends it; the reply
  goroutine and the other connections run at any time.  \<open>ok\<close> restricts what the client sends; \<open>le\<close> is
  whether the proxy runs the lease engine.  The receipt of a replacement is a script.
\<close>

datatype conn_phase = Login | Serving | Ended

definition after_login :: "conn_ctx \<Rightarrow> bool option \<Rightarrow> pconn \<Rightarrow> conn_phase" where
  "after_login cx b c =
     (if b \<noteq> Some True then Ended else if c_principal c = None then Login else if flushUpstream cx c then Serving else Ended)"

inductive served :: "bool \<Rightarrow> (bytes list \<Rightarrow> bool) \<Rightarrow> conn_phase \<times> pconn \<Rightarrow> conn_phase \<times> pconn \<Rightarrow> bool" for le ok where
  login: "preAuth_step cx args c = (b, c') \<Longrightarrow> c_principal c = None \<Longrightarrow> served le ok (Login, c) (after_login cx b c', c')"
| client: "command_turn cx args c = (r, c') \<Longrightarrow> c_await c = None \<Longrightarrow> ok args \<Longrightarrow> y_leaseEngine cx = le \<Longrightarrow> receipts_are_scripts cx \<Longrightarrow>
    served le ok (Serving, c) (if r = COk then Serving else Ended, c')"
| relay: "reply_turn cx sz ur c = (r, c') \<Longrightarrow> served le ok (ph, c) (ph, c')"
| outside: "served le ok (ph, c) (ph, c\<lparr>c_revoked := rv, c_guard := g, c_engine := e, c_sess := ss, c_slices := sl, c_inodes := ino\<rparr>)"

context redis_server
begin

lemma subscribed_turn_after:
  assumes "command_turn cx args c = (r, c')" and "good bad aborts le c" and "linked (redis_run bad aborts (c_uw c)) None"
    and "args \<noteq> []" and "c_subscribed c" and "c_txn c = None"
  shows "after bad aborts le r c'"
proof -
  have stop: "after bad aborts le q c" for q using assms(2,3,6) by (simp add: after_def)
  obtain q c1 where cm: "conn_command cx args c = (q, c1)" by (rule prod.exhaust)
  have "after bad aborts le q c1"
  proof (cases "c_revoked c \<or> Classify args = None")
    case True
    with cm stop show ?thesis by (auto simp: conn_command_def split: if_split_asm)
  next
    case False
    then obtain info where i: "Classify args = Some info" by auto
    define a where "a = (if c_script info \<noteq> [] then roArgs args else args)"
    have d: "dispatch cx a info c = (q, c1)" using cm i False by (simp add: conn_command_def a_def)
    show ?thesis
    proof (cases "c_name info \<in> pubsub_names")
      case False
      with d assms(5) stop show ?thesis by (simp add: dispatch_def)
    next
      case True
      then have w: "writeNoSlot cx a c = (q, c1)" using d assms(5) by (simp add: dispatch_def)
      have "c_name info \<in> set ungated_names" using True by (auto simp: pubsub_names_def ungated_names_def)
      then have h: "harmless a" using harmlessI [OF i conn_names [OF i]] by (simp add: a_def)
      have n: "redis_name a \<noteq> ''MULTI''"
      proof
        assume m: "redis_name a = ''MULTI''"
        have fa: "forwarded_as a info" using i assms(4) by (auto simp: forwarded_as_def a_def)
        from forwarded_name [OF fa] m True show False by (auto simp: pubsub_names_def)
      qed
      have s: "linked (redis_step bad aborts a (redis_run bad aborts (c_uw c))) None \<and>
          ran_ok (c_units c) (redis_step bad aborts a (redis_run bad aborts (c_uw c)))"
        by (rule step_bare [OF assms(3) _ _ n]) (use assms(2) h in \<open>simp_all add: good_def allowed_def\<close>)
      from writeNoSlot_uw [OF w] s assms(2,3,6) show ?thesis by (auto simp: after_def good_def)
    qed
  qed
  then show ?thesis using assms(1,4) cm stop by (cases q) (auto simp: command_turn_def after_def split: if_split_asm)
qed

definition mediated :: "bool \<Rightarrow> conn_phase \<times> pconn \<Rightarrow> bool" where
  "mediated le s \<longleftrightarrow> good bad aborts le (snd s) \<and> stream_ok (snd s) \<and>
     (fst s = Login \<longrightarrow> resting le (snd s) \<and> \<not> c_subscribed (snd s)) \<and>
     (fst s = Serving \<longrightarrow> linked (redis_run bad aborts (c_uw (snd s))) (c_txn (snd s)))"

lemma keeps_mediated: "keeps_log c c' \<Longrightarrow> mediated le (ph, c) \<Longrightarrow> mediated le (ph, c')"
  by (simp add: mediated_def good_def stream_ok_def keeps_log_def resting_def)

lemma served_mediated: "served le plain_multi s s' \<Longrightarrow> mediated le s \<Longrightarrow> mediated le s'"
proof (induction rule: served.induct)
  case (login cx args c b c')
  then have "resting le c'" using preAuth_resting by (simp add: mediated_def)
  moreover have "\<not> c_subscribed c'" using login(3) preAuth_mode [OF login(1)] by (simp add: mediated_def same_mode_def)
  ultimately show ?case by (simp add: mediated_def resting_def stream_ok_def)
next
  case (client cx args c r c')
  then have m: "good bad aborts le c" "stream_ok c" "linked (redis_run bad aborts (c_uw c)) (c_txn c)" by (simp_all add: mediated_def)
  have a: "after bad aborts le r c'"
  proof (cases "args = []")
    case True
    with client(1) m show ?thesis by (auto simp: command_turn_def after_def)
  next
    case ne: False
    show ?thesis
    proof (cases "c_subscribed c")
      case True
      then have t: "c_txn c = None" using m(2) by (simp add: stream_ok_def)
      show ?thesis by (rule subscribed_turn_after [OF client(1) m(1) _ ne True t]) (use m(3) t in simp)
    next
      case False
      show ?thesis by (rule command_turn_after [OF client(1) m(1,3) ne False client(3-5)])
    qed
  qed
  with command_turn_stream [OF client(1) m(2)] show ?case by (simp add: mediated_def after_def)
next
  case (relay cx sz ur c r c' ph)
  then show ?case using keeps_mediated [OF reply_turn_keeps] by blast
next
  case (outside ph c)
  then show ?case by (elim keeps_mediated [rotated]) (simp add: keeps_log_def)
qed

end


subsection \<open>The sample connection logs in and writes its presence\<close>

lemma login_turn:
  "preAuth_step sample_cx [''AUTH'', ''ann'', ''pw''] sample_conn = (Some True, sample_conn\<lparr>c_up := True, c_principal := Some ann,
     c_uw := [[''CLIENT'', ''ID''], [''CLIENT'', ''SETNAME'', UpstreamName ''ann'' 1]],
     c_q := [drop_slot\<lparr>sl_hook := Some HookUpID\<rparr>, drop_slot, synth_slot (''+OK'' @ CRLF)], c_fwd := 2, c_qBytes := 3 * slotCost + 5\<rparr>)"
proof -
  have k: "Classify [''AUTH'', ''ann'', ''pw''] = Some (mk_command ''AUTH'' ClassConn)" by code_simp
  show ?thesis
    by (simp add: preAuth_step_def k mk_command_def auth_def authenticate_def ensureUpstream_def forward_def account_def write_up_def
        reply_def sample_cx_def sample_conn_def slotCost_def upstreamName_def ann_def)
qed

definition presence_unit :: punit where
  "presence_unit = sample_unit set_presence (ParseKey ''jum:presence:mac'') ''jum:presence:mac'' KCPresence"

lemma presence_decided:
  assumes "c_db c = 1" and "c_upID c = 0" and "c_guard c = NewGuard"
  shows "conn_decide sample_cx ann (newUnit sample_cx UnitBare [set_presence] c) c =
    (Some \<lparr>dn_deny = None, dn_ticket = None, dn_effects = [], dn_unit = presence_unit, dn_receipt = None\<rparr>, c)"
proof -
  have u: "newUnit sample_cx UnitBare [set_presence] c = bare_unit set_presence" using assms(1) by (simp add: newUnit_def bare_unit_def sample_cx_def)
  have r: "unit_reads sample_cx (bare_unit set_presence) c = sample_reads"
    using assms(2) by (simp add: unit_reads_def before_side_def bare_unit_def sample_cx_def sample_reads_def)
  have v: "accountingValueDenial ann presence_unit = None" by code_simp
  have k: "Check sample_reads ann (bare_unit set_presence) NewGuard = (Passed [], presence_unit, NewGuard)"
    by (simp add: Check_set_presence presence_unit_def)
  have x: "\<not> y_fenced sample_cx" "\<not> y_inForce sample_cx" "y_replace sample_cx presence_unit = (None, None)" "u_project presence_unit = []"
    by (simp_all add: sample_cx_def presence_unit_def sample_unit_def bare_unit_def)
  have g: "c\<lparr>c_guard := NewGuard\<rparr> = c" using assms(3) by simp
  show ?thesis by (simp add: u conn_decide_def r k v x g assms(3) scope_denial_def policy_decide_def relaxed_def)
qed

lemma presence_turn:
  assumes "c_db c = 1" and "c_upID c = 0" and "c_guard c = NewGuard" and "c_principal c = Some ann" and "c_txn c = None"
    and "\<not> c_subscribed c" and "\<not> c_revoked c" and "\<not> c_werr c" and "\<not> c_overflow c" and "c_qBytes c < 1000" and "length (c_q c) < 10"
  shows "\<exists>c'. command_turn sample_cx (cmd_args set_presence) c = (COk, c') \<and> c_uw c' = c_uw c @ [cmd_args set_presence]"
proof -
  let ?a = "cmd_args set_presence"
  have a: "?a = [''SET'', ''jum:presence:mac'', ''1'']" by (simp add: set_presence_def write_cmd_def)
  have i: "Classify ?a = Some (cmd_info set_presence)"
    using classified_samples(1) by (simp add: classified_def set_presence_def write_cmd_def mk_command_def)
  have n: "c_name (cmd_info set_presence) = ''SET''" "c_script (cmd_info set_presence) = []" "c_class (cmd_info set_presence) = ClassWrite"
    by (simp_all add: set_presence_def write_cmd_def mk_command_def)
  have al: "Allocation presence_unit = ([], 0)" by code_simp
  have aa: "alloc_args sample_cx ann presence_unit ?a = ?a" "alloc_hook ann presence_unit c = None" by (simp_all add: alloc_args_def alloc_hook_def al)
  have ux: "u_rewrite presence_unit = None" "y_audit sample_cx presence_unit = None" "\<not> y_idle sample_cx"
    by (simp_all add: presence_unit_def sample_unit_def bare_unit_def sample_cx_def)
  have cm: "\<lparr>cmd_args = ?a, cmd_info = cmd_info set_presence\<rparr> = set_presence" by simp
  let ?c = "note_unit presence_unit None [?a] c"
  obtain r c' where f: "forward sample_cx ?a plain_slot ?c = (r, c')" by (rule prod.exhaust)
  have r: "r = COk \<and> \<not> c_overflow c'"
    using f assms(7-11) by (auto simp: forward_def Let_def account_def write_up_def note_unit_def sample_cx_def slotCost_def split: if_split_asm)
  have "gateBare sample_cx ann ?a (cmd_info set_presence) c = (r, c')"
    using f by (simp add: gateBare_def Let_def cm presence_decided [OF assms(1-3)] audited_def ux aa commitOnSuccess_def unit_done_def plain_slot_def)
  then have "command_turn sample_cx ?a c = (COk, c')"
    using r assms(4-7) i n
    by (simp add: command_turn_def conn_command_def dispatch_def bare_cmd_def class_cmd_def needsGate_def a ux)
  moreover have "c_uw c' = c_uw c @ [?a]" using forward_uw(3) [OF f] r by (simp add: note_unit_def)
  ultimately show ?thesis by blast
qed


subsection \<open>A MULTI that Redis rejects\<close>

text \<open>A connection in service with room for two more commands.\<close>

definition roomy :: "conn_ctx \<Rightarrow> pconn \<Rightarrow> bool" where
  "roomy cx c \<longleftrightarrow> \<not> c_revoked c \<and> \<not> c_werr c \<and> \<not> c_overflow c \<and> (\<forall>x. y_write cx x) \<and> y_flush cx \<and>
     c_qBytes c + 2 * slotCost \<le> y_maxBytes cx \<and> length (c_q c) + 2 \<le> y_maxReplies cx"

lemma roomy_forward:
  assumes "\<not> c_revoked c" and "\<not> c_werr c" and "\<not> c_overflow c" and "y_write cx x"
    and "c_qBytes c + slotCost \<le> y_maxBytes cx" and "length (c_q c) + 1 \<le> y_maxReplies cx"
  shows "forward cx x s c = (COk, c\<lparr>c_q := c_q c @ [s], c_fwd := c_fwd c + 1, c_qBytes := c_qBytes c + slotCost, c_uw := c_uw c @ [x]\<rparr>)"
  using assms by (simp add: forward_def account_def write_up_def Let_def)

text \<open>C36: The transaction state can be made to lie.  A client that sends \<^verbatim>\<open>MULTI\<close> with an argument makes the proxy open
  a transaction that Redis, which rejects the command, never opens: the next command, here any SET by any principal, is
  forwarded as a queued one and executed at once, although no unit was decided.\<close>

theorem multi_with_argument_bypasses_decisions:
  assumes "roomy cx c" and "c_principal c = Some p" and "c_txn c = None" and "\<not> c_subscribed c"
    and "\<not> rt_multi (redis_run bad aborts (c_uw c))" and "\<And>i. bad i [''MULTI'', z]" and "\<And>i. \<not> bad i [''SET'', k, v]"
  shows "\<exists>c1 c2. command_turn cx [''MULTI'', z] c = (COk, c1) \<and> command_turn cx [''SET'', k, v] c1 = (COk, c2) \<and> c_units c2 = c_units c \<and>
    rt_ran (redis_run bad aborts (c_uw c2)) = rt_ran (redis_run bad aborts (c_uw c)) @ [[''SET'', k, v]]"
proof -
  have r: "\<not> c_revoked c" "\<not> c_werr c" "\<not> c_overflow c" "\<And>x. y_write cx x" "y_flush cx"
      "c_qBytes c + 2 * slotCost \<le> y_maxBytes cx" "length (c_q c) + 2 \<le> y_maxReplies cx"
    using assms(1) by (simp_all add: roomy_def)
  have n: "ToUpper ''MULTI'' = ''MULTI''" "ToUpper ''SET'' = ''SET''" "map upper_byte ''SET'' = ''SET''" "map upper_byte ''MULTI'' = ''MULTI''"
    "map_of commands ''MULTI'' = Some (ClassTxn, kNone)" "ks_step kNone = 0" "\<not> HasPrefix ''MULTI'' ''JM.''" "\<not> HasPrefix ''SET'' ''JM.''"
    by code_simp+
  obtain info where i: "Classify [''MULTI'', z] = Some info" "c_name info = ''MULTI''" "c_script info = []"
    by (auto simp: Classify_def classifySub_def Let_def n mk_command_def)
  let ?c1 = "c\<lparr>c_txn := Some \<lparr>tx_cmds = [], tx_poison = []\<rparr>, c_q := c_q c @ [plain_slot], c_fwd := c_fwd c + 1,
    c_qBytes := c_qBytes c + slotCost, c_uw := c_uw c @ [[''MULTI'', z]]\<rparr>"
  have f1: "forward cx [''MULTI'', z] plain_slot (c\<lparr>c_txn := Some \<lparr>tx_cmds = [], tx_poison = []\<rparr>\<rparr>) = (COk, ?c1)"
    by (subst roomy_forward) (use r in \<open>simp_all add: slotCost_def\<close>)
  have t1: "command_turn cx [''MULTI'', z] c = (COk, ?c1)"
    using f1 i r assms(2-4) by (simp add: command_turn_def conn_command_def dispatch_def bare_cmd_def flushUpstream_def)
  let ?w = "write_cmd [''SET'', k, v] (ParseKey k)"
  have "classified ?w" by (rule classified_write_cmd) (simp_all add: bare_commands n)
  then have j: "Classify [''SET'', k, v] = Some (cmd_info ?w)" "c_name (cmd_info ?w) = ''SET''" "c_script (cmd_info ?w) = []"
      "c_class (cmd_info ?w) = ClassWrite"
    by (simp_all add: classified_def write_cmd_def mk_command_def)
  let ?t = "queued_cmd [''SET'', k, v] (cmd_info ?w) \<lparr>tx_cmds = [], tx_poison = []\<rparr>"
  let ?c2 = "?c1\<lparr>c_txn := Some ?t, c_q := c_q c @ [plain_slot, plain_slot], c_fwd := c_fwd c + 2, c_qBytes := c_qBytes c + 2 * slotCost,
    c_uw := c_uw c @ [[''MULTI'', z], [''SET'', k, v]]\<rparr>"
  have f2: "forward cx [''SET'', k, v] plain_slot (?c1\<lparr>c_txn := Some ?t\<rparr>) = (COk, ?c2)"
    by (subst roomy_forward) (use r in \<open>simp_all add: slotCost_def\<close>)
  have t2: "command_turn cx [''SET'', k, v] ?c1 = (COk, ?c2)"
    using f2 j r assms(2-4) by (simp add: command_turn_def conn_command_def dispatch_def inTxn_def Let_def not_in_multi_def flushUpstream_def)
  have m: "rt_ran (redis_run bad aborts (c_uw c @ [[''MULTI'', z], [''SET'', k, v]])) = rt_ran (redis_run bad aborts (c_uw c)) @ [[''SET'', k, v]]"
    using redis_run_snoc [of bad aborts "c_uw c @ [[''MULTI'', z]]" "[''SET'', k, v]"] redis_run_snoc [of bad aborts "c_uw c" "[''MULTI'', z]"] assms(5-7) n
    by (simp add: redis_step_def Let_def redis_name_def)
  show ?thesis by (intro exI [of _ ?c1] exI [of _ ?c2]) (use t1 t2 m in simp)
qed

theorem multi_with_argument_bypasses_decisions_witness:
  "\<exists>c1 c2. command_turn sample_cx [''MULTI'', ''1''] (ann_conn\<lparr>c_principal := Some gateway\<rparr>) = (COk, c1) \<and>
    command_turn sample_cx [''SET'', ''i5'', ''x''] c1 = (COk, c2) \<and> c_units c2 = [] \<and>
    rt_ran (redis_run redis_rejects (\<lambda>_. False) (c_uw c2)) = [[''SET'', ''i5'', ''x'']]"
proof -
  let ?c = "ann_conn\<lparr>c_principal := Some gateway\<rparr>"
  have n: "ToUpper ''SET'' = ''SET''" "map upper_byte ''SET'' = ''SET''" "map upper_byte ''MULTI'' = ''MULTI''" by code_simp+
  have "roomy sample_cx ?c" "c_principal ?c = Some gateway" "c_txn ?c = None" "\<not> c_subscribed ?c"
    "\<not> rt_multi (redis_run redis_rejects (\<lambda>_. False) (c_uw ?c))"
    by (simp_all add: roomy_def sample_cx_def ann_conn_def sample_conn_def slotCost_def redis_run_def redis_idle_def)
  from multi_with_argument_bypasses_decisions [OF this, of "''1''" "''i5''" "''x''"] show ?thesis
    by (simp add: redis_rejects_def redis_name_def n) (simp add: ann_conn_def sample_conn_def redis_run_def redis_idle_def)
qed

end
