(* ===== verification/Spec2Isabelle.thy ===== *)
theory Spec2Isabelle
  imports Resp_Values Lease_Cmd_Props Stores_Props Conn_Run
begin

text \<open>
  Verification of the Redis proxy of JuiceMount, the Go package \<^verbatim>\<open>src/internal/respproxy\<close>.

  \<^bold>\<open>The program.\<close>  Clients of a shared JuiceFS volume reach its metadata server, a Redis, only through this
  proxy.  A connection (\<^verbatim>\<open>proxy.go\<close>) reads commands (\<^verbatim>\<open>resp.go\<close>), classifies them and their keys (\<^verbatim>\<open>classify.go\<close>), and
  groups them into units: one bare command, or the body of a MULTI.  A unit is decided before Redis may
  execute it: the guard (\<^verbatim>\<open>guard.go\<close>) rules on commands, keys, sessions, counters and slices; the accounting rules
  (\<^verbatim>\<open>accounting.go\<close>) on quota and directory statistics; and for writes of a project the lease engine (\<^verbatim>\<open>decide.go\<close>)
  finds out which projects the unit touches (\<^verbatim>\<open>txnunit.go\<close>, \<^verbatim>\<open>ancestry.go\<close>, \<^verbatim>\<open>projcache.go\<close>), whether the person
  may write there (\<^verbatim>\<open>grants.go\<close>), and whether the principal holds or gets the lease of each project
  (\<^verbatim>\<open>leases.go\<close>, commands in \<^verbatim>\<open>leasecmd.go\<close>).  Replies come back in order through a queue of slots.

  \<^bold>\<open>Conventions.\<close>  \<^verbatim>\<open>[]byte\<close> and \<^verbatim>\<open>string\<close> are \<^typ>\<open>string\<close>; \<^verbatim>\<open>uint64\<close> is \<^typ>\<open>nat\<close> with its bound written out, \<^verbatim>\<open>int64\<close> is
  \<^typ>\<open>int\<close> with \<^const>\<open>wrap64\<close> where it can overflow, and SHA-1 works on 32-bit words.  Errors, refusals and panics are values.  A Go
  map is an association list or a function.  A closure is the data it captures.  A call to Redis has an outcome:
  delivered, never run, or run with its reply lost; the Lua scripts of the source are translated and run
  atomically.  What other goroutines do while a call holds no lock is an arbitrary function argument.  The
  rendering of \<^verbatim>\<open>%q\<close>, clocks, credentials and answers of Redis are arguments.

  \<^bold>\<open>Theories.\<close>

  \<^item> \<open>Go_Base\<close>: the prelude; strconv, strings, byte order, integer wrap-around, and the collections \<open>go_arith\<close>, \<open>go_dec\<close>.
  \<^item> \<open>Resp_Wire\<close>, \<open>Resp_Props\<close>, \<open>Resp_Values\<close> (\<^verbatim>\<open>resp.go\<close>): command reader under limits, writer, frame copier, value
    reader and renderer; round trips, bounds, byte transparency, agreement of the two reply readers, termination.
  \<^item> \<open>Proxy_Policy\<close> (\<^verbatim>\<open>policy.go\<close>): principals, modes, refusals, and that a refusal is one frame.
  \<^item> \<open>Sha1\<close>, \<open>Classify\<close>, \<open>Classify_Props\<close> (\<^verbatim>\<open>classify.go\<close>): the command table, key grammar and pinned scripts; no two keys
    parse alike, and only pinned scripts are read-only scripts.
  \<^item> \<open>Guard_Base\<close>, \<open>Guard_Slices\<close>, \<open>Guard_Check\<close>, \<open>Guard_Gates\<close>, \<open>Guard_Samples\<close>, \<open>Guard_Props\<close> (\<^verbatim>\<open>guard.go\<close>): all phases of \<^verbatim>\<open>Check\<close>; write
    rights per kind of principal, completeness of the project writes it reports, owned sessions, bounded allocations.
  \<^item> \<open>Lease_Store\<close>, \<open>Leases\<close>, \<open>Lease_Props\<close>, \<open>Lease_Life\<close> (\<^verbatim>\<open>leases.go\<close>): the lease scripts and the table in memory as the step relation
    \<open>lease_step\<close>; the table and Redis agree or the lease is quarantined, epochs only grow, sweeps, heartbeats, restart.
  \<^item> \<open>Unit_Facts\<close>, \<open>Ancestry\<close>, \<open>Ancestry_Props\<close> (\<^verbatim>\<open>txnunit.go\<close>, \<^verbatim>\<open>projcache.go\<close>, \<^verbatim>\<open>ancestry.go\<close>): what a unit says about the tree, and the
    caches; resolving a directory refines a climb in the stored tree, and the caches follow every committed unit.
  \<^item> \<open>Placement\<close>, \<open>Placement_Props\<close> (\<^verbatim>\<open>txnunit.go\<close>): \<^verbatim>\<open>placeUnit\<close>; every directory and inode a placed unit touches lies in a
    project it reports.  The contract of the tree reader is the locale \<open>tree_reader\<close>, interpreted on the caches.
  \<^item> \<open>Grants\<close>, \<open>Grant_Props\<close> (\<^verbatim>\<open>grants.go\<close>): people and grant paths; a granted write lies under a granted folder.  The
    locale \<open>grant_reader\<close> extends \<open>tree_reader\<close>.
  \<^item> \<open>Smart_Views\<close> (\<^verbatim>\<open>smartview.go\<close>): the views the Manager may have removed above the project depth.
  \<^item> \<open>Decide\<close>, \<open>Decide_Props\<close>, \<open>Fence_Life\<close> (\<^verbatim>\<open>decide.go\<close>): the decision with its fences and the end of a unit; an admitted unit
    holds the lease of every project it touches, and that lease stands, as the step relation \<open>fence_step\<close>, until the unit ends.
  \<^item> \<open>Lease_Cmd\<close>, \<open>Lease_Cmd_Props\<close> (\<^verbatim>\<open>leasecmd.go\<close>): JM.LEASE; its commands respect the tenure of a holder, every reply is one frame.
  \<^item> \<open>Stores\<close>, \<open>Stores_Props\<close> (\<^verbatim>\<open>proxy.go\<close>): session owners and id ranges kept in Redis, against the in-memory stores of \<^verbatim>\<open>guard.go\<close>; the
    locales \<open>session_store\<close> and \<open>id_owners\<close> are interpreted on both.
  \<^item> \<open>Accounting\<close> (\<^verbatim>\<open>accounting.go\<close>): values and scope of the accounting hashes.
  \<^item> \<open>Conn\<close>, \<open>Conn_Props\<close>, \<open>Conn_Gate\<close>, \<open>Conn_Run\<close> (\<^verbatim>\<open>proxy.go\<close>): the connection as a state machine, one step per turn of
    \<^verbatim>\<open>preAuth\<close>, \<^verbatim>\<open>commandLoop\<close> and \<^verbatim>\<open>replyLoop\<close>.  Replies stay in order (\<open>conn_step\<close>), and Redis, any server that keeps the contract of the locale
    \<open>redis_server\<close>, executes only what was decided (\<open>served\<close>).

  \<^bold>\<open>Bounds.\<close>  The readers of nested frames recurse on fuel, twice the length of the input plus two; every line they read
  takes at least three bytes, so the fuel never runs out, which is proved for every input.  The climbs through the tree
  (4096 levels) and the three attempts of \<^verbatim>\<open>Decide\<close> have the limits of the source.  The cursor loops over SCAN and SSCAN end
  only if Redis ends them, so they are partial functions whose \<^const>\<open>None\<close> is not returning.  Redis scores and Lua numbers
  are exact integers, as they are below \<open>2 ^ 53\<close>.

  \<^bold>\<open>Where the code fails.\<close>  Five properties prove misbehaviour: a \<^verbatim>\<open>MULTI\<close> with an argument makes the proxy forward writes that
  were never decided (\<open>Conn_Run\<close>); a directory moved to the trash keeps its project in the memo (\<open>Ancestry_Props\<close>); a checkout with an
  overflowing length never ends (\<open>Lease_Cmd_Props\<close>); a key count near the largest integer (\<open>Classify_Props\<close>), and a map header
  of \<open>2 ^ 62\<close> pairs (\<open>Resp_Values\<close>), panic.

  \<^bold>\<open>Not modelled.\<close>  Sockets, time-outs, statistics and log text; credential hashing and reloading of the
  principals file (the principal of a login is an argument); the audit log, whose refusal is an argument; the
  birth and replacement protocols, whose verdict and receipt are arguments; and the other programs of the
  repository (NFS server, metadata mirror, caches, farm queue, Manager, applications).
\<close>

end
